(* ===== verification/Prelude.thy ===== *)
theory Prelude
  imports Main "HOL-Library.AList" "HOL-Library.Word"
begin

text \<open>
  Shared vocabulary of the development: the machine arithmetic of the release profile
  (unsigned and signed additions wrap, the saturating and checked variants are written
  out), the standard containers the code uses (\<open>IndexSet\<close>, \<open>IndexMap\<close>, \<open>BTreeMap\<close>) as
  lists that keep the iteration order, the \<open>Result\<close> type as a sum, and the generic lemmas
  the component theories share.
\<close>

named_theorems container_simps \<open>lookup and key-set equations of the container operations\<close>
named_theorems arith_defs \<open>definitions of the fixed-width arithmetic\<close>

text \<open>Lookups in a map with distinct keys stay lookups; \<open>map_of_eq_Some_iff\<close> is applied by name.\<close>

declare map_of_eq_Some_iff [simp del]

section \<open>Machine integers\<close>

text \<open>
  Rounds, stakes and costs are \<open>u64\<close> values. They are kept as natural numbers and every
  operation of the source that can leave the range is written with one of the functions
  below. Truncated subtraction on \<^typ>\<open>nat\<close> is \<open>saturating_sub\<close>.
\<close>

definition u64_add :: "nat \<Rightarrow> nat \<Rightarrow> nat" where
  [arith_defs]: "u64_add a b = (a + b) mod 2 ^ 64"

definition u64_mul :: "nat \<Rightarrow> nat \<Rightarrow> nat" where
  [arith_defs]: "u64_mul a b = (a * b) mod 2 ^ 64"

definition u64_saturating_add :: "nat \<Rightarrow> nat \<Rightarrow> nat" where
  [arith_defs]: "u64_saturating_add a b = min (a + b) (2 ^ 64 - 1)"

definition u64_checked_add :: "nat \<Rightarrow> nat \<Rightarrow> nat option" where
  [arith_defs]: "u64_checked_add a b = (if a + b < 2 ^ 64 then Some (a + b) else None)"

definition u32_saturating_add :: "nat \<Rightarrow> nat \<Rightarrow> nat" where
  [arith_defs]: "u32_saturating_add a b = min (a + b) (2 ^ 32 - 1)"

text \<open>Timestamps are \<open>i64\<close> values, kept as integers.\<close>

definition i64_wrap :: "int \<Rightarrow> int" where
  [arith_defs]: "i64_wrap x = (x + 2 ^ 63) mod 2 ^ 64 - 2 ^ 63"

definition i64_add :: "int \<Rightarrow> int \<Rightarrow> int" where
  [arith_defs]: "i64_add a b = i64_wrap (a + b)"

definition in_i64 :: "int \<Rightarrow> bool" where
  [arith_defs]: "in_i64 x \<longleftrightarrow> - (2 ^ 63) \<le> x \<and> x < 2 ^ 63"

definition i64_checked_sub :: "int \<Rightarrow> int \<Rightarrow> int option" where
  [arith_defs]: "i64_checked_sub a b = (if in_i64 (a - b) then Some (a - b) else None)"

lemma u64_add_exact [simp]: "a + b < 2 ^ 64 \<Longrightarrow> u64_add a b = a + b"
  by (simp add: u64_add_def)

lemma u64_add_bound: "u64_add a b < 2 ^ 64"
  by (simp add: u64_add_def)

lemma u64_saturating_add_bound: "u64_saturating_add a b < 2 ^ 64"
  by (simp add: u64_saturating_add_def min_def)

lemma u64_saturating_add_exact: "a + b < 2 ^ 64 \<Longrightarrow> u64_saturating_add a b = a + b"
  by (simp add: u64_saturating_add_def min_def)

lemma u64_checked_add_Some [simp]:
  "u64_checked_add a b = Some c \<longleftrightarrow> c = a + b \<and> a + b < 2 ^ 64"
  by (auto simp: u64_checked_add_def)

lemma i64_wrap_id: "in_i64 x \<Longrightarrow> i64_wrap x = x"
  by (simp add: i64_wrap_def in_i64_def)

lemma i64_add_exact: "in_i64 (a + b) \<Longrightarrow> i64_add a b = a + b"
  by (simp add: i64_add_def i64_wrap_id)

section \<open>Results\<close>

text \<open>\<open>Result<A, E>\<close> is \<^typ>\<open>'e + 'a\<close>, with \<^const>\<open>Inl\<close> for \<open>Err\<close>; the \<open>?\<close> operator is
  \<open>rbind\<close> and \<open>Result::ok\<close> forgets the error.\<close>

type_synonym ('e, 'a) result = "'e + 'a"

fun rbind :: "('e, 'a) result \<Rightarrow> ('a \<Rightarrow> ('e, 'b) result) \<Rightarrow> ('e, 'b) result" where
  "rbind (Inl e) f = Inl e"
| "rbind (Inr x) f = f x"

fun map_err :: "('e \<Rightarrow> 'd) \<Rightarrow> ('e, 'a) result \<Rightarrow> ('d, 'a) result" where
  "map_err g (Inl e) = Inl (g e)"
| "map_err g (Inr x) = Inr x"

definition ok_or :: "'e \<Rightarrow> 'a option \<Rightarrow> ('e, 'a) result" where
  "ok_or e x = (case x of None \<Rightarrow> Inl e | Some y \<Rightarrow> Inr y)"

definition is_ok :: "('e, 'a) result \<Rightarrow> bool" where
  "is_ok r = (case r of Inl _ \<Rightarrow> False | Inr _ \<Rightarrow> True)"

lemma rbind_Inr_iff: "rbind r f = Inr y \<longleftrightarrow> (\<exists>x. r = Inr x \<and> f x = Inr y)"
  by (cases r) auto

lemma rbind_Inl_iff: "rbind r f = Inl e \<longleftrightarrow> r = Inl e \<or> (\<exists>x. r = Inr x \<and> f x = Inl e)"
  by (cases r) auto

lemma map_err_Inr_iff [simp]: "map_err g r = Inr x \<longleftrightarrow> r = Inr x"
  by (cases r) auto

lemma ok_or_simps [simp]:
  "ok_or e None = Inl e" "ok_or e (Some x) = Inr x" "ok_or e y = Inr x \<longleftrightarrow> y = Some x"
  by (auto simp: ok_or_def split: option.splits)

lemma is_ok_simps [simp]: "is_ok (Inl e) = False" "is_ok (Inr x) = True"
  by (simp_all add: is_ok_def)

lemma is_ok_iff: "is_ok r \<longleftrightarrow> (\<exists>x. r = Inr x)"
  by (cases r) auto

section \<open>Insertion-ordered sets\<close>

text \<open>
  An \<open>IndexSet\<close> is a list without duplicates: \<open>insert\<close> appends a new element and
  \<open>swap_remove\<close> moves the last element into the hole.
\<close>

definition iset_insert :: "'a \<Rightarrow> 'a list \<Rightarrow> 'a list" where
  "iset_insert x xs = (if x \<in> set xs then xs else xs @ [x])"

fun iset_swap_remove :: "'a \<Rightarrow> 'a list \<Rightarrow> 'a list" where
  "iset_swap_remove x [] = []"
| "iset_swap_remove x (y # ys) =
     (if x = y then (if ys = [] then [] else last ys # butlast ys) else y # iset_swap_remove x ys)"

lemma set_iset_insert [simp]: "set (iset_insert x xs) = insert x (set xs)"
  by (auto simp: iset_insert_def)

lemma distinct_iset_insert [simp]: "distinct xs \<Longrightarrow> distinct (iset_insert x xs)"
  by (auto simp: iset_insert_def)

lemma iset_insert_not_Nil [simp]: "iset_insert x xs \<noteq> []"
  by (auto simp: iset_insert_def)

lemma set_last_butlast: "xs \<noteq> [] \<Longrightarrow> insert (last xs) (set (butlast xs)) = set xs"
  by (induction xs) auto

lemma distinct_last_butlast:
  "distinct xs \<Longrightarrow> xs \<noteq> [] \<Longrightarrow> last xs \<notin> set (butlast xs) \<and> distinct (butlast xs)"
  by (induction xs rule: rev_induct) auto

lemma set_iset_swap_remove [simp]:
  "distinct xs \<Longrightarrow> set (iset_swap_remove x xs) = set xs - {x}"
  by (induction xs) (auto simp: set_last_butlast simp flip: set_last_butlast)

lemma distinct_iset_swap_remove [simp]:
  "distinct xs \<Longrightarrow> distinct (iset_swap_remove x xs)"
  by (induction xs) (auto simp: distinct_last_butlast)

section \<open>Insertion-ordered maps\<close>

text \<open>
  An \<open>IndexMap\<close> is an association list with distinct keys, read with \<^const>\<open>map_of\<close>;
  \<^const>\<open>AList.update\<close> is \<open>insert\<close> (in place for a known key, at the end for a new one)
  and \<^const>\<open>AList.delete\<close> is \<open>shift_remove\<close>. A \<open>HashMap\<close> has the same operations; its
  iteration order is some order.
\<close>

type_synonym ('k, 'v) imap = "('k \<times> 'v) list"

abbreviation imap_keys :: "('k, 'v) imap \<Rightarrow> 'k list" where
  "imap_keys m \<equiv> map fst m"

abbreviation imap_wf :: "('k, 'v) imap \<Rightarrow> bool" where
  "imap_wf m \<equiv> distinct (imap_keys m)"

abbreviation imap_get :: "('k, 'v) imap \<Rightarrow> 'k \<Rightarrow> 'v option" where
  "imap_get m k \<equiv> map_of m k"

abbreviation imap_insert :: "'k \<Rightarrow> 'v \<Rightarrow> ('k, 'v) imap \<Rightarrow> ('k, 'v) imap" where
  "imap_insert k v m \<equiv> AList.update k v m"

abbreviation imap_shift_remove :: "'k \<Rightarrow> ('k, 'v) imap \<Rightarrow> ('k, 'v) imap" where
  "imap_shift_remove k m \<equiv> AList.delete k m"

definition imap_contains_key :: "'k \<Rightarrow> ('k, 'v) imap \<Rightarrow> bool" where
  "imap_contains_key k m \<longleftrightarrow> map_of m k \<noteq> None"

text \<open>\<open>map.entry(k).or_default()\<close> followed by an update of the value.\<close>

definition imap_or_default :: "'k \<Rightarrow> 'v \<Rightarrow> ('v \<Rightarrow> 'v) \<Rightarrow> ('k, 'v) imap \<Rightarrow> ('k, 'v) imap" where
  "imap_or_default k d f m = imap_insert k (f (case imap_get m k of None \<Rightarrow> d | Some v \<Rightarrow> v)) m"

fun imap_swap_remove :: "'k \<Rightarrow> ('k, 'v) imap \<Rightarrow> ('k, 'v) imap" where
  "imap_swap_remove k [] = []"
| "imap_swap_remove k (p # m) =
     (if k = fst p then (if m = [] then [] else last m # butlast m) else p # imap_swap_remove k m)"

lemma map_of_update [simp, container_simps]: "map_of (AList.update k v m) = (map_of m)(k \<mapsto> v)"
  by (rule update_conv')

lemma map_of_delete [simp, container_simps]: "map_of (AList.delete k m) = (map_of m)(k := None)"
  by (rule delete_conv')

lemma update_fresh: "k \<notin> fst ` set m \<Longrightarrow> imap_insert k v m = m @ [(k, v)]"
  by (induction m) auto

lemma imap_wf_insert [simp]: "imap_wf m \<Longrightarrow> imap_wf (imap_insert k v m)"
  by (rule distinct_update)

lemma imap_wf_shift_remove [simp]: "imap_wf m \<Longrightarrow> imap_wf (imap_shift_remove k m)"
  by (rule distinct_delete)

lemma imap_contains_key_iff [simp, container_simps]:
  "imap_contains_key k m \<longleftrightarrow> k \<in> fst ` set m"
  by (simp add: imap_contains_key_def map_of_eq_None_iff)

lemma map_of_or_default [simp, container_simps]:
  "map_of (imap_or_default k d f m) =
     (map_of m)(k \<mapsto> f (case map_of m k of None \<Rightarrow> d | Some v \<Rightarrow> v))"
  by (simp add: imap_or_default_def)

lemma imap_wf_or_default [simp]: "imap_wf m \<Longrightarrow> imap_wf (imap_or_default k d f m)"
  by (simp add: imap_or_default_def)

lemma set_imap_swap_remove:
  "imap_wf m \<Longrightarrow> set (imap_swap_remove k m) = {p \<in> set m. fst p \<noteq> k}"
proof (induction m)
  case (Cons p m)
  then show ?case
    by (auto simp: set_last_butlast rev_image_eqI)
qed simp

lemma imap_wf_swap_remove [simp]: "imap_wf m \<Longrightarrow> imap_wf (imap_swap_remove k m)"
proof (induction m)
  case (Cons p m)
  show ?case
  proof (cases "k = fst p")
    case True
    then show ?thesis
      using Cons.prems distinct_last_butlast [of "map fst m"]
      by (auto simp: last_map map_butlast)
  next
    case False
    then show ?thesis
      using Cons set_imap_swap_remove [of m k] by auto
  qed
qed simp

lemma map_of_swap_remove [simp, container_simps]:
  assumes "imap_wf m"
  shows "map_of (imap_swap_remove k m) = (map_of m)(k := None)"
proof
  fix x
  have "map_of (imap_swap_remove k m) x = Some v \<longleftrightarrow> ((map_of m)(k := None)) x = Some v" for v
    using assms by (simp add: set_imap_swap_remove map_of_eq_Some_iff)
  then show "map_of (imap_swap_remove k m) x = ((map_of m)(k := None)) x"
    by (metis option.exhaust)
qed

section \<open>Ordered maps\<close>

text \<open>A \<open>BTreeMap\<close> is an association list with strictly increasing keys.\<close>

fun btree_insert :: "'k::linorder \<Rightarrow> 'v \<Rightarrow> ('k, 'v) imap \<Rightarrow> ('k, 'v) imap" where
  "btree_insert k v [] = [(k, v)]"
| "btree_insert k v ((a, b) # m) =
     (if k < a then (k, v) # (a, b) # m
      else if k = a then (k, v) # m
      else (a, b) # btree_insert k v m)"

abbreviation btree_wf :: "('k::linorder, 'v) imap \<Rightarrow> bool" where
  "btree_wf m \<equiv> sorted_wrt (<) (imap_keys m)"

definition btree_or_default ::
  "'k::linorder \<Rightarrow> 'v \<Rightarrow> ('v \<Rightarrow> 'v) \<Rightarrow> ('k, 'v) imap \<Rightarrow> ('k, 'v) imap" where
  "btree_or_default k d f m = btree_insert k (f (case map_of m k of None \<Rightarrow> d | Some v \<Rightarrow> v)) m"

definition retain :: "('k \<Rightarrow> 'v \<Rightarrow> bool) \<Rightarrow> ('k, 'v) imap \<Rightarrow> ('k, 'v) imap" where
  "retain P m = filter (\<lambda>(k, v). P k v) m"

lemma map_of_btree_insert [simp, container_simps]:
  "map_of (btree_insert k v m) = (map_of m)(k \<mapsto> v)"
  by (induction k v m rule: btree_insert.induct) auto

lemma keys_btree_insert [simp]: "fst ` set (btree_insert k v m) = insert k (fst ` set m)"
  by (induction k v m rule: btree_insert.induct) auto

lemma btree_wf_insert [simp]: "btree_wf m \<Longrightarrow> btree_wf (btree_insert k v m)"
  by (induction k v m rule: btree_insert.induct) fastforce+

lemma btree_wf_distinct: "btree_wf m \<Longrightarrow> imap_wf m"
  by (simp add: strict_sorted_iff)

lemma map_of_btree_or_default [simp, container_simps]:
  "map_of (btree_or_default k d f m) =
     (map_of m)(k \<mapsto> f (case map_of m k of None \<Rightarrow> d | Some v \<Rightarrow> v))"
  by (simp add: btree_or_default_def)

lemma btree_wf_or_default [simp]: "btree_wf m \<Longrightarrow> btree_wf (btree_or_default k d f m)"
  by (simp add: btree_or_default_def)

lemma map_of_retain [simp, container_simps]:
  "imap_wf m \<Longrightarrow> map_of (retain P m) k =
     (case map_of m k of None \<Rightarrow> None | Some v \<Rightarrow> if P k v then Some v else None)"
proof (induction m)
  case (Cons p m)
  obtain a b where p: "p = (a, b)" by (cases p)
  have "map_of (retain P m) a = None"
    using Cons.prems p by (auto simp: retain_def map_of_eq_None_iff)
  moreover have "map_of m a = None"
    using Cons.prems p by (auto simp: map_of_eq_None_iff)
  ultimately show ?case
    using Cons p by (auto simp: retain_def)
qed (simp add: retain_def)

lemma imap_wf_retain [simp]: "imap_wf m \<Longrightarrow> imap_wf (retain P m)"
  by (induction m) (auto simp: retain_def)

lemma btree_wf_retain [simp]: "btree_wf m \<Longrightarrow> btree_wf (retain P m)"
  by (induction m) (auto simp: retain_def)

lemma set_retain: "set (retain P m) = {(k, v) \<in> set m. P k v}"
  by (auto simp: retain_def)

section \<open>Bounded caches\<close>

text \<open>
  An \<open>LruCache\<close> of a given capacity, most recently used entry first: \<open>put\<close> moves the key to
  the front and drops the least recently used entry when the capacity is exceeded,
  \<open>get_mut\<close> moves a present key to the front, \<open>pop_lru\<close> takes the last entry.
\<close>

definition lru_put :: "nat \<Rightarrow> 'k \<Rightarrow> 'v \<Rightarrow> ('k, 'v) imap \<Rightarrow> ('k, 'v) imap" where
  "lru_put cap k v c = take cap ((k, v) # AList.delete k c)"

definition lru_touch :: "'k \<Rightarrow> ('k, 'v) imap \<Rightarrow> ('k, 'v) imap" where
  "lru_touch k c = (case map_of c k of None \<Rightarrow> c | Some v \<Rightarrow> (k, v) # AList.delete k c)"

definition lru_pop :: "('k, 'v) imap \<Rightarrow> ('k \<times> 'v) option \<times> ('k, 'v) imap" where
  "lru_pop c = (if c = [] then (None, c) else (Some (last c), butlast c))"

lemma map_of_take_SomeD:
  "imap_wf m \<Longrightarrow> map_of (take n m) k = Some v \<Longrightarrow> map_of m k = Some v"
  by (metis distinct_take in_set_takeD map_of_SomeD map_of_is_SomeI take_map)

lemma imap_wf_touched: "imap_wf c \<Longrightarrow> imap_wf ((k, v) # AList.delete k c)"
  by (simp add: distinct_delete delete_notin_dom)

lemma lru_wf_put [simp]: "imap_wf c \<Longrightarrow> imap_wf (lru_put cap k v c)"
  unfolding lru_put_def take_map [symmetric] by (rule distinct_take, rule imap_wf_touched)

lemma lru_put_SomeD:
  assumes "imap_wf c" "map_of (lru_put cap k v c) x = Some w"
  shows "if x = k then w = v else map_of c x = Some w"
proof -
  from map_of_take_SomeD [OF imap_wf_touched [OF assms(1)]] assms(2) show ?thesis
    by (fastforce simp: lru_put_def split: if_splits)
qed

lemma length_lru_put: "length (lru_put cap k v c) \<le> cap"
  by (simp add: lru_put_def)

lemma lru_touch_lookup [simp]: "map_of (lru_touch k c) = map_of c"
  by (auto simp: lru_touch_def fun_eq_iff split: option.splits)

lemma lru_wf_touch [simp]: "imap_wf c \<Longrightarrow> imap_wf (lru_touch k c)"
  using imap_wf_touched [of c k] by (auto simp only: lru_touch_def split: option.splits)

section \<open>Lists\<close>

text \<open>\<open>Iterator::find_map\<close>: the first \<^const>\<open>Some\<close>.\<close>

fun find_map :: "('a \<Rightarrow> 'b option) \<Rightarrow> 'a list \<Rightarrow> 'b option" where
  "find_map f [] = None"
| "find_map f (x # xs) = (case f x of None \<Rightarrow> find_map f xs | Some y \<Rightarrow> Some y)"

lemma find_map_SomeD: "find_map f xs = Some y \<Longrightarrow> \<exists>x \<in> set xs. f x = Some y"
  by (induction xs) (auto split: option.splits)

lemma find_map_None_iff: "find_map f xs = None \<longleftrightarrow> (\<forall>x \<in> set xs. f x = None)"
  by (induction xs) (auto split: option.splits)

lemma find_SomeD: "find P xs = Some x \<Longrightarrow> x \<in> set xs \<and> P x"
  by (induction xs) (auto split: if_splits)

lemma find_ex: "x \<in> set xs \<Longrightarrow> P x \<Longrightarrow> \<exists>y. find P xs = Some y"
  by (induction xs) auto

text \<open>A fold of steps is a sequence of steps.\<close>

lemma rtranclp_fold: "(\<And>x s. r\<^sup>*\<^sup>* s (f x s)) \<Longrightarrow> r\<^sup>*\<^sup>* s (fold f xs s)"
proof (induction xs arbitrary: s)
  case (Cons x xs)
  have "r\<^sup>*\<^sup>* s (f x s)" by (rule Cons.prems)
  also have "r\<^sup>*\<^sup>* (f x s) (fold f xs (f x s))" by (rule Cons.IH [OF Cons.prems])
  finally show ?case by simp
qed simp

end
