(* ===== verification/Narwhal.thy ===== *)
theory Narwhal
  imports Prelude
begin

text \<open>
  The vocabulary the node takes from snarkVM. None of it is defined under \<open>src/\<close>, so it
  appears here as plain data with exactly the observers the node calls, and what a
  snarkVM operation computes is a parameter: a field of a record that every definition
  using it receives. Identifiers (field elements, addresses, signatures, checksums) are
  opaque; the node only compares them, so they are natural numbers.
\<close>

type_synonym field = nat
type_synonym address = nat
type_synonym signature = nat
type_synonym solution_id = nat
type_synonym transaction_id = nat
type_synonym checksum = nat
type_synonym bytes = "nat list"

datatype transmission_id =
    RatificationID
  | SolutionID solution_id checksum
  | TransactionID transaction_id checksum

text \<open>\<open>Data<T>\<close> holds either a deserialised object or its bytes.\<close>

datatype 'a data = Object 'a | Buffer bytes

record solution =
  sol_id :: solution_id
  sol_body :: nat

datatype transaction_kind = Deploy | Execute | Fee

record transaction =
  tx_id :: transaction_id
  tx_kind :: transaction_kind
  tx_body :: nat

abbreviation tx_is_fee :: "transaction \<Rightarrow> bool" where
  "tx_is_fee t \<equiv> tx_kind t = Fee"

abbreviation tx_is_deploy :: "transaction \<Rightarrow> bool" where
  "tx_is_deploy t \<equiv> tx_kind t = Deploy"

datatype transmission =
    Ratification
  | Solution "solution data"
  | Transaction "transaction data"

text \<open>The accessors of a batch header and of a batch certificate.\<close>

record batch_header =
  bh_batch_id :: field
  bh_author :: address
  bh_round :: nat
  bh_timestamp :: int
  bh_committee_id :: field
  bh_transmission_ids :: "transmission_id list"
  bh_previous_certificate_ids :: "field list"
  bh_signature :: signature

record certificate =
  cert_id :: field
  cert_header :: batch_header
  cert_signatures :: "signature list"

abbreviation cert_round :: "certificate \<Rightarrow> nat" where
  "cert_round c \<equiv> bh_round (cert_header c)"

abbreviation cert_author :: "certificate \<Rightarrow> address" where
  "cert_author c \<equiv> bh_author (cert_header c)"

abbreviation cert_timestamp :: "certificate \<Rightarrow> int" where
  "cert_timestamp c \<equiv> bh_timestamp (cert_header c)"

abbreviation cert_transmission_ids :: "certificate \<Rightarrow> transmission_id list" where
  "cert_transmission_ids c \<equiv> bh_transmission_ids (cert_header c)"

abbreviation cert_previous_ids :: "certificate \<Rightarrow> field list" where
  "cert_previous_ids c \<equiv> bh_previous_certificate_ids (cert_header c)"

text \<open>
  A committee is known through its observers. The thresholds over a set of addresses are
  predicates of the committee; the properties that need it assume that a threshold,
  once reached, stays reached for a larger set.
\<close>

record committee =
  com_id :: field
  com_starting_round :: nat
  com_members :: "address list"
  com_stake :: "address \<Rightarrow> nat"
  com_quorum_threshold :: nat
  com_availability_threshold :: nat
  com_quorum_reached :: "address set \<Rightarrow> bool"
  com_availability_reached :: "address set \<Rightarrow> bool"

abbreviation com_is_member :: "committee \<Rightarrow> address \<Rightarrow> bool" where
  "com_is_member c a \<equiv> a \<in> set (com_members c)"

text \<open>The sub-DAG of a committed anchor, as the node builds it, and a block.\<close>

type_synonym subdag = "(nat, certificate list) imap"

datatype authority = Beacon signature | Quorum subdag

record block =
  blk_height :: nat
  blk_round :: nat
  blk_hash :: field
  blk_authority :: authority
  blk_solutions :: "(solution_id, solution) imap"
  blk_unconfirmed_transactions :: "(transaction_id, transaction) imap"
  blk_aborted_solution_ids :: "solution_id list"
  blk_aborted_transaction_ids :: "transaction_id list"

text \<open>
  Signatures and checksums. \<open>cr_sign\<close> is \<open>Account::sign\<close> on a batch ID, which may fail.
  \<open>cr_solution_checksum\<close>, \<open>cr_transaction_checksum\<close> and the two readers are the
  \<open>Data\<close> operations of snarkVM; each may fail.
\<close>

record crypto =
  cr_to_address :: "signature \<Rightarrow> address"
  cr_verify :: "signature \<Rightarrow> address \<Rightarrow> field \<Rightarrow> bool"
  cr_sign :: "address \<Rightarrow> field \<Rightarrow> signature option"
  cr_solution_checksum :: "solution data \<Rightarrow> checksum option"
  cr_transaction_checksum :: "transaction data \<Rightarrow> checksum option"
  cr_read_solution :: "solution data \<Rightarrow> solution option"
  cr_read_transaction :: "bytes \<Rightarrow> transaction option"

text \<open>
  The snarkVM ledger. Every observer that can fail returns an option, \<^const>\<open>None\<close> for
  the error.
\<close>

record snark_ledger =
  sl_latest_round :: nat
  sl_latest_height :: nat
  sl_latest_block :: block
  sl_get_block :: "nat \<Rightarrow> block option"
  sl_get_hash :: "nat \<Rightarrow> field option"
  sl_get_solution :: "solution_id \<Rightarrow> solution option"
  sl_get_unconfirmed_transaction :: "transaction_id \<Rightarrow> transaction option"
  sl_get_batch_certificate :: "field \<Rightarrow> certificate option option"
  sl_latest_committee :: "committee option"
  sl_get_committee_for_round :: "nat \<Rightarrow> committee option option"
  sl_contains_certificate :: "field \<Rightarrow> bool option"
  sl_contains_solution_id :: "solution_id \<Rightarrow> bool option"
  sl_contains_transaction_id :: "transaction_id \<Rightarrow> bool option"
  sl_check_solution :: "solution \<Rightarrow> bool"
  sl_check_transaction :: "transaction \<Rightarrow> bool"
  sl_deployment_cost :: "transaction \<Rightarrow> (nat \<times> nat) option"
  sl_execution_cost :: "transaction \<Rightarrow> nat option"

text \<open>Constants of the network and of snarkVM that the node reads.\<close>

record network =
  net_committee_lookback_range :: nat
  net_max_transmissions_per_batch :: nat
  net_batch_spend_limit :: nat
  net_max_committee_size :: nat
  net_max_solutions :: nat
  net_blocks_per_epoch :: nat

end
