(* ===== verification/Samples.thy ===== *)
theory Samples
  imports Narwhal
begin

text \<open>
  A small concrete network on which the properties are instantiated: a committee of four
  members with one unit of stake each (three make a quorum, two make a certificate
  available), certificates numbered by round and author, and a ledger that holds the
  genesis block.
\<close>

definition sample_network :: network where
  "sample_network =
     \<lparr>net_committee_lookback_range = 50, net_max_transmissions_per_batch = 50,
      net_batch_spend_limit = 1000, net_max_committee_size = 25, net_max_solutions = 4,
      net_blocks_per_epoch = 360\<rparr>"

text \<open>A signature is the address of its signer, and a checksum the length of the data.\<close>

definition sample_crypto :: crypto where
  "sample_crypto =
     \<lparr>cr_to_address = (\<lambda>s. s), cr_verify = (\<lambda>s a _. s = a), cr_sign = (\<lambda>a _. Some a),
      cr_solution_checksum = (\<lambda>_. Some 0), cr_transaction_checksum = (\<lambda>_. Some 0),
      cr_read_solution = (\<lambda>d. case d of Object x \<Rightarrow> Some x | Buffer _ \<Rightarrow> None),
      cr_read_transaction = (\<lambda>_. None)\<rparr>"

definition sample_committee :: committee where
  "sample_committee =
     \<lparr>com_id = 0, com_starting_round = 1, com_members = [1, 2, 3, 4], com_stake = (\<lambda>_. 1),
      com_quorum_threshold = 3, com_availability_threshold = 2,
      com_quorum_reached = (\<lambda>A. 3 \<le> length (filter (\<lambda>a. a \<in> A) [1, 2, 3, 4])),
      com_availability_reached = (\<lambda>A. 2 \<le> length (filter (\<lambda>a. a \<in> A) [1, 2, 3, 4]))\<rparr>"

definition sample_header :: "nat \<Rightarrow> address \<Rightarrow> transmission_id list \<Rightarrow> field list \<Rightarrow> batch_header" where
  "sample_header r a ts prev =
     \<lparr>bh_batch_id = 10 * r + a, bh_author = a, bh_round = r, bh_timestamp = int r, bh_committee_id = 0,
      bh_transmission_ids = ts, bh_previous_certificate_ids = prev, bh_signature = a\<rparr>"

definition sample_cert :: "nat \<Rightarrow> address \<Rightarrow> transmission_id list \<Rightarrow> field list \<Rightarrow> certificate" where
  "sample_cert r a ts prev =
     \<lparr>cert_id = 10 * r + a, cert_header = sample_header r a ts prev, cert_signatures = [1, 2, 3, 4]\<rparr>"

definition sample_transaction :: "nat \<Rightarrow> transaction" where
  "sample_transaction i = \<lparr>tx_id = i, tx_kind = Execute, tx_body = 0\<rparr>"

definition sample_block :: "nat \<Rightarrow> block" where
  "sample_block h =
     \<lparr>blk_height = h, blk_round = 2 * h, blk_hash = 1000 + h, blk_authority = Beacon 0,
      blk_solutions = [], blk_unconfirmed_transactions = [], blk_aborted_solution_ids = [],
      blk_aborted_transaction_ids = []\<rparr>"

definition sample_ledger :: snark_ledger where
  "sample_ledger =
     \<lparr>sl_latest_round = 0, sl_latest_height = 0, sl_latest_block = sample_block 0,
      sl_get_block = [0 \<mapsto> sample_block 0], sl_get_hash = [0 \<mapsto> 1000],
      sl_get_solution = (\<lambda>_. None), sl_get_unconfirmed_transaction = (\<lambda>_. None),
      sl_get_batch_certificate = (\<lambda>_. Some None), sl_latest_committee = Some sample_committee,
      sl_get_committee_for_round = (\<lambda>_. Some (Some sample_committee)),
      sl_contains_certificate = (\<lambda>_. Some False), sl_contains_solution_id = (\<lambda>_. Some False),
      sl_contains_transaction_id = (\<lambda>_. Some False),
      sl_check_solution = (\<lambda>_. True), sl_check_transaction = (\<lambda>_. True),
      sl_deployment_cost = (\<lambda>_. Some (1, 1)), sl_execution_cost = (\<lambda>_. Some 1)\<rparr>"

text \<open>Accepting a block records it at its height.\<close>

definition sample_advance :: "snark_ledger \<Rightarrow> block \<Rightarrow> snark_ledger option" where
  "sample_advance l b =
     (if blk_height b = Suc (sl_latest_height l)
      then Some (l\<lparr>sl_latest_height := blk_height b, sl_latest_round := blk_round b, sl_latest_block := b,
                   sl_get_block := (sl_get_block l)(blk_height b \<mapsto> b),
                   sl_get_hash := (sl_get_hash l)(blk_height b \<mapsto> blk_hash b)\<rparr>)
      else None)"

lemmas sample_defs = sample_network_def sample_crypto_def sample_committee_def sample_header_def
  sample_cert_def sample_transaction_def sample_block_def sample_ledger_def sample_advance_def

end
