(* ===== verification/LedgerService.thy ===== *)
theory LedgerService
  imports Samples
begin

text \<open>
  The core ledger service (\<open>node/bft/ledger-service/src/ledger.rs\<close>): the view of the
  snarkVM ledger that storage, BFT, primary and consensus share. Its own state is a cache
  of the highest blocks, the cached leader and the shutdown flag; the snarkVM ledger is a
  value of \<^typ>\<open>snark_ledger\<close>. The lemmas show how committees are looked back, that the
  block cache is bounded, keeps the highest blocks and never disagrees with the ledger,
  and what a well-formed transmission is.
\<close>

section \<open>State\<close>

definition BLOCK_CACHE_SIZE :: nat where
  "BLOCK_CACHE_SIZE = 10"

record core_ledger =
  cl_ledger :: snark_ledger
  cl_block_cache :: "(nat, block) imap"
  cl_latest_leader :: "(nat \<times> address) option"
  cl_shutdown :: bool

datatype ledger_error =
    LedgerFailure
  | NoBatchCertificate
  | NoCommittee
  | RatificationNotSupported
  | DeserializeFailed
  | MismatchingId
  | MismatchingChecksum
  | FeeTransaction
  | MismatchingPair
  | InvalidSolution
  | InvalidTransaction
  | CostOverflow
  | ShuttingDown

definition core_ledger_new :: "snark_ledger \<Rightarrow> bool \<Rightarrow> core_ledger" where
  "core_ledger_new l shutdown =
     \<lparr>cl_ledger = l, cl_block_cache = [], cl_latest_leader = None, cl_shutdown = shutdown\<rparr>"

section \<open>Queries\<close>

definition latest_round :: "core_ledger \<Rightarrow> nat" where
  "latest_round s = sl_latest_round (cl_ledger s)"

definition latest_block_height :: "core_ledger \<Rightarrow> nat" where
  "latest_block_height s = sl_latest_height (cl_ledger s)"

definition latest_block :: "core_ledger \<Rightarrow> block" where
  "latest_block s = sl_latest_block (cl_ledger s)"

definition latest_leader :: "core_ledger \<Rightarrow> (nat \<times> address) option" where
  "latest_leader s = cl_latest_leader s"

definition update_latest_leader :: "core_ledger \<Rightarrow> nat \<Rightarrow> address \<Rightarrow> core_ledger" where
  "update_latest_leader s round leader = s\<lparr>cl_latest_leader := Some (round, leader)\<rparr>"

definition get_block_hash :: "core_ledger \<Rightarrow> nat \<Rightarrow> (ledger_error, field) result" where
  "get_block_hash s h = ok_or LedgerFailure (sl_get_hash (cl_ledger s) h)"

definition get_block_round :: "core_ledger \<Rightarrow> nat \<Rightarrow> (ledger_error, nat) result" where
  "get_block_round s h = ok_or LedgerFailure (map_option blk_round (sl_get_block (cl_ledger s) h))"

text \<open>The cache is read with \<open>try_read\<close>; \<open>free\<close> says whether the lock was available.\<close>

definition get_block :: "bool \<Rightarrow> core_ledger \<Rightarrow> nat \<Rightarrow> (ledger_error, block) result" where
  "get_block free s h =
     (case (if free then imap_get (cl_block_cache s) h else None) of
        Some b \<Rightarrow> Inr b
      | None \<Rightarrow> ok_or LedgerFailure (sl_get_block (cl_ledger s) h))"

fun collect_blocks :: "(nat \<Rightarrow> (ledger_error, block) result) \<Rightarrow> nat list \<Rightarrow> (ledger_error, block list) result" where
  "collect_blocks f [] = Inr []"
| "collect_blocks f (h # hs) = rbind (f h) (\<lambda>b. rbind (collect_blocks f hs) (\<lambda>bs. Inr (b # bs)))"

definition get_blocks :: "bool \<Rightarrow> core_ledger \<Rightarrow> nat \<Rightarrow> nat \<Rightarrow> (ledger_error, block list) result" where
  "get_blocks free s lo hi = collect_blocks (get_block free s) [lo..<hi]"

definition get_solution :: "core_ledger \<Rightarrow> solution_id \<Rightarrow> (ledger_error, solution) result" where
  "get_solution s i = ok_or LedgerFailure (sl_get_solution (cl_ledger s) i)"

definition get_unconfirmed_transaction ::
  "core_ledger \<Rightarrow> transaction_id \<Rightarrow> (ledger_error, transaction) result" where
  "get_unconfirmed_transaction s i = ok_or LedgerFailure (sl_get_unconfirmed_transaction (cl_ledger s) i)"

definition get_batch_certificate :: "core_ledger \<Rightarrow> field \<Rightarrow> (ledger_error, certificate) result" where
  "get_batch_certificate s i =
     (case sl_get_batch_certificate (cl_ledger s) i of
        Some (Some c) \<Rightarrow> Inr c
      | Some None \<Rightarrow> Inl NoBatchCertificate
      | None \<Rightarrow> Inl LedgerFailure)"

definition current_committee :: "core_ledger \<Rightarrow> (ledger_error, committee) result" where
  "current_committee s = ok_or LedgerFailure (sl_latest_committee (cl_ledger s))"

definition get_committee_for_round :: "core_ledger \<Rightarrow> nat \<Rightarrow> (ledger_error, committee) result" where
  "get_committee_for_round s round =
     (case sl_get_committee_for_round (cl_ledger s) round of
        None \<Rightarrow> Inl LedgerFailure
      | Some None \<Rightarrow> Inl NoCommittee
      | Some (Some c) \<Rightarrow> Inr c)"

definition committee_lookback_round :: "network \<Rightarrow> nat \<Rightarrow> nat" where
  "committee_lookback_round N round =
     (let previous_round = (if round mod 2 = 0 then round - 1 else round - 2)
      in previous_round - net_committee_lookback_range N)"

definition get_committee_lookback_for_round ::
  "network \<Rightarrow> core_ledger \<Rightarrow> nat \<Rightarrow> (ledger_error, committee) result" where
  "get_committee_lookback_for_round N s round =
     get_committee_for_round s (committee_lookback_round N round)"

definition ledger_contains_certificate :: "core_ledger \<Rightarrow> field \<Rightarrow> (ledger_error, bool) result" where
  "ledger_contains_certificate s i = ok_or LedgerFailure (sl_contains_certificate (cl_ledger s) i)"

fun ledger_contains_transmission :: "core_ledger \<Rightarrow> transmission_id \<Rightarrow> (ledger_error, bool) result" where
  "ledger_contains_transmission s RatificationID = Inr False"
| "ledger_contains_transmission s (SolutionID i _) =
     ok_or LedgerFailure (sl_contains_solution_id (cl_ledger s) i)"
| "ledger_contains_transmission s (TransactionID i _) =
     ok_or LedgerFailure (sl_contains_transaction_id (cl_ledger s) i)"

definition unwrap_or :: "'a \<Rightarrow> ('e, 'a) result \<Rightarrow> 'a" where
  "unwrap_or d r = (case r of Inl _ \<Rightarrow> d | Inr x \<Rightarrow> x)"

section \<open>Checks\<close>

fun read_transaction :: "crypto \<Rightarrow> transaction data \<Rightarrow> transaction option" where
  "read_transaction K (Object t) = Some t"
| "read_transaction K (Buffer b) = cr_read_transaction K b"

fun ensure_transmission_is_well_formed ::
  "crypto \<Rightarrow> transmission_id \<Rightarrow> transmission \<Rightarrow> (ledger_error, transmission) result" where
  "ensure_transmission_is_well_formed K RatificationID Ratification = Inl RatificationNotSupported"
| "ensure_transmission_is_well_formed K (TransactionID i ck) (Transaction d) =
     (case read_transaction K d of
        None \<Rightarrow> Inl DeserializeFailed
      | Some t \<Rightarrow>
          if tx_id t \<noteq> i then Inl MismatchingId
          else (case cr_transaction_checksum K d of
             None \<Rightarrow> Inl DeserializeFailed
           | Some ck' \<Rightarrow>
               if ck' \<noteq> ck then Inl MismatchingChecksum
               else if tx_is_fee t then Inl FeeTransaction
               else Inr (Transaction (Object t))))"
| "ensure_transmission_is_well_formed K (SolutionID i ck) (Solution d) =
     (case cr_read_solution K d of
        None \<Rightarrow> Inl DeserializeFailed
      | Some x \<Rightarrow>
          if sol_id x \<noteq> i then Inl MismatchingId
          else (case cr_solution_checksum K d of
             None \<Rightarrow> Inl DeserializeFailed
           | Some ck' \<Rightarrow>
               if ck' \<noteq> ck then Inl MismatchingChecksum
               else Inr (Solution (Object x))))"
| "ensure_transmission_is_well_formed K _ _ = Inl MismatchingPair"

definition check_solution_basic ::
  "crypto \<Rightarrow> core_ledger \<Rightarrow> solution_id \<Rightarrow> solution data \<Rightarrow> (ledger_error, unit) result" where
  "check_solution_basic K s i d =
     (case cr_read_solution K d of
        None \<Rightarrow> Inl DeserializeFailed
      | Some x \<Rightarrow>
          if i \<noteq> sol_id x then Inl MismatchingId
          else if sl_check_solution (cl_ledger s) x then Inr () else Inl InvalidSolution)"

definition check_transaction_basic ::
  "core_ledger \<Rightarrow> transaction_id \<Rightarrow> transaction \<Rightarrow> (ledger_error, unit) result" where
  "check_transaction_basic s i t =
     (if i \<noteq> tx_id t then Inl MismatchingId
      else if tx_is_fee t then Inl FeeTransaction
      else if sl_check_transaction (cl_ledger s) t then Inr () else Inl InvalidTransaction)"

definition transaction_spent_cost ::
  "core_ledger \<Rightarrow> transaction_id \<Rightarrow> transaction \<Rightarrow> (ledger_error, nat) result" where
  "transaction_spent_cost s i t =
     (case tx_kind t of
        Deploy \<Rightarrow>
          (case sl_deployment_cost (cl_ledger s) t of
             None \<Rightarrow> Inl LedgerFailure
           | Some (storage_cost, synthesis_cost) \<Rightarrow>
               ok_or CostOverflow (u64_checked_add storage_cost synthesis_cost))
      | Execute \<Rightarrow> ok_or LedgerFailure (sl_execution_cost (cl_ledger s) t)
      | Fee \<Rightarrow> Inr 0)"

section \<open>Advancing the ledger\<close>

text \<open>\<open>advance\<close> is \<open>Ledger::advance_to_next_block\<close> of snarkVM.\<close>

definition cache_block :: "block \<Rightarrow> (nat, block) imap \<Rightarrow> (nat, block) imap" where
  "cache_block b cache =
     (let cache' = btree_insert (blk_height b) b cache
      in if length cache' > BLOCK_CACHE_SIZE then tl cache' else cache')"

definition advance_to_next_block ::
  "(snark_ledger \<Rightarrow> block \<Rightarrow> snark_ledger option) \<Rightarrow> core_ledger \<Rightarrow> block \<Rightarrow>
   (ledger_error, core_ledger) result" where
  "advance_to_next_block advance s b =
     (if cl_shutdown s then Inl ShuttingDown
      else (case advance (cl_ledger s) b of
        None \<Rightarrow> Inl LedgerFailure
      | Some l \<Rightarrow> Inr (s\<lparr>cl_ledger := l, cl_block_cache := cache_block b (cl_block_cache s)\<rparr>)))"

section \<open>Invariant of the block cache\<close>

definition cache_wf :: "core_ledger \<Rightarrow> bool" where
  "cache_wf s \<longleftrightarrow> btree_wf (cl_block_cache s) \<and> length (cl_block_cache s) \<le> BLOCK_CACHE_SIZE \<and>
     (\<forall>(h, b) \<in> set (cl_block_cache s). sl_get_block (cl_ledger s) h = Some b)"

text \<open>What snarkVM documents of an accepted block: it is the one read back at its height, and
  the other heights are untouched.\<close>

definition advance_reads_back :: "(snark_ledger \<Rightarrow> block \<Rightarrow> snark_ledger option) \<Rightarrow> bool" where
  "advance_reads_back advance \<longleftrightarrow>
     (\<forall>l b l'. advance l b = Some l' \<longrightarrow>
        sl_get_block l' = (sl_get_block l)(blk_height b \<mapsto> b))"

lemma set_btree_insert:
  "btree_wf m \<Longrightarrow> set (btree_insert k v m) = insert (k, v) {p \<in> set m. fst p \<noteq> k}"
  by (induction k v m rule: btree_insert.induct) auto

lemma length_btree_insert: "length (btree_insert k v m) \<le> Suc (length m)"
  by (induction k v m rule: btree_insert.induct) auto

lemma btree_wf_tl: "btree_wf m \<Longrightarrow> btree_wf (tl m)"
  by (cases m) auto

lemma cache_block_subset: "set (cache_block b m) \<subseteq> set (btree_insert (blk_height b) b m)"
  by (auto simp: cache_block_def Let_def dest: list.set_sel(2) [rotated])

lemma cache_block_wf:
  assumes "btree_wf m" "length m \<le> BLOCK_CACHE_SIZE"
  shows "btree_wf (cache_block b m) \<and> length (cache_block b m) \<le> BLOCK_CACHE_SIZE"
proof -
  have "length (btree_insert (blk_height b) b m) \<le> Suc BLOCK_CACHE_SIZE"
    using assms(2) length_btree_insert [of "blk_height b" b m] by simp
  then show ?thesis
    using assms(1) btree_wf_tl [OF btree_wf_insert [OF assms(1)]]
    by (auto simp: cache_block_def Let_def)
qed

lemma cache_wf_advance:
  assumes adv: "advance_reads_back advance" and wf: "cache_wf s"
    and ok: "advance_to_next_block advance s b = Inr s'"
  shows "cache_wf s'"
proof -
  from ok obtain l where l: "advance (cl_ledger s) b = Some l"
    and s': "s' = s\<lparr>cl_ledger := l, cl_block_cache := cache_block b (cl_block_cache s)\<rparr>"
    by (auto simp: advance_to_next_block_def split: if_splits option.splits)
  have read: "sl_get_block l = (sl_get_block (cl_ledger s))(blk_height b \<mapsto> b)"
    using adv l by (simp add: advance_reads_back_def)
  have srt: "btree_wf (cl_block_cache s)" and len: "length (cl_block_cache s) \<le> BLOCK_CACHE_SIZE"
    and old: "\<And>h x. (h, x) \<in> set (cl_block_cache s) \<Longrightarrow> sl_get_block (cl_ledger s) h = Some x"
    using wf by (auto simp: cache_wf_def)
  have "sl_get_block l h = Some x" if "(h, x) \<in> set (cache_block b (cl_block_cache s))" for h x
    using that cache_block_subset [of b "cl_block_cache s"] old
    by (auto simp: read set_btree_insert [OF srt])
  then show ?thesis
    using cache_block_wf [OF srt len] by (auto simp: cache_wf_def s')
qed

lemma cache_wf_new: "cache_wf (core_ledger_new l b)"
  by (simp add: cache_wf_def core_ledger_new_def)

lemma cache_wf_get_block:
  "cache_wf s \<Longrightarrow> get_block free s h = ok_or LedgerFailure (sl_get_block (cl_ledger s) h)"
  by (auto simp: cache_wf_def get_block_def split: option.splits dest!: map_of_SomeD)

section \<open>Committee lookback\<close>

lemma committee_lookback_round_pair:
  "even r \<Longrightarrow> committee_lookback_round N (Suc r) = committee_lookback_round N r"
  by (auto simp: committee_lookback_round_def Let_def even_iff_mod_2_eq_zero mod_Suc)

lemma committee_lookback_round_less: "0 < r \<Longrightarrow> committee_lookback_round N r < r"
  by (auto simp: committee_lookback_round_def Let_def)

lemma committee_lookback_round_mono:
  assumes "r \<le> q"
  shows "committee_lookback_round N r \<le> committee_lookback_round N q"
proof -
  have "(if r mod 2 = 0 then r - 1 else r - 2) \<le> (if q mod 2 = 0 then q - 1 else q - 2)"
  proof (cases "r = q")
    case False
    with assms have "r < q" by simp
    then show ?thesis by presburger
  qed simp
  then show ?thesis
    by (simp add: committee_lookback_round_def Let_def diff_le_mono)
qed

section \<open>Properties\<close>

text \<open>The two rounds of a wave share one committee: looking the committee back from an
  odd round reads the same ledger round as from the even round just before it, so quorum and
  availability are judged by the same members.\<close>

theorem committee_lookback_wave:
  "get_committee_lookback_for_round N s (2 * k + 1) = get_committee_lookback_for_round N s (2 * k)"
  using committee_lookback_round_pair [of "2 * k" N]
  by (simp add: get_committee_lookback_for_round_def)

text \<open>After a block is accepted, reading any height through the block cache, whether or
  not the cache lock was free, gives the accepted block at its own height and what the ledger
  gave before at every other height. The cache never serves a stale block.\<close>

theorem advance_then_get_block:
  assumes "advance_reads_back advance" "cache_wf s" "advance_to_next_block advance s b = Inr s'"
  shows "get_block free s' h =
    (if h = blk_height b then Inr b else ok_or LedgerFailure (sl_get_block (cl_ledger s) h))"
proof -
  from assms(3) obtain l where l: "advance (cl_ledger s) b = Some l" "cl_ledger s' = l"
    by (auto simp: advance_to_next_block_def split: if_splits option.splits)
  then have "sl_get_block l = (sl_get_block (cl_ledger s))(blk_height b \<mapsto> b)"
    using assms(1) by (simp add: advance_reads_back_def)
  then show ?thesis
    using cache_wf_get_block [OF cache_wf_advance [OF assms]] l by simp
qed

theorem advance_then_get_block_witness:
  "get_block True (core_ledger_new sample_ledger False
      \<lparr>cl_ledger := the (sample_advance sample_ledger (sample_block 1)),
       cl_block_cache := [(1, sample_block 1)]\<rparr>) 1 = Inr (sample_block 1)"
proof -
  let ?s = "core_ledger_new sample_ledger False"
  have adv: "advance_reads_back sample_advance"
    by (simp add: advance_reads_back_def sample_advance_def split: if_splits)
  have ok: "advance_to_next_block sample_advance ?s (sample_block 1) =
      Inr (?s\<lparr>cl_ledger := the (sample_advance sample_ledger (sample_block 1)),
              cl_block_cache := [(1, sample_block 1)]\<rparr>)"
    by (simp add: advance_to_next_block_def core_ledger_new_def cache_block_def BLOCK_CACHE_SIZE_def
        sample_advance_def sample_ledger_def sample_block_def)
  show ?thesis
    using advance_then_get_block [OF adv cache_wf_new ok, of True 1] by (simp add: sample_block_def)
qed

text \<open>A transmission passes the well-formedness check exactly when it is a transaction or a
  solution whose own identifier and checksum are the announced ones and, for a transaction, it
  is not a fee; the accepted value is the deserialised object. Ratifications never pass.\<close>

theorem well_formed_transmission_iff:
  "ensure_transmission_is_well_formed K i t = Inr t' \<longleftrightarrow>
     (\<exists>ck d x. i = TransactionID (tx_id x) ck \<and> t = Transaction d \<and> read_transaction K d = Some x \<and>
        cr_transaction_checksum K d = Some ck \<and> \<not> tx_is_fee x \<and> t' = Transaction (Object x)) \<or>
     (\<exists>ck d x. i = SolutionID (sol_id x) ck \<and> t = Solution d \<and> cr_read_solution K d = Some x \<and>
        cr_solution_checksum K d = Some ck \<and> t' = Solution (Object x))"
  by (cases "(K, i, t)" rule: ensure_transmission_is_well_formed.cases)
    (auto split: option.splits if_splits)

end
