(* ===== verification/StorageService.thy ===== *)
theory StorageService
  imports Samples
begin

text \<open>
  The \<open>StorageService\<close> trait (\<open>node/bft/storage-service/src/traits.rs\<close>). Storage holds a
  trait object; the model passes the table of its operations, a \<open>storage_service\<close> record,
  next to the state it works on. The locale states the contract that storage relies on:
  each operation acts on an abstract pair of maps, from a transmission ID to the
  transmission with the certificates that include it, and from an aborted transmission
  ID to the certificates that include it. Both implementations interpret the locale.
\<close>

type_synonym transmissions = "(transmission_id, transmission) imap"

datatype service_error = FailedToProvideTransmission

record 'ts storage_service =
  ss_contains :: "'ts \<Rightarrow> transmission_id \<Rightarrow> bool"
  ss_get :: "'ts \<Rightarrow> transmission_id \<Rightarrow> transmission option \<times> 'ts"
  ss_find_missing :: "'ts \<Rightarrow> batch_header \<Rightarrow> transmissions \<Rightarrow> transmission_id list \<Rightarrow>
    (service_error, transmissions) result"
  ss_insert :: "'ts \<Rightarrow> field \<Rightarrow> transmission_id list \<Rightarrow> transmission_id list \<Rightarrow> transmissions \<Rightarrow> 'ts"
  ss_remove :: "'ts \<Rightarrow> field \<Rightarrow> transmission_id list \<Rightarrow> 'ts"

text \<open>The abstract effect of the operations on one key of the two maps.\<close>

definition spec_insert_known ::
  "field \<Rightarrow> transmission option \<Rightarrow> (transmission \<times> field set) option \<Rightarrow> (transmission \<times> field set) option" where
  "spec_insert_known cid given old =
     (case old of
        Some (x, cs) \<Rightarrow> Some (x, insert cid cs)
      | None \<Rightarrow> map_option (\<lambda>x. (x, {cid})) given)"

definition spec_remove_known ::
  "field \<Rightarrow> (transmission \<times> field set) option \<Rightarrow> (transmission \<times> field set) option" where
  "spec_remove_known cid old =
     (case old of None \<Rightarrow> None | Some (x, cs) \<Rightarrow> if cs - {cid} = {} then None else Some (x, cs - {cid}))"

definition spec_insert_aborted :: "field \<Rightarrow> field set option \<Rightarrow> field set option" where
  "spec_insert_aborted cid old = Some (insert cid (case old of None \<Rightarrow> {} | Some cs \<Rightarrow> cs))"

definition spec_remove_aborted :: "field \<Rightarrow> field set option \<Rightarrow> field set option" where
  "spec_remove_aborted cid old =
     (case old of None \<Rightarrow> None | Some cs \<Rightarrow> if cs - {cid} = {} then None else Some (cs - {cid}))"

lemmas spec_effects = spec_insert_known_def spec_remove_known_def
  spec_insert_aborted_def spec_remove_aborted_def

locale storage_service =
  fixes V :: "'ts storage_service"
    and known :: "'ts \<Rightarrow> transmission_id \<Rightarrow> (transmission \<times> field set) option"
    and aborted :: "'ts \<Rightarrow> transmission_id \<Rightarrow> field set option"
    and invar :: "'ts \<Rightarrow> bool"
  assumes contains_iff: "invar s \<Longrightarrow> ss_contains V s t \<longleftrightarrow> known s t \<noteq> None \<or> aborted s t \<noteq> None"
    and get_known: "invar s \<Longrightarrow> known s t = Some (x, cs) \<Longrightarrow> fst (ss_get V s t) = Some x"
    and get_frame: "invar s \<Longrightarrow> invar (snd (ss_get V s t)) \<and>
       known (snd (ss_get V s t)) = known s \<and> aborted (snd (ss_get V s t)) = aborted s"
    and find_missing_covers: "invar s \<Longrightarrow> ss_find_missing V s h given ab = Inr m \<Longrightarrow>
       t \<in> set (bh_transmission_ids h) \<Longrightarrow>
       ss_contains V s t \<or> map_of m t \<noteq> None \<or> t \<in> set ab"
    and find_missing_given: "invar s \<Longrightarrow> ss_find_missing V s h given ab = Inr m \<Longrightarrow>
       map_of m t = Some x \<Longrightarrow> map_of given t = Some x \<and> t \<in> set (bh_transmission_ids h)"
    and find_missing_ok: "invar s \<Longrightarrow> distinct (bh_transmission_ids h) \<Longrightarrow>
       (\<And>t. t \<in> set (bh_transmission_ids h) \<Longrightarrow> map_of given t \<noteq> None \<or> t \<in> set ab) \<Longrightarrow>
       \<exists>m. ss_find_missing V s h given ab = Inr m"
    and insert_known: "invar s \<Longrightarrow> known (ss_insert V s cid ids ab m) t =
       (if t \<in> set ids then spec_insert_known cid (map_of m t) (known s t) else known s t)"
    and insert_aborted: "invar s \<Longrightarrow> aborted (ss_insert V s cid ids ab m) t =
       (if t \<in> set ab then spec_insert_aborted cid (aborted s t) else aborted s t)"
    and remove_known: "invar s \<Longrightarrow> known (ss_remove V s cid ids) t =
       (if t \<in> set ids then spec_remove_known cid (known s t) else known s t)"
    and remove_aborted: "invar s \<Longrightarrow> aborted (ss_remove V s cid ids) t =
       (if t \<in> set ids then spec_remove_aborted cid (aborted s t) else aborted s t)"
    and invar_insert: "invar s \<Longrightarrow> invar (ss_insert V s cid ids ab m)"
    and invar_remove: "invar s \<Longrightarrow> invar (ss_remove V s cid ids)"
begin

lemma insert_contains:
  assumes "invar s" "ss_contains V s t \<or> map_of m t \<noteq> None \<and> t \<in> set ids \<or> t \<in> set ab"
  shows "ss_contains V (ss_insert V s cid ids ab m) t"
  using assms
  by (auto simp: contains_iff invar_insert insert_known insert_aborted spec_effects split: option.splits)

text \<open>Removing a certificate right after it was inserted leaves every other reference as it was.\<close>

lemma insert_remove_known:
  assumes "invar s" "\<And>x cs. known s t = Some (x, cs) \<Longrightarrow> cid \<notin> cs \<and> cs \<noteq> {}"
  shows "known (ss_remove V (ss_insert V s cid ids ab m) cid ids) t = known s t"
  using assms
  by (auto simp: remove_known invar_insert insert_known spec_effects split: option.splits)

end

text \<open>
  A service is strict when an ID it does not ask for again is stored with its transmission;
  an entry in the map of aborted transmissions is not enough.
\<close>

locale strict_storage_service = storage_service +
  assumes find_missing_strict: "invar s \<Longrightarrow> ss_find_missing V s h given ab = Inr m \<Longrightarrow>
       t \<in> set (bh_transmission_ids h) \<Longrightarrow>
       known s t \<noteq> None \<or> map_of m t \<noteq> None \<or> t \<in> set ab"

end
