(* ===== verification/MemoryService.thy ===== *)
theory MemoryService
  imports StorageService
begin

text \<open>
  The in-memory storage service (\<open>node/bft/storage-service/src/memory.rs\<close>): two
  insertion-ordered maps behind locks. The section at the end interprets the service
  contract on it and shows that the branch of \<open>insert_transmissions\<close> that reads the
  locked map again cannot be reached after \<open>find_missing_transmissions\<close>.
\<close>

type_synonym known_map = "(transmission_id, transmission \<times> field list) imap"
type_synonym aborted_map = "(transmission_id, field list) imap"

record memory_service =
  ms_transmissions :: known_map
  ms_aborted :: aborted_map

definition mem_new :: memory_service where
  "mem_new = \<lparr>ms_transmissions = [], ms_aborted = []\<rparr>"

definition mem_contains_transmission :: "memory_service \<Rightarrow> transmission_id \<Rightarrow> bool" where
  "mem_contains_transmission s t \<longleftrightarrow>
     imap_contains_key t (ms_transmissions s) \<or> imap_contains_key t (ms_aborted s)"

definition mem_get_transmission :: "memory_service \<Rightarrow> transmission_id \<Rightarrow> transmission option" where
  "mem_get_transmission s t = map_option fst (imap_get (ms_transmissions s) t)"

text \<open>The loop of \<open>find_missing_transmissions\<close>; \<open>known\<close> decides which IDs are already there.\<close>

fun find_missing_loop ::
  "(transmission_id \<Rightarrow> bool) \<Rightarrow> transmission_id list \<Rightarrow> transmission_id list \<Rightarrow> transmissions \<Rightarrow>
   transmissions \<Rightarrow> (service_error, transmissions) result" where
  "find_missing_loop known ab [] given missing = Inr missing"
| "find_missing_loop known ab (t # ts) given missing =
     (if known t then find_missing_loop known ab ts given missing
      else (case imap_get given t of
         Some x \<Rightarrow> find_missing_loop known ab ts (imap_shift_remove t given) (imap_insert t x missing)
       | None \<Rightarrow> if t \<notin> set ab then Inl FailedToProvideTransmission
                else find_missing_loop known ab ts given missing))"

definition mem_find_missing ::
  "memory_service \<Rightarrow> batch_header \<Rightarrow> transmissions \<Rightarrow> transmission_id list \<Rightarrow>
   (service_error, transmissions) result" where
  "mem_find_missing s h given ab =
     find_missing_loop (\<lambda>t. imap_contains_key t (ms_transmissions s)) ab (bh_transmission_ids h) given []"

fun mem_insert_known :: "field \<Rightarrow> transmission_id list \<Rightarrow> transmissions \<Rightarrow> known_map \<Rightarrow> known_map" where
  "mem_insert_known cid [] missing T = T"
| "mem_insert_known cid (t # ts) missing T =
     (case imap_get T t of
        Some (x, cs) \<Rightarrow> mem_insert_known cid ts missing (imap_insert t (x, iset_insert cid cs) T)
      | None \<Rightarrow>
          (case imap_get missing t of
             None \<Rightarrow> mem_insert_known cid ts missing T
           | Some x \<Rightarrow> mem_insert_known cid ts (imap_shift_remove t missing) (imap_insert t (x, [cid]) T)))"

fun mem_insert_aborted :: "field \<Rightarrow> transmission_id list \<Rightarrow> aborted_map \<Rightarrow> aborted_map" where
  "mem_insert_aborted cid [] A = A"
| "mem_insert_aborted cid (t # ts) A =
     (case imap_get A t of
        Some cs \<Rightarrow> mem_insert_aborted cid ts (imap_insert t (iset_insert cid cs) A)
      | None \<Rightarrow> mem_insert_aborted cid ts (imap_insert t [cid] A))"

definition mem_insert_transmissions ::
  "memory_service \<Rightarrow> field \<Rightarrow> transmission_id list \<Rightarrow> transmission_id list \<Rightarrow> transmissions \<Rightarrow> memory_service" where
  "mem_insert_transmissions s cid ids ab missing =
     s\<lparr>ms_transmissions := mem_insert_known cid ids missing (ms_transmissions s),
       ms_aborted := mem_insert_aborted cid ab (ms_aborted s)\<rparr>"

text \<open>
  Whether \<open>insert_transmissions\<close> evaluates \<open>self.contains_transmission\<close>, which takes the
  read lock of the map whose write lock the call already holds: for an ID that is neither
  stored, provided nor listed as aborted.
\<close>

fun mem_insert_rereads :: "transmission_id list \<Rightarrow> transmission_id list \<Rightarrow> transmissions \<Rightarrow> known_map \<Rightarrow> bool" where
  "mem_insert_rereads ab [] missing T = False"
| "mem_insert_rereads ab (t # ts) missing T =
     (case imap_get T t of
        Some _ \<Rightarrow> mem_insert_rereads ab ts missing T
      | None \<Rightarrow>
          (case imap_get missing t of
             None \<Rightarrow> t \<notin> set ab \<or> mem_insert_rereads ab ts missing T
           | Some x \<Rightarrow> mem_insert_rereads ab ts (imap_shift_remove t missing) (imap_insert t (x, []) T)))"

definition drop_known :: "field \<Rightarrow> transmission_id \<Rightarrow> known_map \<Rightarrow> known_map" where
  "drop_known cid t T =
     (case imap_get T t of
        None \<Rightarrow> T
      | Some (x, cs) \<Rightarrow>
          (let cs' = iset_swap_remove cid cs
           in if cs' = [] then imap_shift_remove t T else imap_insert t (x, cs') T))"

definition drop_aborted :: "field \<Rightarrow> transmission_id \<Rightarrow> aborted_map \<Rightarrow> aborted_map" where
  "drop_aborted cid t A =
     (case imap_get A t of
        None \<Rightarrow> A
      | Some cs \<Rightarrow>
          (let cs' = iset_swap_remove cid cs
           in if cs' = [] then imap_shift_remove t A else imap_insert t cs' A))"

fun mem_remove_transmissions :: "memory_service \<Rightarrow> field \<Rightarrow> transmission_id list \<Rightarrow> memory_service" where
  "mem_remove_transmissions s cid [] = s"
| "mem_remove_transmissions s cid (t # ts) =
     mem_remove_transmissions
       (s\<lparr>ms_transmissions := drop_known cid t (ms_transmissions s),
          ms_aborted := drop_aborted cid t (ms_aborted s)\<rparr>) cid ts"

definition memory_vtable :: "memory_service storage_service" where
  "memory_vtable =
     \<lparr>ss_contains = mem_contains_transmission,
      ss_get = (\<lambda>s t. (mem_get_transmission s t, s)),
      ss_find_missing = mem_find_missing,
      ss_insert = mem_insert_transmissions,
      ss_remove = mem_remove_transmissions\<rparr>"

section \<open>Abstraction and invariant\<close>

definition known_wf :: "known_map \<Rightarrow> bool" where
  "known_wf T \<longleftrightarrow> imap_wf T \<and> (\<forall>t x cs. map_of T t = Some (x, cs) \<longrightarrow> distinct cs \<and> cs \<noteq> [])"

definition aborted_wf :: "aborted_map \<Rightarrow> bool" where
  "aborted_wf A \<longleftrightarrow> imap_wf A \<and> (\<forall>t cs. map_of A t = Some cs \<longrightarrow> distinct cs \<and> cs \<noteq> [])"

definition known_abs :: "known_map \<Rightarrow> transmission_id \<Rightarrow> (transmission \<times> field set) option" where
  "known_abs T t = map_option (\<lambda>(x, cs). (x, set cs)) (map_of T t)"

definition aborted_abs :: "aborted_map \<Rightarrow> transmission_id \<Rightarrow> field set option" where
  "aborted_abs A t = map_option set (map_of A t)"

definition mem_invar :: "memory_service \<Rightarrow> bool" where
  "mem_invar s \<longleftrightarrow> known_wf (ms_transmissions s) \<and> aborted_wf (ms_aborted s)"

lemma known_abs_lookup:
  "map_of T t = None \<Longrightarrow> known_abs T t = None"
  "map_of T t = Some (x, cs) \<Longrightarrow> known_abs T t = Some (x, set cs)"
  by (simp_all add: known_abs_def)

lemma aborted_abs_lookup:
  "map_of A t = None \<Longrightarrow> aborted_abs A t = None"
  "map_of A t = Some cs \<Longrightarrow> aborted_abs A t = Some (set cs)"
  by (simp_all add: aborted_abs_def)

lemma known_abs_change [simp]:
  "known_abs (AList.update t (x, cs) T) = (known_abs T)(t \<mapsto> (x, set cs))"
  "known_abs (AList.delete t T) = (known_abs T)(t := None)"
  by (auto simp: known_abs_def fun_eq_iff)

lemma aborted_abs_change [simp]:
  "aborted_abs (AList.update t cs A) = (aborted_abs A)(t \<mapsto> set cs)"
  "aborted_abs (AList.delete t A) = (aborted_abs A)(t := None)"
  by (auto simp: aborted_abs_def fun_eq_iff)

lemma known_wf_change [simp]:
  "known_wf T \<Longrightarrow> distinct cs \<Longrightarrow> cs \<noteq> [] \<Longrightarrow> known_wf (AList.update t (x, cs) T)"
  "known_wf T \<Longrightarrow> known_wf (AList.delete t T)"
  by (auto simp: known_wf_def distinct_delete)

lemma aborted_wf_change [simp]:
  "aborted_wf A \<Longrightarrow> distinct cs \<Longrightarrow> cs \<noteq> [] \<Longrightarrow> aborted_wf (AList.update t cs A)"
  "aborted_wf A \<Longrightarrow> aborted_wf (AList.delete t A)"
  by (auto simp: aborted_wf_def distinct_delete)

lemma known_wfD: "known_wf T \<Longrightarrow> map_of T t = Some (x, cs) \<Longrightarrow> distinct cs \<and> cs \<noteq> []"
  by (simp add: known_wf_def)

lemma aborted_wfD: "aborted_wf A \<Longrightarrow> map_of A t = Some cs \<Longrightarrow> distinct cs \<and> cs \<noteq> []"
  by (simp add: aborted_wf_def)

lemma known_wf_touch [simp]:
  "known_wf T \<Longrightarrow> map_of T t = Some (x, cs) \<Longrightarrow> known_wf (AList.update t (x, iset_insert c cs) T)"
  "known_wf T \<Longrightarrow> map_of T t = Some (x, cs) \<Longrightarrow> iset_swap_remove c cs \<noteq> [] \<Longrightarrow>
     known_wf (AList.update t (x, iset_swap_remove c cs) T)"
  using known_wfD [of T t x cs] by simp_all

lemma aborted_wf_touch [simp]:
  "aborted_wf A \<Longrightarrow> map_of A t = Some cs \<Longrightarrow> aborted_wf (AList.update t (iset_insert c cs) A)"
  "aborted_wf A \<Longrightarrow> map_of A t = Some cs \<Longrightarrow> iset_swap_remove c cs \<noteq> [] \<Longrightarrow>
     aborted_wf (AList.update t (iset_swap_remove c cs) A)"
  using aborted_wfD [of A t cs] by simp_all

lemma mem_insert_known_wf: "known_wf T \<Longrightarrow> known_wf (mem_insert_known cid ids m T)"
  by (induction cid ids m T rule: mem_insert_known.induct)
    (auto split: option.splits)

lemma mem_insert_known_abs:
  "known_abs (mem_insert_known cid ids m T) t =
     (if t \<in> set ids then spec_insert_known cid (map_of m t) (known_abs T t) else known_abs T t)"
  by (induction cid ids m T rule: mem_insert_known.induct)
    (auto simp: spec_insert_known_def known_abs_lookup insert_absorb split: option.splits)

lemma mem_insert_aborted_wf: "aborted_wf A \<Longrightarrow> aborted_wf (mem_insert_aborted cid ids A)"
  by (induction cid ids A rule: mem_insert_aborted.induct)
    (auto split: option.splits)

lemma mem_insert_aborted_abs:
  "aborted_abs (mem_insert_aborted cid ids A) t =
     (if t \<in> set ids then spec_insert_aborted cid (aborted_abs A t) else aborted_abs A t)"
  by (induction cid ids A rule: mem_insert_aborted.induct)
    (auto simp: spec_insert_aborted_def aborted_abs_lookup insert_absorb split: option.splits)

lemma iset_swap_remove_Nil: "distinct cs \<Longrightarrow> iset_swap_remove c cs = [] \<longleftrightarrow> set cs - {c} = {}"
  using set_iset_swap_remove [of cs c] by (metis set_empty)

lemma drop_known_wf: "known_wf T \<Longrightarrow> known_wf (drop_known cid t T)"
  by (auto simp: drop_known_def Let_def split: option.splits)

lemma drop_known_abs:
  "known_wf T \<Longrightarrow>
    known_abs (drop_known cid t T) = (known_abs T)(t := spec_remove_known cid (known_abs T t))"
  using known_wfD [of T t] iset_swap_remove_Nil
  by (fastforce simp: drop_known_def Let_def spec_remove_known_def known_abs_lookup fun_eq_iff
      split: option.splits)

lemma drop_aborted_wf: "aborted_wf A \<Longrightarrow> aborted_wf (drop_aborted cid t A)"
  by (auto simp: drop_aborted_def Let_def split: option.splits)

lemma drop_aborted_abs:
  "aborted_wf A \<Longrightarrow>
    aborted_abs (drop_aborted cid t A) = (aborted_abs A)(t := spec_remove_aborted cid (aborted_abs A t))"
  using aborted_wfD [of A t] iset_swap_remove_Nil
  by (fastforce simp: drop_aborted_def Let_def spec_remove_aborted_def aborted_abs_lookup fun_eq_iff
      split: option.splits)

lemma spec_remove_idem:
  "spec_remove_known cid (spec_remove_known cid x) = spec_remove_known cid x"
  "spec_remove_aborted cid (spec_remove_aborted cid y) = spec_remove_aborted cid y"
  by (auto simp: spec_effects split: option.splits)

lemma mem_remove_spec:
  assumes "mem_invar s"
  shows "mem_invar (mem_remove_transmissions s cid ids) \<and>
    known_abs (ms_transmissions (mem_remove_transmissions s cid ids)) t =
      (if t \<in> set ids then spec_remove_known cid (known_abs (ms_transmissions s) t)
       else known_abs (ms_transmissions s) t) \<and>
    aborted_abs (ms_aborted (mem_remove_transmissions s cid ids)) t =
      (if t \<in> set ids then spec_remove_aborted cid (aborted_abs (ms_aborted s) t)
       else aborted_abs (ms_aborted s) t)"
  using assms
proof (induction ids arbitrary: s)
  case (Cons i ids)
  let ?s = "s\<lparr>ms_transmissions := drop_known cid i (ms_transmissions s),
    ms_aborted := drop_aborted cid i (ms_aborted s)\<rparr>"
  have inv: "known_wf (ms_transmissions s)" "aborted_wf (ms_aborted s)"
    using Cons.prems by (simp_all add: mem_invar_def)
  have "mem_invar ?s"
    using inv by (simp add: mem_invar_def drop_known_wf drop_aborted_wf)
  from Cons.IH [OF this] show ?case
    by (auto simp: drop_known_abs drop_aborted_abs inv spec_remove_idem)
qed simp

section \<open>The missing-transmissions loop\<close>

lemma find_missing_loop_covers:
  "find_missing_loop known ab ts given missing = Inr m \<Longrightarrow> t \<in> set ts \<Longrightarrow>
     known t \<or> map_of m t \<noteq> None \<or> t \<in> set ab"
  and find_missing_loop_keeps:
  "find_missing_loop known ab ts given missing = Inr m \<Longrightarrow> map_of missing t \<noteq> None \<Longrightarrow> map_of m t \<noteq> None"
  by (induction known ab ts given missing rule: find_missing_loop.induct)
    (auto split: if_splits option.splits)

lemma find_missing_loop_given:
  "find_missing_loop known ab ts given missing = Inr m \<Longrightarrow> map_of m t = Some x \<Longrightarrow>
     map_of missing t = Some x \<or> map_of given t = Some x \<and> t \<in> set ts \<and> \<not> known t"
  by (induction known ab ts given missing rule: find_missing_loop.induct)
    (auto split: if_splits option.splits)

lemma find_missing_loop_holds:
  "find_missing_loop known ab ts given missing = Inr m \<Longrightarrow> map_of given t = None \<Longrightarrow>
     map_of missing t = Some x \<Longrightarrow> map_of m t = Some x"
proof (induction known ab ts given missing rule: find_missing_loop.induct)
  case (2 known ab i ts given missing)
  then show ?case by (cases "i = t"; cases "map_of given i") (auto split: if_splits)
qed simp

lemma find_missing_loop_takes:
  "find_missing_loop known ab ts given missing = Inr m \<Longrightarrow> t \<in> set ts \<Longrightarrow> \<not> known t \<Longrightarrow>
     map_of given t = Some x \<Longrightarrow> map_of m t = Some x"
proof (induction known ab ts given missing rule: find_missing_loop.induct)
  case (2 known ab i ts given missing)
  show ?case
  proof (cases "i = t")
    case True
    with 2(4,6,7) have "find_missing_loop known ab ts (AList.delete t given) (AList.update t x missing) = Inr m"
      by simp
    then show ?thesis by (rule find_missing_loop_holds) simp_all
  next
    case False
    then show ?thesis
      using 2 by (cases "map_of given i") (auto split: if_splits)
  qed
qed simp

lemma find_missing_loop_ok:
  "\<forall>t \<in> set ts. known t \<or> map_of given t \<noteq> None \<or> t \<in> set ab \<Longrightarrow> distinct ts \<Longrightarrow>
     \<exists>m. find_missing_loop known ab ts given missing = Inr m"
proof (induction known ab ts given missing rule: find_missing_loop.induct)
  case (2 known ab t ts given missing)
  have rest: "\<forall>x \<in> set ts. known x \<or> map_of (AList.delete t given) x \<noteq> None \<or> x \<in> set ab"
    using 2(4,5) by auto
  show ?case
    using 2 rest by (cases "map_of given t") auto
qed simp

section \<open>The service contract\<close>

interpretation mem: storage_service memory_vtable
  "\<lambda>s. known_abs (ms_transmissions s)" "\<lambda>s. aborted_abs (ms_aborted s)" mem_invar
proof (unfold_locales, goal_cases)
  case (1 s t)
  then show ?case
    by (auto simp: memory_vtable_def mem_contains_transmission_def known_abs_def aborted_abs_def
        imap_contains_key_def simp del: imap_contains_key_iff)
next
  case (2 s t x cs)
  then show ?case
    by (auto simp: memory_vtable_def mem_get_transmission_def known_abs_def)
next
  case (3 s t)
  then show ?case by (simp add: memory_vtable_def)
next
  case (4 s h given ab m t)
  then show ?case
    using find_missing_loop_covers [of _ ab "bh_transmission_ids h" given "[]" m t]
    by (auto simp: memory_vtable_def mem_find_missing_def mem_contains_transmission_def)
next
  case (5 s h given ab m t x)
  then show ?case
    using find_missing_loop_given [of _ ab "bh_transmission_ids h" given "[]" m t x]
    by (auto simp: memory_vtable_def mem_find_missing_def)
next
  case (6 s h given ab)
  then show ?case
    by (simp add: memory_vtable_def mem_find_missing_def find_missing_loop_ok)
next
  case (7 s cid ids ab m t)
  then show ?case
    by (simp add: memory_vtable_def mem_insert_transmissions_def mem_insert_known_abs)
next
  case (8 s cid ids ab m t)
  then show ?case
    by (simp add: memory_vtable_def mem_insert_transmissions_def mem_insert_aborted_abs)
next
  case (9 s cid ids t)
  then show ?case using mem_remove_spec [of s cid ids t] by (simp add: memory_vtable_def)
next
  case (10 s cid ids t)
  then show ?case using mem_remove_spec [of s cid ids t] by (simp add: memory_vtable_def)
next
  case (11 s cid ids ab m)
  then show ?case
    by (simp add: memory_vtable_def mem_insert_transmissions_def mem_invar_def
        mem_insert_known_wf mem_insert_aborted_wf)
next
  case (12 s cid ids)
  then show ?case using mem_remove_spec [of s cid ids] by (simp add: memory_vtable_def)
qed

text \<open>The in-memory service reuses only stored transmissions, never an aborted entry.\<close>

interpretation mem_strict: strict_storage_service memory_vtable
  "\<lambda>s. known_abs (ms_transmissions s)" "\<lambda>s. aborted_abs (ms_aborted s)" mem_invar
proof (unfold_locales, goal_cases)
  case (1 s h given ab m t)
  then show ?case
    using find_missing_loop_covers [of _ ab "bh_transmission_ids h" given "[]" m t]
    by (auto simp: memory_vtable_def mem_find_missing_def known_abs_def imap_contains_key_def
        simp del: imap_contains_key_iff)
qed

lemma mem_invar_new: "mem_invar mem_new"
  by (simp add: mem_invar_def mem_new_def known_wf_def aborted_wf_def)

lemma mem_insert_rereads_covered:
  "\<forall>t \<in> set ids. map_of T t \<noteq> None \<or> map_of m t \<noteq> None \<or> t \<in> set ab \<Longrightarrow>
     \<not> mem_insert_rereads ab ids m T"
proof (induction ab ids m T rule: mem_insert_rereads.induct)
  case (2 ab t ts missing T)
  then show ?case
    by (cases "map_of T t"; cases "map_of missing t") (auto split: if_splits)
qed simp

section \<open>Properties\<close>

text \<open>Storing a certificate's transmissions and then removing the same certificate leaves the
  in-memory service as it was, key by key, for every ID the certificate did not already hold:
  no reference is lost and none is left behind.\<close>

theorem mem_insert_remove_known:
  assumes "mem_invar s" "\<And>x cs. known_abs (ms_transmissions s) t = Some (x, cs) \<Longrightarrow> cid \<notin> cs \<and> cs \<noteq> {}"
  shows "known_abs (ms_transmissions
      (mem_remove_transmissions (mem_insert_transmissions s cid ids ab m) cid ids)) t =
    known_abs (ms_transmissions s) t"
  using mem.insert_remove_known [OF assms] by (simp add: memory_vtable_def)

theorem mem_insert_remove_known_witness:
  "known_abs (ms_transmissions (mem_remove_transmissions
      (mem_insert_transmissions mem_new 11 [TransactionID 5 0] []
         [(TransactionID 5 0, Transaction (Object (sample_transaction 5)))]) 11 [TransactionID 5 0]))
    (TransactionID 5 0) = None"
  using mem_insert_remove_known [OF mem_invar_new, of "TransactionID 5 0" 11 "[TransactionID 5 0]" "[]"
      "[(TransactionID 5 0, Transaction (Object (sample_transaction 5)))]"]
  by (simp add: mem_new_def known_abs_def)

text \<open>When the missing transmissions were computed by the in-memory service for the same batch,
  inserting them never asks the service to read a map it holds the write lock of: every ID is
  stored, provided or listed as aborted. (The lock is not re-entrant, so that read would block.)\<close>

theorem mem_insert_never_rereads:
  "mem_find_missing s h given ab = Inr m \<Longrightarrow>
     \<not> mem_insert_rereads ab (bh_transmission_ids h) m (ms_transmissions s)"
  using find_missing_loop_covers [of _ ab "bh_transmission_ids h" given "[]" m]
  by (intro mem_insert_rereads_covered)
    (auto simp: mem_find_missing_def imap_contains_key_def simp del: imap_contains_key_iff)

theorem mem_insert_never_rereads_witness:
  "\<not> mem_insert_rereads [TransactionID 6 0] [TransactionID 5 0, TransactionID 6 0]
     [(TransactionID 5 0, Ratification)] []"
  using mem_insert_never_rereads [of mem_new "sample_header 1 1 [TransactionID 5 0, TransactionID 6 0] []"
      "[(TransactionID 5 0, Ratification)]" "[TransactionID 6 0]" "[(TransactionID 5 0, Ratification)]"]
  by (simp add: mem_find_missing_def mem_new_def sample_header_def)

end
