(* ===== verification/PersistentService.thy ===== *)
theory PersistentService
  imports MemoryService
begin

text \<open>
  The persistent storage service (\<open>node/bft/storage-service/src/persistent.rs\<close>): two
  database maps, each with an LRU cache in front. The database is snarkVM's; which of its
  calls fail is a parameter, a \<open>db_faults\<close> record, so that every error branch is present.
  Without faults the database evolves exactly as the in-memory service does, which gives
  the service contract; the two services differ in what they read, and the properties at
  the end say how.
\<close>

record map_faults =
  mf_contains :: "transmission_id \<Rightarrow> bool"
  mf_get :: "transmission_id \<Rightarrow> bool"
  mf_put :: "transmission_id \<Rightarrow> bool"
  mf_remove :: "transmission_id \<Rightarrow> bool"

record db_faults =
  df_known :: map_faults
  df_aborted :: map_faults

definition no_map_faults :: map_faults where
  "no_map_faults = \<lparr>mf_contains = \<lambda>_. False, mf_get = \<lambda>_. False, mf_put = \<lambda>_. False, mf_remove = \<lambda>_. False\<rparr>"

definition no_faults :: db_faults where
  "no_faults = \<lparr>df_known = no_map_faults, df_aborted = no_map_faults\<rparr>"

record persistent_service =
  ps_transmissions :: known_map
  ps_aborted :: aborted_map
  ps_cache :: known_map
  ps_cache_aborted :: aborted_map
  ps_capacity :: nat

text \<open>\<open>open\<close>: the database maps as found on disk, empty caches, the capacity from the committee size.\<close>

definition pers_open :: "network \<Rightarrow> known_map \<Rightarrow> aborted_map \<Rightarrow> persistent_service option" where
  "pers_open N T A =
     (let capacity = net_max_committee_size N * net_max_transmissions_per_batch N * 2
      in if capacity = 0 then None
         else Some \<lparr>ps_transmissions = T, ps_aborted = A, ps_cache = [], ps_cache_aborted = [],
                    ps_capacity = capacity\<rparr>)"

definition pers_contains_transmission :: "db_faults \<Rightarrow> persistent_service \<Rightarrow> transmission_id \<Rightarrow> bool" where
  "pers_contains_transmission F s t \<longleftrightarrow>
     (\<not> mf_contains (df_known F) t \<and> imap_contains_key t (ps_transmissions s)) \<or>
     (\<not> mf_contains (df_aborted F) t \<and> imap_contains_key t (ps_aborted s))"

definition pers_get_transmission ::
  "db_faults \<Rightarrow> persistent_service \<Rightarrow> transmission_id \<Rightarrow> transmission option \<times> persistent_service" where
  "pers_get_transmission F s t =
     (case imap_get (ps_cache s) t of
        Some (x, _) \<Rightarrow> (Some x, s\<lparr>ps_cache := lru_touch t (ps_cache s)\<rparr>)
      | None \<Rightarrow> (if mf_get (df_known F) t then None
                 else map_option fst (imap_get (ps_transmissions s) t), s))"

definition pers_find_missing ::
  "db_faults \<Rightarrow> persistent_service \<Rightarrow> batch_header \<Rightarrow> transmissions \<Rightarrow> transmission_id list \<Rightarrow>
   (service_error, transmissions) result" where
  "pers_find_missing F s h given ab =
     find_missing_loop (pers_contains_transmission F s) ab (bh_transmission_ids h) given []"

definition pers_store_known ::
  "db_faults \<Rightarrow> transmission_id \<Rightarrow> transmission \<times> field list \<Rightarrow> persistent_service \<Rightarrow> persistent_service" where
  "pers_store_known F t e s =
     s\<lparr>ps_transmissions := (if mf_put (df_known F) t then ps_transmissions s
                            else imap_insert t e (ps_transmissions s)),
       ps_cache := lru_put (ps_capacity s) t e (ps_cache s)\<rparr>"

fun pers_insert_known ::
  "db_faults \<Rightarrow> field \<Rightarrow> transmission_id list \<Rightarrow> transmissions \<Rightarrow> persistent_service \<Rightarrow> persistent_service" where
  "pers_insert_known F cid [] missing s = s"
| "pers_insert_known F cid (t # ts) missing s =
     (if mf_get (df_known F) t then pers_insert_known F cid ts missing s
      else (case imap_get (ps_transmissions s) t of
         Some (x, cs) \<Rightarrow>
           pers_insert_known F cid ts missing (pers_store_known F t (x, iset_insert cid cs) s)
       | None \<Rightarrow>
           (case imap_get missing t of
              None \<Rightarrow> pers_insert_known F cid ts missing s
            | Some x \<Rightarrow> pers_insert_known F cid ts (imap_shift_remove t missing)
                          (pers_store_known F t (x, [cid]) s))))"

definition pers_store_aborted ::
  "db_faults \<Rightarrow> transmission_id \<Rightarrow> field list \<Rightarrow> persistent_service \<Rightarrow> persistent_service" where
  "pers_store_aborted F t cs s =
     s\<lparr>ps_aborted := (if mf_put (df_aborted F) t then ps_aborted s else imap_insert t cs (ps_aborted s)),
       ps_cache_aborted := lru_put (ps_capacity s) t cs (ps_cache_aborted s)\<rparr>"

fun pers_insert_aborted ::
  "db_faults \<Rightarrow> field \<Rightarrow> transmission_id list \<Rightarrow> persistent_service \<Rightarrow> persistent_service" where
  "pers_insert_aborted F cid [] s = s"
| "pers_insert_aborted F cid (t # ts) s =
     (if mf_get (df_aborted F) t then pers_insert_aborted F cid ts s
      else (case imap_get (ps_aborted s) t of
         Some cs \<Rightarrow> pers_insert_aborted F cid ts (pers_store_aborted F t (iset_insert cid cs) s)
       | None \<Rightarrow> pers_insert_aborted F cid ts (pers_store_aborted F t [cid] s)))"

definition pers_insert_transmissions ::
  "db_faults \<Rightarrow> persistent_service \<Rightarrow> field \<Rightarrow> transmission_id list \<Rightarrow> transmission_id list \<Rightarrow>
   transmissions \<Rightarrow> persistent_service" where
  "pers_insert_transmissions F s cid ids ab missing =
     pers_insert_aborted F cid ab (pers_insert_known F cid ids missing s)"

definition pers_drop_known :: "db_faults \<Rightarrow> field \<Rightarrow> transmission_id \<Rightarrow> known_map \<Rightarrow> known_map" where
  "pers_drop_known F cid t T =
     (if mf_get (df_known F) t then T
      else (case imap_get T t of
         None \<Rightarrow> T
       | Some (x, cs) \<Rightarrow>
           (let cs' = iset_swap_remove cid cs
            in if cs' = [] then (if mf_remove (df_known F) t then T else imap_shift_remove t T)
               else (if mf_put (df_known F) t then T else imap_insert t (x, cs') T))))"

definition pers_drop_aborted :: "db_faults \<Rightarrow> field \<Rightarrow> transmission_id \<Rightarrow> aborted_map \<Rightarrow> aborted_map" where
  "pers_drop_aborted F cid t A =
     (if mf_get (df_aborted F) t then A
      else (case imap_get A t of
         None \<Rightarrow> A
       | Some cs \<Rightarrow>
           (let cs' = iset_swap_remove cid cs
            in if cs' = [] then (if mf_remove (df_aborted F) t then A else imap_shift_remove t A)
               else (if mf_put (df_aborted F) t then A else imap_insert t cs' A))))"

fun pers_remove_transmissions ::
  "db_faults \<Rightarrow> persistent_service \<Rightarrow> field \<Rightarrow> transmission_id list \<Rightarrow> persistent_service" where
  "pers_remove_transmissions F s cid [] = s"
| "pers_remove_transmissions F s cid (t # ts) =
     pers_remove_transmissions F
       (s\<lparr>ps_transmissions := pers_drop_known F cid t (ps_transmissions s),
          ps_aborted := pers_drop_aborted F cid t (ps_aborted s)\<rparr>) cid ts"

definition persistent_vtable :: "db_faults \<Rightarrow> persistent_service storage_service" where
  "persistent_vtable F =
     \<lparr>ss_contains = pers_contains_transmission F,
      ss_get = pers_get_transmission F,
      ss_find_missing = pers_find_missing F,
      ss_insert = pers_insert_transmissions F,
      ss_remove = pers_remove_transmissions F\<rparr>"

section \<open>The database follows the in-memory service\<close>

definition pers_db :: "persistent_service \<Rightarrow> memory_service" where
  "pers_db s = \<lparr>ms_transmissions = ps_transmissions s, ms_aborted = ps_aborted s\<rparr>"

lemma no_faults_simps [simp]:
  "mf_get (df_known no_faults) t = False" "mf_put (df_known no_faults) t = False"
  "mf_remove (df_known no_faults) t = False" "mf_contains (df_known no_faults) t = False"
  "mf_get (df_aborted no_faults) t = False" "mf_put (df_aborted no_faults) t = False"
  "mf_remove (df_aborted no_faults) t = False" "mf_contains (df_aborted no_faults) t = False"
  by (simp_all add: no_faults_def no_map_faults_def)

lemma pers_store_simps [simp]:
  "ps_transmissions (pers_store_known no_faults t e s) = imap_insert t e (ps_transmissions s)"
  "ps_aborted (pers_store_known no_faults t e s) = ps_aborted s"
  "ps_transmissions (pers_store_aborted F t cs s) = ps_transmissions s"
  "ps_cache (pers_store_aborted F t cs s) = ps_cache s"
  "ps_aborted (pers_store_aborted no_faults t cs s) = imap_insert t cs (ps_aborted s)"
  by (simp_all add: pers_store_known_def pers_store_aborted_def)

lemma pers_insert_known_db:
  "ps_transmissions (pers_insert_known no_faults cid ids m s) =
     mem_insert_known cid ids m (ps_transmissions s) \<and>
   ps_aborted (pers_insert_known no_faults cid ids m s) = ps_aborted s"
  by (induction ids arbitrary: m s) (auto split: option.splits)

lemma pers_insert_aborted_db:
  "ps_aborted (pers_insert_aborted no_faults cid ids s) = mem_insert_aborted cid ids (ps_aborted s) \<and>
   ps_transmissions (pers_insert_aborted no_faults cid ids s) = ps_transmissions s \<and>
   ps_cache (pers_insert_aborted no_faults cid ids s) = ps_cache s"
  by (induction ids arbitrary: s) (auto split: option.splits)

lemma pers_insert_db:
  "pers_db (pers_insert_transmissions no_faults s cid ids ab m) =
     mem_insert_transmissions (pers_db s) cid ids ab m"
  by (simp add: pers_db_def pers_insert_transmissions_def mem_insert_transmissions_def
      pers_insert_known_db pers_insert_aborted_db)

lemma pers_drop_no_faults [simp]:
  "pers_drop_known no_faults = drop_known" "pers_drop_aborted no_faults = drop_aborted"
  by (auto simp: fun_eq_iff pers_drop_known_def drop_known_def pers_drop_aborted_def
      drop_aborted_def Let_def split: option.splits)

lemma pers_remove_db:
  "pers_db (pers_remove_transmissions no_faults s cid ids) =
     mem_remove_transmissions (pers_db s) cid ids"
  by (induction ids arbitrary: s) (simp_all add: pers_db_def)

lemma pers_remove_cache [simp]: "ps_cache (pers_remove_transmissions F s cid ids) = ps_cache s"
  by (induction ids arbitrary: s) simp_all

lemma pers_contains_db:
  "pers_contains_transmission no_faults s t \<longleftrightarrow> mem_contains_transmission (pers_db s) t"
  by (simp add: pers_contains_transmission_def mem_contains_transmission_def pers_db_def)

section \<open>Cache coherence\<close>

text \<open>The cache may hold entries the database has dropped, but never a different transmission.\<close>

definition cache_coherent :: "known_map \<Rightarrow> known_map \<Rightarrow> bool" where
  "cache_coherent C T \<longleftrightarrow> imap_wf C \<and>
     (\<forall>t x y cs ds. map_of C t = Some (x, cs) \<longrightarrow> map_of T t = Some (y, ds) \<longrightarrow> x = y)"

definition pers_invar :: "persistent_service \<Rightarrow> bool" where
  "pers_invar s \<longleftrightarrow> mem_invar (pers_db s) \<and> cache_coherent (ps_cache s) (ps_transmissions s)"

lemma cache_coherentD:
  "cache_coherent C T \<Longrightarrow> map_of C t = Some (x, cs) \<Longrightarrow> map_of T t = Some (y, ds) \<Longrightarrow> x = y"
  unfolding cache_coherent_def by blast

lemma cache_coherent_store:
  assumes "cache_coherent C T"
  shows "cache_coherent (lru_put n t (x, cs) C) (AList.update t (x, ds) T)"
proof -
  have wf: "imap_wf C" using assms by (simp add: cache_coherent_def)
  have "a = b" if "map_of (lru_put n t (x, cs) C) i = Some (a, as)"
    "map_of (AList.update t (x, ds) T) i = Some (b, bs)" for i a as b bs
    using lru_put_SomeD [OF wf that(1)] that(2) cache_coherentD [OF assms, of i a as b bs]
    by (simp split: if_splits)
  then show ?thesis
    unfolding cache_coherent_def using wf by (blast intro: lru_wf_put)
qed

lemma cache_coherent_store_known [simp]:
  "cache_coherent (ps_cache s) (ps_transmissions s) \<Longrightarrow>
     cache_coherent (ps_cache (pers_store_known no_faults t (x, cs) s)) (imap_insert t (x, cs) (ps_transmissions s))"
  by (simp add: pers_store_known_def cache_coherent_store)

lemma cache_coherent_insert:
  "cache_coherent (ps_cache s) (ps_transmissions s) \<Longrightarrow>
     cache_coherent (ps_cache (pers_insert_known no_faults cid ids m s))
       (ps_transmissions (pers_insert_known no_faults cid ids m s))"
  by (induction ids arbitrary: m s) (auto split: option.splits)

lemma cache_coherent_drop: "cache_coherent C T \<Longrightarrow> cache_coherent C (drop_known cid t T)"
  by (auto simp: cache_coherent_def drop_known_def Let_def split: option.splits if_splits)

lemma cache_coherent_remove:
  "cache_coherent C (ps_transmissions s) \<Longrightarrow>
     cache_coherent C (ps_transmissions (pers_remove_transmissions no_faults s cid ids))"
  by (induction ids arbitrary: s) (simp_all add: cache_coherent_drop)

lemma pers_invar_insert: "pers_invar s \<Longrightarrow> pers_invar (pers_insert_transmissions no_faults s cid ids ab m)"
  using mem.invar_insert [of "pers_db s" cid ids ab m] cache_coherent_insert [of s cid ids m]
  by (simp add: pers_invar_def pers_insert_db memory_vtable_def)
    (simp add: pers_insert_transmissions_def pers_insert_aborted_db)

lemma pers_invar_remove: "pers_invar s \<Longrightarrow> pers_invar (pers_remove_transmissions no_faults s cid ids)"
  using mem.invar_remove [of "pers_db s" cid ids] cache_coherent_remove [of "ps_cache s" s cid ids]
  by (simp add: pers_invar_def pers_remove_db memory_vtable_def)

lemma pers_get_frame:
  "pers_invar s \<Longrightarrow> pers_invar (snd (pers_get_transmission F s t)) \<and>
     pers_db (snd (pers_get_transmission F s t)) = pers_db s"
  by (auto simp: pers_get_transmission_def pers_invar_def pers_db_def cache_coherent_def
      split: option.splits)

lemma pers_db_fields [simp]:
  "ms_transmissions (pers_db s) = ps_transmissions s" "ms_aborted (pers_db s) = ps_aborted s"
  by (simp_all add: pers_db_def)

section \<open>The service contract\<close>

interpretation pers: storage_service "persistent_vtable no_faults"
  "\<lambda>s. known_abs (ms_transmissions (pers_db s))" "\<lambda>s. aborted_abs (ms_aborted (pers_db s))" pers_invar
proof (unfold_locales, goal_cases)
  case (1 s t)
  then show ?case
    using mem.contains_iff [of "pers_db s" t]
    by (simp add: persistent_vtable_def pers_contains_db memory_vtable_def pers_invar_def)
next
  case (2 s t x cs)
  then obtain ds where "map_of (ps_transmissions s) t = Some (x, ds)"
    by (auto simp: known_abs_def)
  with 2 show ?case
    by (fastforce simp: persistent_vtable_def pers_get_transmission_def pers_invar_def
        cache_coherent_def split: option.splits)
next
  case (3 s t)
  then show ?case using pers_get_frame [of s no_faults t] by (simp add: persistent_vtable_def)
next
  case (4 s h given ab m t)
  then show ?case
    using find_missing_loop_covers [of _ ab "bh_transmission_ids h" given "[]" m t]
    by (auto simp: persistent_vtable_def pers_find_missing_def)
next
  case (5 s h given ab m t x)
  then show ?case
    using find_missing_loop_given [of _ ab "bh_transmission_ids h" given "[]" m t x]
    by (auto simp: persistent_vtable_def pers_find_missing_def)
next
  case (6 s h given ab)
  then show ?case
    by (simp add: persistent_vtable_def pers_find_missing_def find_missing_loop_ok)
next
  case (7 s cid ids ab m t)
  then show ?case
    using mem.insert_known [of "pers_db s" cid ids ab m t]
    by (simp add: persistent_vtable_def memory_vtable_def pers_invar_def pers_insert_db del: pers_db_fields)
next
  case (8 s cid ids ab m t)
  then show ?case
    using mem.insert_aborted [of "pers_db s" cid ids ab m t]
    by (simp add: persistent_vtable_def memory_vtable_def pers_invar_def pers_insert_db del: pers_db_fields)
next
  case (9 s cid ids t)
  then show ?case
    using mem.remove_known [of "pers_db s" cid ids t]
    by (simp add: persistent_vtable_def memory_vtable_def pers_invar_def pers_remove_db del: pers_db_fields)
next
  case (10 s cid ids t)
  then show ?case
    using mem.remove_aborted [of "pers_db s" cid ids t]
    by (simp add: persistent_vtable_def memory_vtable_def pers_invar_def pers_remove_db del: pers_db_fields)
next
  case (11 s cid ids ab m)
  then show ?case using pers_invar_insert by (simp add: persistent_vtable_def)
next
  case (12 s cid ids)
  then show ?case using pers_invar_remove by (simp add: persistent_vtable_def)
qed

section \<open>Properties\<close>

text \<open>C30: with a database that does not fail, the persistent service stores exactly what the
  in-memory service stores: both operations commute with forgetting the caches.\<close>

theorem persistent_refines_memory:
  "pers_db (pers_insert_transmissions no_faults s cid ids ab m) =
     mem_insert_transmissions (pers_db s) cid ids ab m \<and>
   pers_db (pers_remove_transmissions no_faults s cid ids) =
     mem_remove_transmissions (pers_db s) cid ids"
  by (simp add: pers_insert_db pers_remove_db)

text \<open>Removal does not touch the cache, so a transmission read back once keeps being returned
  after its last certificate is removed, although the service then reports that it does not
  contain it.\<close>

theorem persistent_stale_read:
  assumes "pers_invar s" "t \<in> set ids"
    and "known_abs (ps_transmissions s) t = Some (x, {cid})" "map_of (ps_aborted s) t = None"
    and "map_of (ps_cache s) t \<noteq> None"
  shows "\<not> pers_contains_transmission no_faults (pers_remove_transmissions no_faults s cid ids) t \<and>
    fst (pers_get_transmission no_faults (pers_remove_transmissions no_faults s cid ids) t) = Some x"
proof (intro conjI)
  let ?s = "pers_remove_transmissions no_faults s cid ids"
  have k: "known_abs (ps_transmissions ?s) t = None"
    using pers.remove_known [OF assms(1), of cid ids t] assms(2,3)
    by (simp add: persistent_vtable_def spec_remove_known_def)
  have a: "aborted_abs (ps_aborted ?s) t = None"
    using pers.remove_aborted [OF assms(1), of cid ids t] assms(2,4)
    by (simp add: persistent_vtable_def spec_remove_aborted_def aborted_abs_def)
  show "\<not> pers_contains_transmission no_faults ?s t"
    using pers.contains_iff [OF pers_invar_remove [OF assms(1)], of cid ids t] k a
    by (simp add: persistent_vtable_def)
  obtain y cs where "map_of (ps_cache s) t = Some (y, cs)"
    using assms(5) by auto
  then show "fst (pers_get_transmission no_faults ?s t) = Some x"
    using assms(1,3)
    by (auto simp: pers_get_transmission_def pers_invar_def known_abs_def dest: cache_coherentD)
qed

definition stale_service :: persistent_service where
  "stale_service =
     \<lparr>ps_transmissions = [(TransactionID 5 0, Transaction (Object (sample_transaction 5)), [11])],
      ps_aborted = [],
      ps_cache = [(TransactionID 5 0, Transaction (Object (sample_transaction 5)), [11])],
      ps_cache_aborted = [], ps_capacity = 100\<rparr>"

theorem persistent_stale_read_witness:
  "\<not> pers_contains_transmission no_faults
       (pers_remove_transmissions no_faults stale_service 11 [TransactionID 5 0]) (TransactionID 5 0) \<and>
    fst (pers_get_transmission no_faults
       (pers_remove_transmissions no_faults stale_service 11 [TransactionID 5 0]) (TransactionID 5 0)) =
      Some (Transaction (Object (sample_transaction 5)))"
  by (rule persistent_stale_read)
    (auto simp: stale_service_def pers_invar_def pers_db_def mem_invar_def known_wf_def aborted_wf_def
      cache_coherent_def known_abs_def)

text \<open>A transmission that the service holds only as aborted and that a later certificate does
  provide is dropped by the persistent service, whose search counts the aborted entry as
  present, and is stored by the in-memory service on the same data. The transmission then
  depends on the first certificate alone.\<close>

theorem persistent_drops_provided:
  assumes "pers_invar s" "map_of (ps_transmissions s) t = None" "map_of (ps_aborted s) t \<noteq> None"
    and "t \<in> set (bh_transmission_ids h)" "map_of given t = Some x"
    and "pers_find_missing no_faults s h given ab = Inr m" "mem_find_missing (pers_db s) h given ab = Inr m'"
  shows "map_of (ps_transmissions
      (pers_insert_transmissions no_faults s cid (bh_transmission_ids h) ab m)) t = None \<and>
    known_abs (ms_transmissions
      (mem_insert_transmissions (pers_db s) cid (bh_transmission_ids h) ab m')) t = Some (x, {cid})"
proof (intro conjI)
  have none: "known_abs (ps_transmissions s) t = None" using assms(2) by (simp add: known_abs_def)
  have "pers_contains_transmission no_faults s t"
    using assms(3) by (simp add: pers_contains_transmission_def imap_contains_key_def
        del: imap_contains_key_iff)
  then have "map_of m t = None"
    using find_missing_loop_given [of _ ab "bh_transmission_ids h" given "[]" m t] assms(6)
    by (cases "map_of m t") (auto simp: pers_find_missing_def)
  then show "map_of (ps_transmissions
      (pers_insert_transmissions no_faults s cid (bh_transmission_ids h) ab m)) t = None"
    using pers.insert_known [OF assms(1), of cid "bh_transmission_ids h" ab m t] none assms(4)
    by (simp add: persistent_vtable_def spec_insert_known_def known_abs_def)
  have "map_of m' t = Some x"
    using find_missing_loop_takes [of _ ab "bh_transmission_ids h" given "[]" m' t x] assms(2,4,5,7)
    by (simp add: mem_find_missing_def imap_contains_key_def del: imap_contains_key_iff)
  then show "known_abs (ms_transmissions
      (mem_insert_transmissions (pers_db s) cid (bh_transmission_ids h) ab m')) t = Some (x, {cid})"
    using assms(4) none
    by (simp add: mem_insert_transmissions_def mem_insert_known_abs spec_insert_known_def)
qed

definition aborted_service :: persistent_service where
  "aborted_service =
     \<lparr>ps_transmissions = [], ps_aborted = [(TransactionID 5 0, [11])],
      ps_cache = [], ps_cache_aborted = [], ps_capacity = 100\<rparr>"

theorem persistent_drops_provided_witness:
  "map_of (ps_transmissions (pers_insert_transmissions no_faults aborted_service 21
       (bh_transmission_ids (sample_header 2 1 [TransactionID 5 0] [])) [] [])) (TransactionID 5 0) = None \<and>
   known_abs (ms_transmissions (mem_insert_transmissions (pers_db aborted_service) 21
       (bh_transmission_ids (sample_header 2 1 [TransactionID 5 0] [])) []
         [(TransactionID 5 0, Ratification)])) (TransactionID 5 0) = Some (Ratification, {21})"
  by (rule persistent_drops_provided [where given = "[(TransactionID 5 0, Ratification)]"])
    (simp_all add: aborted_service_def pers_invar_def pers_db_def mem_invar_def known_wf_def aborted_wf_def
      cache_coherent_def sample_header_def pers_find_missing_def mem_find_missing_def
      pers_contains_transmission_def)

end
