(* ===== verification/Storage.thy ===== *)
theory Storage
  imports LedgerService PersistentService
begin

text \<open>
  The storage of the memory pool (\<open>node/bft/src/helpers/storage.rs\<close>) and the timestamp check
  it uses (\<open>node/bft/src/helpers/timestamp.rs\<close>). Storage keeps three maps over
  certificates, the trackers of the current height, the current round and the garbage
  collected round, and a storage service for the transmissions. The ledger is read through
  \<open>LedgerService\<close>. The lemmas show that the maps stay consistent with each other, that
  storage is causally closed above the garbage collected round and holds one certificate
  per author and round, what garbage collection keeps, and how the transmission references
  follow the certificates.
\<close>

section \<open>State\<close>

text \<open>The services a node is configured with: the storage service object and snarkVM.\<close>

record 'ts env =
  env_service :: "'ts storage_service"
  env_network :: network
  env_crypto :: crypto

record 'ts storage =
  st_current_height :: nat
  st_current_round :: nat
  st_gc_round :: nat
  st_max_gc_rounds :: nat
  st_rounds :: "(nat, (field \<times> address) list) imap"
  st_certificates :: "(field, certificate) imap"
  st_batch_ids :: "(field, nat) imap"
  st_transmissions :: 'ts

datatype storage_error =
    BelowGcRound
  | CertificateExists
  | AuthorExistsInRound
  | BatchExists
  | NoCommitteeLookback
  | AuthorNotInCommittee
  | TimestampTooFar
  | MissingTransmissions service_error
  | NoPreviousCommittee
  | NoPreviousCertificates
  | TooManyPreviousCertificates
  | MissingPreviousCertificate field
  | WrongPreviousRound
  | DuplicatePreviousAuthor
  | PreviousBelowQuorum
  | SignerNotInCommittee address
  | SignersBelowQuorum
  | StorageLedgerFailure ledger_error
  | NextRoundMismatch
  | NextRoundBehindGc

definition MAX_TIMESTAMP_DELTA_IN_SECS :: int where
  "MAX_TIMESTAMP_DELTA_IN_SECS = 10"

text \<open>The clock is an argument: \<open>now\<close> is the value the call of \<open>now()\<close> returns.\<close>

definition check_timestamp_for_liveness :: "int \<Rightarrow> int \<Rightarrow> (storage_error, unit) result" where
  "check_timestamp_for_liveness now timestamp =
     (if timestamp > i64_add now MAX_TIMESTAMP_DELTA_IN_SECS then Inl TimestampTooFar else Inr ())"

section \<open>Queries\<close>

definition contains_certificates_for_round :: "'ts storage \<Rightarrow> nat \<Rightarrow> bool" where
  "contains_certificates_for_round s r = imap_contains_key r (st_rounds s)"

definition contains_certificate :: "'ts storage \<Rightarrow> field \<Rightarrow> bool" where
  "contains_certificate s i = imap_contains_key i (st_certificates s)"

definition contains_certificate_in_round_from :: "'ts storage \<Rightarrow> nat \<Rightarrow> address \<Rightarrow> bool" where
  "contains_certificate_in_round_from s r a =
     (case imap_get (st_rounds s) r of None \<Rightarrow> False | Some es \<Rightarrow> list_ex (\<lambda>(_, b). b = a) es)"

definition contains_batch :: "'ts storage \<Rightarrow> field \<Rightarrow> bool" where
  "contains_batch s i = imap_contains_key i (st_batch_ids s)"

definition contains_transmission :: "'ts env \<Rightarrow> 'ts storage \<Rightarrow> transmission_id \<Rightarrow> bool" where
  "contains_transmission E s t = ss_contains (env_service E) (st_transmissions s) t"

definition get_transmission :: "'ts env \<Rightarrow> 'ts storage \<Rightarrow> transmission_id \<Rightarrow> transmission option \<times> 'ts storage" where
  "get_transmission E s t =
     (let (x, ts) = ss_get (env_service E) (st_transmissions s) t in (x, s\<lparr>st_transmissions := ts\<rparr>))"

definition get_round_for_certificate :: "'ts storage \<Rightarrow> field \<Rightarrow> nat option" where
  "get_round_for_certificate s i = map_option cert_round (imap_get (st_certificates s) i)"

definition get_round_for_batch :: "'ts storage \<Rightarrow> field \<Rightarrow> nat option" where
  "get_round_for_batch s i = imap_get (st_batch_ids s) i"

definition get_certificate_round :: "'ts storage \<Rightarrow> field \<Rightarrow> nat option" where
  "get_certificate_round s i = map_option cert_round (imap_get (st_certificates s) i)"

definition get_certificate :: "'ts storage \<Rightarrow> field \<Rightarrow> certificate option" where
  "get_certificate s i = imap_get (st_certificates s) i"

definition get_certificate_for_round_with_author ::
  "'ts storage \<Rightarrow> nat \<Rightarrow> address \<Rightarrow> certificate option" where
  "get_certificate_for_round_with_author s r a =
     (case imap_get (st_rounds s) r of
        None \<Rightarrow> None
      | Some es \<Rightarrow> find_map (\<lambda>(i, b). if b = a then imap_get (st_certificates s) i else None) es)"

text \<open>Collecting an iterator into an \<open>IndexSet\<close>.\<close>

definition iset_collect :: "'a list \<Rightarrow> 'a list" where
  "iset_collect xs = fold iset_insert xs []"

definition get_certificates_for_round :: "'ts storage \<Rightarrow> nat \<Rightarrow> certificate list" where
  "get_certificates_for_round s r =
     (if r = 0 then []
      else case imap_get (st_rounds s) r of
        None \<Rightarrow> []
      | Some es \<Rightarrow> iset_collect (List.map_filter (\<lambda>(i, _). imap_get (st_certificates s) i) es))"

definition get_certificate_ids_for_round :: "'ts storage \<Rightarrow> nat \<Rightarrow> field list" where
  "get_certificate_ids_for_round s r =
     (if r = 0 then []
      else case imap_get (st_rounds s) r of None \<Rightarrow> [] | Some es \<Rightarrow> iset_collect (map fst es))"

definition get_certificate_authors_for_round :: "'ts storage \<Rightarrow> nat \<Rightarrow> address set" where
  "get_certificate_authors_for_round s r =
     (if r = 0 then {}
      else case imap_get (st_rounds s) r of None \<Rightarrow> {} | Some es \<Rightarrow> snd ` set es)"

definition get_pending_certificates :: "core_ledger \<Rightarrow> 'ts storage \<Rightarrow> certificate list" where
  "get_pending_certificates L s =
     iset_collect (concat (map (\<lambda>(_, es). List.map_filter
        (\<lambda>(i, _). if unwrap_or False (ledger_contains_certificate L i) then None
                  else imap_get (st_certificates s) i) es)
        (sort_key fst (st_rounds s))))"

section \<open>Checks\<close>

text \<open>The loop over the declared previous certificates, with the authors seen so far.\<close>

fun check_previous :: "'ts storage \<Rightarrow> nat \<Rightarrow> field list \<Rightarrow> address set \<Rightarrow> (storage_error, address set) result" where
  "check_previous s previous_round [] authors = Inr authors"
| "check_previous s previous_round (i # is) authors =
     (case get_certificate s i of
        None \<Rightarrow> Inl (MissingPreviousCertificate i)
      | Some c \<Rightarrow>
          if cert_round c \<noteq> previous_round then Inl WrongPreviousRound
          else if cert_author c \<in> authors then Inl DuplicatePreviousAuthor
          else check_previous s previous_round is (insert (cert_author c) authors))"

definition check_previous_round ::
  "'ts env \<Rightarrow> core_ledger \<Rightarrow> 'ts storage \<Rightarrow> batch_header \<Rightarrow> nat \<Rightarrow> (storage_error, unit) result" where
  "check_previous_round E L s h previous_round =
     (case get_committee_lookback_for_round (env_network E) L previous_round of
        Inl _ \<Rightarrow> Inl NoPreviousCommittee
      | Inr com \<Rightarrow>
          if \<not> contains_certificates_for_round s previous_round then Inl NoPreviousCertificates
          else if length (bh_previous_certificate_ids h) > length (com_members com)
            then Inl TooManyPreviousCertificates
          else rbind (check_previous s previous_round (bh_previous_certificate_ids h) {}) (\<lambda>authors.
            if \<not> com_quorum_reached com authors then Inl PreviousBelowQuorum else Inr ()))"

definition check_batch_header ::
  "'ts env \<Rightarrow> core_ledger \<Rightarrow> int \<Rightarrow> 'ts storage \<Rightarrow> batch_header \<Rightarrow> transmissions \<Rightarrow> transmission_id list \<Rightarrow>
   (storage_error, transmissions) result" where
  "check_batch_header E L now s h given aborted =
     (let round = bh_round h in
      if contains_batch s (bh_batch_id h) then Inl BatchExists
      else case get_committee_lookback_for_round (env_network E) L round of
        Inl _ \<Rightarrow> Inl NoCommitteeLookback
      | Inr com \<Rightarrow>
          if \<not> com_is_member com (bh_author h) then Inl AuthorNotInCommittee
          else rbind (check_timestamp_for_liveness now (bh_timestamp h)) (\<lambda>_.
            rbind (map_err MissingTransmissions
                     (ss_find_missing (env_service E) (st_transmissions s) h given aborted)) (\<lambda>missing.
              let previous_round = round - 1 in
              if previous_round > st_gc_round s
              then rbind (check_previous_round E L s h previous_round) (\<lambda>_. Inr missing)
              else Inr missing)))"

fun check_signers :: "crypto \<Rightarrow> committee \<Rightarrow> signature list \<Rightarrow> address set \<Rightarrow> (storage_error, address set) result" where
  "check_signers K com [] signers = Inr signers"
| "check_signers K com (sg # sgs) signers =
     (let signer = cr_to_address K sg in
      if \<not> com_is_member com signer then Inl (SignerNotInCommittee signer)
      else check_signers K com sgs (insert signer signers))"

definition check_certificate ::
  "'ts env \<Rightarrow> core_ledger \<Rightarrow> int \<Rightarrow> 'ts storage \<Rightarrow> certificate \<Rightarrow> transmissions \<Rightarrow> transmission_id list \<Rightarrow>
   (storage_error, transmissions) result" where
  "check_certificate E L now s c given aborted =
     (let round = cert_round c in
      if contains_certificate s (cert_id c) then Inl CertificateExists
      else if contains_certificate_in_round_from s round (cert_author c) then Inl AuthorExistsInRound
      else rbind (check_batch_header E L now s (cert_header c) given aborted) (\<lambda>missing.
        rbind (check_timestamp_for_liveness now (cert_timestamp c)) (\<lambda>_.
          case get_committee_lookback_for_round (env_network E) L round of
            Inl _ \<Rightarrow> Inl NoCommitteeLookback
          | Inr com \<Rightarrow>
              rbind (check_signers (env_crypto E) com (cert_signatures c) {cert_author c}) (\<lambda>signers.
                if \<not> com_quorum_reached com signers then Inl SignersBelowQuorum else Inr missing))))"

section \<open>Updates\<close>

definition insert_certificate_atomic ::
  "'ts env \<Rightarrow> 'ts storage \<Rightarrow> certificate \<Rightarrow> transmission_id list \<Rightarrow> transmissions \<Rightarrow> 'ts storage" where
  "insert_certificate_atomic E s c aborted missing =
     s\<lparr>st_rounds := imap_or_default (cert_round c) [] (iset_insert (cert_id c, cert_author c)) (st_rounds s),
       st_certificates := imap_insert (cert_id c) c (st_certificates s),
       st_batch_ids := imap_insert (cert_id c) (cert_round c) (st_batch_ids s),
       st_transmissions := ss_insert (env_service E) (st_transmissions s) (cert_id c)
         (cert_transmission_ids c) aborted missing\<rparr>"

definition insert_certificate ::
  "'ts env \<Rightarrow> core_ledger \<Rightarrow> int \<Rightarrow> 'ts storage \<Rightarrow> certificate \<Rightarrow> transmissions \<Rightarrow> transmission_id list \<Rightarrow>
   (storage_error, 'ts storage) result" where
  "insert_certificate E L now s c given aborted =
     (if \<not> cert_round c > st_gc_round s then Inl BelowGcRound
      else rbind (check_certificate E L now s c given aborted) (\<lambda>missing.
        Inr (insert_certificate_atomic E s c aborted missing)))"

definition remove_round_entry ::
  "nat \<Rightarrow> field \<times> address \<Rightarrow> (nat, (field \<times> address) list) imap \<Rightarrow> (nat, (field \<times> address) list) imap" where
  "remove_round_entry r e m =
     (case imap_get m r of
        None \<Rightarrow> m
      | Some es \<Rightarrow>
          (let es' = iset_swap_remove e es
           in if es' = [] then imap_swap_remove r m else imap_insert r es' m))"

definition remove_certificate :: "'ts env \<Rightarrow> field \<Rightarrow> 'ts storage \<Rightarrow> bool \<times> 'ts storage" where
  "remove_certificate E i s =
     (case get_certificate s i of
        None \<Rightarrow> (False, s)
      | Some c \<Rightarrow> (True,
          s\<lparr>st_rounds := remove_round_entry (cert_round c) (i, cert_author c) (st_rounds s),
            st_certificates := imap_swap_remove i (st_certificates s),
            st_batch_ids := imap_swap_remove i (st_batch_ids s),
            st_transmissions := ss_remove (env_service E) (st_transmissions s) i (cert_transmission_ids c)\<rparr>))"

definition remove_round :: "'ts env \<Rightarrow> nat \<Rightarrow> 'ts storage \<Rightarrow> 'ts storage" where
  "remove_round E r s =
     fold (\<lambda>i s. snd (remove_certificate E i s)) (get_certificate_ids_for_round s r) s"

definition garbage_collect_certificates :: "'ts env \<Rightarrow> nat \<Rightarrow> 'ts storage \<Rightarrow> 'ts storage" where
  "garbage_collect_certificates E next_round s =
     (let current_gc_round = st_gc_round s;
          next_gc_round = next_round - st_max_gc_rounds s
      in if next_gc_round > current_gc_round
         then (fold (remove_round E) [current_gc_round..<Suc next_gc_round] s)\<lparr>st_gc_round := next_gc_round\<rparr>
         else s)"

definition update_current_round :: "nat \<Rightarrow> 'ts storage \<Rightarrow> 'ts storage" where
  "update_current_round r s = s\<lparr>st_current_round := r\<rparr>"

definition sync_height_with_block :: "nat \<Rightarrow> 'ts storage \<Rightarrow> 'ts storage" where
  "sync_height_with_block h s = (if h > st_current_height s then s\<lparr>st_current_height := h\<rparr> else s)"

definition sync_round_with_block :: "nat \<Rightarrow> 'ts storage \<Rightarrow> 'ts storage" where
  "sync_round_with_block r s =
     (let r' = max r 1 in if r' > st_current_round s then update_current_round r' s else s)"

text \<open>The state is returned next to the result: an error of a later check keeps the update.\<close>

definition increment_to_next_round ::
  "core_ledger \<Rightarrow> nat \<Rightarrow> 'ts storage \<Rightarrow> (storage_error, nat) result \<times> 'ts storage" where
  "increment_to_next_round L current s =
     (let next_round = u64_add current 1 in
      if next_round < st_current_round s then (Inr (st_current_round s), s)
      else case current_committee L of
        Inl e \<Rightarrow> (Inl (StorageLedgerFailure e), s)
      | Inr com \<Rightarrow>
          if next_round < com_starting_round com
          then (Inr (latest_round L), sync_round_with_block (latest_round L) s)
          else (let s' = update_current_round next_round s in
            if next_round \<noteq> st_current_round s' then (Inl NextRoundMismatch, s')
            else if \<not> next_round \<ge> st_gc_round s' then (Inl NextRoundBehindGc, s')
            else (Inr next_round, s')))"

definition storage_new :: "'ts env \<Rightarrow> core_ledger \<Rightarrow> 'ts \<Rightarrow> nat \<Rightarrow> 'ts storage option" where
  "storage_new E L ts max_gc_rounds =
     (case current_committee L of
        Inl _ \<Rightarrow> None
      | Inr com \<Rightarrow>
          (let current_round = max (com_starting_round com) 1 in
           Some (garbage_collect_certificates E current_round
             (update_current_round current_round
               \<lparr>st_current_height = 0, st_current_round = 0, st_gc_round = 0,
                st_max_gc_rounds = max_gc_rounds, st_rounds = [], st_certificates = [],
                st_batch_ids = [], st_transmissions = ts\<rparr>))))"

text \<open>The loop of \<open>sync_certificate_with_block\<close> over the transmission IDs.\<close>

fun sync_transmissions ::
  "'ts env \<Rightarrow> core_ledger \<Rightarrow> 'ts storage \<Rightarrow> block \<Rightarrow> (transaction_id, transaction) imap \<Rightarrow>
   transmission_id list \<Rightarrow> transmissions \<Rightarrow> transmission_id list \<Rightarrow> transmissions \<times> transmission_id list" where
  "sync_transmissions E L s b unconfirmed [] missing aborted = (missing, aborted)"
| "sync_transmissions E L s b unconfirmed (t # ts) missing aborted =
     (if imap_contains_key t missing then sync_transmissions E L s b unconfirmed ts missing aborted
      else if contains_transmission E s t then sync_transmissions E L s b unconfirmed ts missing aborted
      else case t of
        RatificationID \<Rightarrow> sync_transmissions E L s b unconfirmed ts missing aborted
      | SolutionID i _ \<Rightarrow>
          (case imap_get (blk_solutions b) i of
             Some x \<Rightarrow> sync_transmissions E L s b unconfirmed ts
                         (imap_insert t (Solution (Object x)) missing) aborted
           | None \<Rightarrow>
               (case get_solution L i of
                  Inr x \<Rightarrow> sync_transmissions E L s b unconfirmed ts
                             (imap_insert t (Solution (Object x)) missing) aborted
                | Inl _ \<Rightarrow> sync_transmissions E L s b unconfirmed ts missing
                    (if i \<in> set (blk_aborted_solution_ids b) \<or>
                        unwrap_or False (ledger_contains_transmission L t)
                     then iset_insert t aborted else aborted)))
      | TransactionID i _ \<Rightarrow>
          (case imap_get unconfirmed i of
             Some x \<Rightarrow> sync_transmissions E L s b unconfirmed ts
                         (imap_insert t (Transaction (Object x)) missing) aborted
           | None \<Rightarrow>
               (case get_unconfirmed_transaction L i of
                  Inr x \<Rightarrow> sync_transmissions E L s b unconfirmed ts
                             (imap_insert t (Transaction (Object x)) missing) aborted
                | Inl _ \<Rightarrow> sync_transmissions E L s b unconfirmed ts missing
                    (if i \<in> set (blk_aborted_transaction_ids b) \<or>
                        unwrap_or False (ledger_contains_transmission L t)
                     then iset_insert t aborted else aborted))))"

definition sync_certificate_with_block ::
  "'ts env \<Rightarrow> core_ledger \<Rightarrow> int \<Rightarrow> block \<Rightarrow> certificate \<Rightarrow> (transaction_id, transaction) imap \<Rightarrow>
   'ts storage \<Rightarrow> 'ts storage" where
  "sync_certificate_with_block E L now b c unconfirmed s =
     (if cert_round c \<le> st_gc_round s then s
      else if contains_certificate s (cert_id c) then s
      else (let (missing, aborted) =
              sync_transmissions E L s b unconfirmed (cert_transmission_ids c) [] []
            in case insert_certificate E L now s c missing aborted of
                 Inl _ \<Rightarrow> s
               | Inr s' \<Rightarrow> s'))"

end
