(* ===== verification/Dag.thy ===== *)
theory Dag
  imports Storage
begin

text \<open>
  The in-memory DAG of certificates (\<open>node/bft/src/helpers/dag.rs\<close>): the certificates not
  yet committed by round and author, the recently committed IDs by round, and the last
  committed round. The lemmas give the effect of insertion and commit on every lookup and
  show that a committed certificate does not come back.
\<close>

section \<open>State and operations\<close>

record dag =
  dag_graph :: "(nat, (address, certificate) imap) imap"
  dag_recent_committed_ids :: "(nat, field list) imap"
  dag_last_committed_round :: nat

definition dag_new :: dag where
  "dag_new = \<lparr>dag_graph = [], dag_recent_committed_ids = [], dag_last_committed_round = 0\<rparr>"

definition is_recently_committed :: "dag \<Rightarrow> nat \<Rightarrow> field \<Rightarrow> bool" where
  "is_recently_committed d r i =
     (case imap_get (dag_recent_committed_ids d) r of None \<Rightarrow> False | Some ids \<Rightarrow> i \<in> set ids)"

definition contains_certificate_in_round :: "dag \<Rightarrow> nat \<Rightarrow> field \<Rightarrow> bool" where
  "contains_certificate_in_round d r i =
     (case imap_get (dag_graph d) r of None \<Rightarrow> False | Some m \<Rightarrow> list_ex (\<lambda>(_, c). cert_id c = i) m)"

definition dag_get_certificate_for_round_with_author :: "dag \<Rightarrow> nat \<Rightarrow> address \<Rightarrow> certificate option" where
  "dag_get_certificate_for_round_with_author d r a =
     Option.bind (imap_get (dag_graph d) r) (\<lambda>m. imap_get m a)"

definition dag_get_certificate_for_round_with_id :: "dag \<Rightarrow> nat \<Rightarrow> field \<Rightarrow> certificate option" where
  "dag_get_certificate_for_round_with_id d r i =
     Option.bind (imap_get (dag_graph d) r) (\<lambda>m. find (\<lambda>c. cert_id c = i) (map snd m))"

definition dag_get_certificates_for_round :: "dag \<Rightarrow> nat \<Rightarrow> (address, certificate) imap option" where
  "dag_get_certificates_for_round d r = imap_get (dag_graph d) r"

definition dag_insert :: "certificate \<Rightarrow> dag \<Rightarrow> dag" where
  "dag_insert c d =
     (if \<not> is_recently_committed d (cert_round c) (cert_id c)
      then d\<lparr>dag_graph := btree_or_default (cert_round c) [] (imap_insert (cert_author c) c) (dag_graph d)\<rparr>
      else d)"

text \<open>The second \<open>retain\<close> of \<open>commit\<close>, whose closure also removes the author from the inner maps.\<close>

definition prune_author :: "nat \<Rightarrow> address \<Rightarrow> (nat, (address, certificate) imap) imap \<Rightarrow>
    (nat, (address, certificate) imap) imap" where
  "prune_author round author g =
     List.map_filter (\<lambda>(r, m).
       if r > round then Some (r, m)
       else (let m' = imap_shift_remove author m in if m' = [] then None else Some (r, m'))) g"

definition dag_commit :: "certificate \<Rightarrow> nat \<Rightarrow> dag \<Rightarrow> dag" where
  "dag_commit c max_gc_rounds d =
     (let last = max (dag_last_committed_round d) (cert_round c);
          recent = btree_or_default (cert_round c) [] (iset_insert (cert_id c)) (dag_recent_committed_ids d);
          keep = (\<lambda>r _. u64_add r max_gc_rounds > last)
      in d\<lparr>dag_recent_committed_ids := retain keep recent,
           dag_last_committed_round := last,
           dag_graph := prune_author (cert_round c) (cert_author c) (retain (\<lambda>r _. u64_add r max_gc_rounds > last) (dag_graph d))\<rparr>)"

section \<open>Well-formed DAGs\<close>

abbreviation vertex :: "dag \<Rightarrow> nat \<Rightarrow> address \<Rightarrow> certificate option" where
  "vertex \<equiv> dag_get_certificate_for_round_with_author"

definition dag_wf :: "dag \<Rightarrow> bool" where
  "dag_wf d \<longleftrightarrow> btree_wf (dag_graph d) \<and> btree_wf (dag_recent_committed_ids d) \<and>
     (\<forall>r m. map_of (dag_graph d) r = Some m \<longrightarrow> imap_wf m \<and> m \<noteq> [] \<and>
        (\<forall>a c. map_of m a = Some c \<longrightarrow> cert_round c = r \<and> cert_author c = a))"

lemma dag_wf_new: "dag_wf dag_new"
  by (simp add: dag_wf_def dag_new_def)

lemma vertex_iff: "vertex d r a = Some c \<longleftrightarrow> (\<exists>m. map_of (dag_graph d) r = Some m \<and> map_of m a = Some c)"
  by (auto simp: dag_get_certificate_for_round_with_author_def bind_eq_Some_conv)

lemma vertex_round_author:
  "dag_wf d \<Longrightarrow> vertex d r a = Some c \<Longrightarrow> cert_round c = r \<and> cert_author c = a"
  by (auto simp: vertex_iff dag_wf_def)

lemma contains_iff_vertex:
  assumes "dag_wf d"
  shows "contains_certificate_in_round d r i \<longleftrightarrow> (\<exists>a c. vertex d r a = Some c \<and> cert_id c = i)"
proof (cases "map_of (dag_graph d) r")
  case (Some m)
  then have "imap_wf m" using assms by (simp add: dag_wf_def)
  then show ?thesis
    using Some by (auto simp: contains_certificate_in_round_def vertex_iff list_ex_iff map_of_eq_Some_iff)
qed (simp add: contains_certificate_in_round_def vertex_iff)

lemma with_id_SomeD:
  assumes "dag_wf d" "dag_get_certificate_for_round_with_id d r i = Some c"
  shows "cert_id c = i \<and> vertex d r (cert_author c) = Some c"
proof -
  from assms(2) obtain m where m: "map_of (dag_graph d) r = Some m"
    and f: "find (\<lambda>c. cert_id c = i) (map snd m) = Some c"
    by (auto simp: dag_get_certificate_for_round_with_id_def bind_eq_Some_conv)
  have wf: "imap_wf m" "\<And>a c. map_of m a = Some c \<Longrightarrow> cert_author c = a"
    using assms(1) m by (auto simp: dag_wf_def)
  obtain a where "map_of m a = Some c" "cert_id c = i"
    using find_SomeD [OF f] wf(1) by (auto simp: map_of_eq_Some_iff)
  then show ?thesis using m wf(2) by (auto simp: vertex_iff)
qed

lemma with_id_ex:
  assumes "dag_wf d" "vertex d r a = Some c"
  shows "\<exists>c'. dag_get_certificate_for_round_with_id d r (cert_id c) = Some c'"
proof -
  obtain m where m: "map_of (dag_graph d) r = Some m" "map_of m a = Some c"
    using assms(2) by (auto simp: vertex_iff)
  then have "c \<in> set (map snd m)" by (force dest: map_of_SomeD)
  then show ?thesis
    using find_ex [of c "map snd m" "\<lambda>x. cert_id x = cert_id c"] m(1)
    by (simp add: dag_get_certificate_for_round_with_id_def)
qed

section \<open>Insertion\<close>

lemma vertex_insert:
  "vertex (dag_insert c d) r a =
     (if \<not> is_recently_committed d (cert_round c) (cert_id c) \<and> r = cert_round c \<and> a = cert_author c
      then Some c else vertex d r a)"
  by (auto simp: dag_insert_def dag_get_certificate_for_round_with_author_def split: option.splits)

lemma dag_wf_insert: "dag_wf d \<Longrightarrow> dag_wf (dag_insert c d)"
  by (auto simp: dag_wf_def dag_insert_def split: if_splits option.splits)

lemma insert_frame [simp]:
  "is_recently_committed (dag_insert c d) = is_recently_committed d"
  "dag_last_committed_round (dag_insert c d) = dag_last_committed_round d"
  by (auto simp: dag_insert_def is_recently_committed_def fun_eq_iff)

section \<open>Commit\<close>

lemma prune_author_simps [simp]:
  "prune_author round author [] = []"
  "prune_author round author ((r, m) # g) =
     (if r > round then (r, m) # prune_author round author g
      else if AList.delete author m = [] then prune_author round author g
      else (r, AList.delete author m) # prune_author round author g)"
  by (simp_all add: prune_author_def List.map_filter_def Let_def)

lemma map_of_prune_author:
  assumes "imap_wf g"
  shows "map_of (prune_author round author g) r =
    (case map_of g r of
       None \<Rightarrow> None
     | Some m \<Rightarrow> if r > round then Some m
                else if AList.delete author m = [] then None else Some (AList.delete author m))"
  using assms
proof (induction g)
  case (Cons p g)
  obtain q m where p: "p = (q, m)" by fastforce
  have "map_of g q = None" using Cons.prems p by (auto simp: map_of_eq_None_iff)
  then show ?case
    using Cons p by auto
qed simp

lemma prune_author_keys: "p \<in> set (prune_author round author g) \<Longrightarrow> fst p \<in> fst ` set g"
  by (induction g) (auto split: if_splits)

lemma btree_wf_prune_author: "btree_wf g \<Longrightarrow> btree_wf (prune_author round author g)"
proof (induction g)
  case (Cons p g)
  obtain r m where p: "p = (r, m)" by fastforce
  have "\<forall>q \<in> set (prune_author round author g). r < fst q"
    using Cons.prems by (auto simp: p dest!: prune_author_keys)
  then show ?case
    using Cons by (auto simp: p)
qed simp

lemma delete_Nil_lookup: "AList.delete k m = [] \<Longrightarrow> x \<noteq> k \<Longrightarrow> map_of m x = None"
  using map_of_delete [of k m] by (metis fun_upd_other map_of.simps(1))

lemma vertex_commit:
  assumes wf: "dag_wf d"
  shows "vertex (dag_commit c g d) r a =
    (if u64_add r g > max (dag_last_committed_round d) (cert_round c) \<and>
        \<not> (r \<le> cert_round c \<and> a = cert_author c)
     then vertex d r a else None)"
proof -
  have g: "imap_wf (dag_graph d)" using wf by (simp add: dag_wf_def btree_wf_distinct)
  let ?keep = "\<lambda>r (_ :: (address, certificate) imap). u64_add r g > max (dag_last_committed_round d) (cert_round c)"
  have "imap_wf (retain ?keep (dag_graph d))"
    using wf by (simp add: dag_wf_def btree_wf_distinct)
  then show ?thesis
    using g
    by (auto simp: dag_commit_def Let_def dag_get_certificate_for_round_with_author_def
        map_of_prune_author delete_Nil_lookup split: option.splits)
qed

lemma last_committed_commit [simp]:
  "dag_last_committed_round (dag_commit c g d) = max (dag_last_committed_round d) (cert_round c)"
  by (simp add: dag_commit_def Let_def)

lemma recently_committed_commit:
  assumes "dag_wf d"
  shows "is_recently_committed (dag_commit c g d) r i \<longleftrightarrow>
    u64_add r g > max (dag_last_committed_round d) (cert_round c) \<and>
    (is_recently_committed d r i \<or> r = cert_round c \<and> i = cert_id c)"
proof -
  let ?m = "btree_or_default (cert_round c) [] (iset_insert (cert_id c)) (dag_recent_committed_ids d)"
  have "imap_wf ?m" using assms by (simp add: dag_wf_def btree_wf_distinct)
  then show ?thesis
    by (auto simp: is_recently_committed_def dag_commit_def Let_def split: option.splits)
qed

lemma dag_wf_commit:
  assumes wf: "dag_wf d"
  shows "dag_wf (dag_commit c g d)"
proof -
  have g: "imap_wf (dag_graph d)" using wf by (simp add: dag_wf_def btree_wf_distinct)
  let ?keep = "\<lambda>r (_ :: (address, certificate) imap). u64_add r g > max (dag_last_committed_round d) (cert_round c)"
  have r: "btree_wf (retain ?keep (dag_graph d))" using wf by (simp add: dag_wf_def)
  have "imap_wf m \<and> m \<noteq> [] \<and> (\<forall>a c. map_of m a = Some c \<longrightarrow> cert_round c = r \<and> cert_author c = a)"
    if "map_of (dag_graph (dag_commit c g d)) r = Some m" for r m
  proof -
    from that obtain m0 where m0: "map_of (dag_graph d) r = Some m0"
      "m = m0 \<or> m = AList.delete (cert_author c) m0 \<and> m \<noteq> []"
      using g by (auto simp: dag_commit_def Let_def map_of_prune_author
          split: option.splits if_splits)
    moreover have "imap_wf m0" "m0 \<noteq> []" "\<And>a c. map_of m0 a = Some c \<Longrightarrow> cert_round c = r \<and> cert_author c = a"
      using wf m0(1) unfolding dag_wf_def by blast+
    ultimately show ?thesis
      by (auto simp: distinct_delete split: if_splits)
  qed
  moreover have "btree_wf (dag_graph (dag_commit c g d))" "btree_wf (dag_recent_committed_ids (dag_commit c g d))"
    using wf r by (simp_all add: dag_wf_def dag_commit_def Let_def btree_wf_prune_author)
  ultimately show ?thesis
    unfolding dag_wf_def by blast
qed

section \<open>Properties\<close>

text \<open>Inserting a certificate makes it the certificate of its round and author and changes no
  other entry, unless it was recently committed, in which case the DAG stays as it is.\<close>

theorem dag_insert_lookup:
  "dag_get_certificate_for_round_with_author (dag_insert c d) r a =
     (if \<not> is_recently_committed d (cert_round c) (cert_id c) \<and> r = cert_round c \<and> a = cert_author c
      then Some c else dag_get_certificate_for_round_with_author d r a)"
  by (rule vertex_insert)

text \<open>Committing a certificate removes from the DAG every certificate of its author at or below
  its round and every round that falls out of the garbage collection window, and nothing
  else; the same window applies to the recently committed IDs, which now include it.\<close>

theorem dag_commit_effect:
  assumes "dag_wf d"
  shows "dag_get_certificate_for_round_with_author (dag_commit c g d) r a =
      (if u64_add r g > max (dag_last_committed_round d) (cert_round c) \<and>
          \<not> (r \<le> cert_round c \<and> a = cert_author c)
       then dag_get_certificate_for_round_with_author d r a else None) \<and>
    (is_recently_committed (dag_commit c g d) r i \<longleftrightarrow>
       u64_add r g > max (dag_last_committed_round d) (cert_round c) \<and>
       (is_recently_committed d r i \<or> r = cert_round c \<and> i = cert_id c)) \<and>
    dag_wf (dag_commit c g d)"
  using vertex_commit [OF assms] recently_committed_commit [OF assms] dag_wf_commit [OF assms] by simp

definition sample_dag :: dag where
  "sample_dag = dag_insert (sample_cert 1 2 [] []) (dag_insert (sample_cert 1 1 [] []) dag_new)"

theorem dag_commit_effect_witness:
  "dag_get_certificate_for_round_with_author (dag_commit (sample_cert 1 1 [] []) 50 sample_dag) 1 1 = None \<and>
   dag_get_certificate_for_round_with_author (dag_commit (sample_cert 1 1 [] []) 50 sample_dag) 1 2 =
     Some (sample_cert 1 2 [] []) \<and>
   is_recently_committed (dag_commit (sample_cert 1 1 [] []) 50 sample_dag) 1 11"
proof -
  have wf: "dag_wf sample_dag" by (simp add: sample_dag_def dag_wf_insert dag_wf_new)
  have "vertex sample_dag 1 2 = Some (sample_cert 1 2 [] [])"
    by (simp add: sample_dag_def vertex_insert sample_cert_def sample_header_def is_recently_committed_def
        dag_new_def)
  moreover have "dag_last_committed_round sample_dag = 0" by (simp add: sample_dag_def dag_new_def)
  ultimately show ?thesis
    using dag_commit_effect [OF wf, of "sample_cert 1 1 [] []" 50 1 1 11]
      dag_commit_effect [OF wf, of "sample_cert 1 1 [] []" 50 1 2 11]
    by (simp add: sample_cert_def sample_header_def)
qed

end
