(* ===== verification/Ready.thy ===== *)
theory Ready
  imports Samples
begin

unbundle bit_operations_syntax

text \<open>
  The ready queue of a worker (\<open>node/bft/src/helpers/ready.rs\<close>): a double-ended queue of
  transmissions with an index from transmission IDs to logical positions. A logical
  position is the physical one plus an \<open>i64\<close> offset that moves when the front moves; the
  additions wrap, so positions and offset are 64-bit words here and the lookup reads
  \<open>(index - offset) as usize\<close>. The locale states what a client sees: a sequence of
  transmissions with distinct IDs. The interpretation shows that the index and the offset
  never get out of step with the queue.
\<close>

section \<open>State and operations\<close>

record ready =
  rq_transmission_ids :: "(transmission_id, 64 word) imap"
  rq_transmissions :: "(transmission_id \<times> transmission) list"
  rq_offset :: "64 word"

definition ready_new :: ready where
  "ready_new = \<lparr>rq_transmission_ids = [], rq_transmissions = [], rq_offset = 0\<rparr>"

definition ready_is_empty :: "ready \<Rightarrow> bool" where
  "ready_is_empty q \<longleftrightarrow> rq_transmissions q = []"

definition num_transmissions :: "ready \<Rightarrow> nat" where
  "num_transmissions q = length (rq_transmissions q)"

definition num_ratifications :: "ready \<Rightarrow> nat" where
  "num_ratifications q =
     length (filter (\<lambda>t. case t of RatificationID \<Rightarrow> True | _ \<Rightarrow> False) (imap_keys (rq_transmission_ids q)))"

definition num_solutions :: "ready \<Rightarrow> nat" where
  "num_solutions q =
     length (filter (\<lambda>t. case t of SolutionID _ _ \<Rightarrow> True | _ \<Rightarrow> False) (imap_keys (rq_transmission_ids q)))"

definition num_transactions :: "ready \<Rightarrow> nat" where
  "num_transactions q =
     length (filter (\<lambda>t. case t of TransactionID _ _ \<Rightarrow> True | _ \<Rightarrow> False) (imap_keys (rq_transmission_ids q)))"

definition ready_transmission_ids :: "ready \<Rightarrow> transmission_id list" where
  "ready_transmission_ids q = imap_keys (rq_transmission_ids q)"

definition ready_transmissions :: "ready \<Rightarrow> (transmission_id, transmission) imap" where
  "ready_transmissions q = fold (\<lambda>(t, x) m. imap_insert t x m) (rq_transmissions q) []"

definition ready_solutions :: "ready \<Rightarrow> (solution_id \<times> solution data) list" where
  "ready_solutions q =
     List.map_filter (\<lambda>p. case p of (SolutionID i _, Solution d) \<Rightarrow> Some (i, d) | _ \<Rightarrow> None) (rq_transmissions q)"

definition ready_transactions :: "ready \<Rightarrow> (transaction_id \<times> transaction data) list" where
  "ready_transactions q =
     List.map_filter (\<lambda>p. case p of (TransactionID i _, Transaction d) \<Rightarrow> Some (i, d) | _ \<Rightarrow> None) (rq_transmissions q)"

definition ready_contains :: "ready \<Rightarrow> transmission_id \<Rightarrow> bool" where
  "ready_contains q t = imap_contains_key t (rq_transmission_ids q)"

definition ready_get :: "ready \<Rightarrow> transmission_id \<Rightarrow> transmission option" where
  "ready_get q t =
     (case imap_get (rq_transmission_ids q) t of
        None \<Rightarrow> None
      | Some index \<Rightarrow>
          (let i = unat (index - rq_offset q)
           in if i < length (rq_transmissions q) then Some (snd (rq_transmissions q ! i)) else None))"

definition ready_insert :: "transmission_id \<Rightarrow> transmission \<Rightarrow> ready \<Rightarrow> bool \<times> ready" where
  "ready_insert t x q =
     (if imap_contains_key t (rq_transmission_ids q) then (False, q)
      else (True, q\<lparr>rq_transmission_ids :=
                       imap_insert t (of_nat (length (rq_transmissions q)) + rq_offset q) (rq_transmission_ids q),
                     rq_transmissions := rq_transmissions q @ [(t, x)]\<rparr>))"

definition ready_insert_front :: "transmission_id \<Rightarrow> transmission \<Rightarrow> ready \<Rightarrow> bool \<times> ready" where
  "ready_insert_front t x q =
     (if imap_contains_key t (rq_transmission_ids q) then (False, q)
      else (True, q\<lparr>rq_offset := rq_offset q - 1,
                     rq_transmission_ids := imap_insert t (rq_offset q - 1) (rq_transmission_ids q),
                     rq_transmissions := (t, x) # rq_transmissions q\<rparr>))"

definition ready_remove_front :: "ready \<Rightarrow> (transmission_id \<times> transmission) option \<times> ready" where
  "ready_remove_front q =
     (case rq_transmissions q of
        [] \<Rightarrow> (None, q)
      | (t, x) # rest \<Rightarrow>
          (let ids = imap_shift_remove t (rq_transmission_ids q)
           in (Some (t, x),
               q\<lparr>rq_transmissions := rest, rq_transmission_ids := ids,
                 rq_offset := (if ids = [] then 0 else rq_offset q + 1)\<rparr>)))"

definition is_solution :: "transmission \<Rightarrow> bool" where
  "is_solution x = (case x of Solution _ \<Rightarrow> True | _ \<Rightarrow> False)"

definition ready_clear_solutions :: "ready \<Rightarrow> ready" where
  "ready_clear_solutions q =
     (let kept = filter (\<lambda>(_, x). \<not> is_solution x) (rq_transmissions q)
      in q\<lparr>rq_transmissions := kept, rq_offset := 0,
           rq_transmission_ids :=
             fold (\<lambda>(i, (t, _)) m. imap_insert t (of_nat i) m) (List.enumerate 0 kept) []\<rparr>)"

section \<open>The interface\<close>

text \<open>A queue of transmissions with distinct IDs, of less than \<open>2 ^ 64\<close> elements.\<close>

locale ready_queue =
  fixes contains :: "'q \<Rightarrow> transmission_id \<Rightarrow> bool"
    and get :: "'q \<Rightarrow> transmission_id \<Rightarrow> transmission option"
    and insert_back :: "transmission_id \<Rightarrow> transmission \<Rightarrow> 'q \<Rightarrow> bool \<times> 'q"
    and insert_front :: "transmission_id \<Rightarrow> transmission \<Rightarrow> 'q \<Rightarrow> bool \<times> 'q"
    and remove_front :: "'q \<Rightarrow> (transmission_id \<times> transmission) option \<times> 'q"
    and clear_solutions :: "'q \<Rightarrow> 'q"
    and items :: "'q \<Rightarrow> (transmission_id \<times> transmission) list"
    and invar :: "'q \<Rightarrow> bool"
  assumes invar_distinct: "invar q \<Longrightarrow> distinct (map fst (items q))"
    and contains_iff: "invar q \<Longrightarrow> contains q t \<longleftrightarrow> t \<in> fst ` set (items q)"
    and get_iff: "invar q \<Longrightarrow> get q t = map_of (items q) t"
    and insert_back: "invar q \<Longrightarrow> Suc (length (items q)) < 2 ^ 64 \<Longrightarrow> insert_back t x q = (new, q') \<Longrightarrow>
      invar q' \<and> new = (t \<notin> fst ` set (items q)) \<and>
      items q' = (if t \<in> fst ` set (items q) then items q else items q @ [(t, x)])"
    and insert_front: "invar q \<Longrightarrow> Suc (length (items q)) < 2 ^ 64 \<Longrightarrow> insert_front t x q = (new, q') \<Longrightarrow>
      invar q' \<and> new = (t \<notin> fst ` set (items q)) \<and>
      items q' = (if t \<in> fst ` set (items q) then items q else (t, x) # items q)"
    and remove_front: "invar q \<Longrightarrow> remove_front q = (e, q') \<Longrightarrow>
      invar q' \<and> e = (if items q = [] then None else Some (hd (items q))) \<and> items q' = tl (items q)"
    and clear_solutions: "invar q \<Longrightarrow>
      invar (clear_solutions q) \<and> items (clear_solutions q) = filter (\<lambda>(_, x). \<not> is_solution x) (items q)"
begin

text \<open>What was put at the front comes out next, and leaves the queue as it was.\<close>

lemma front_round_trip:
  assumes "invar q" "Suc (length (items q)) < 2 ^ 64" "\<not> contains q t"
  shows "fst (remove_front (snd (insert_front t x q))) = Some (t, x) \<and>
    items (snd (remove_front (snd (insert_front t x q)))) = items q"
proof -
  obtain new q1 where q1: "insert_front t x q = (new, q1)" by fastforce
  obtain e q2 where q2: "remove_front q1 = (e, q2)" by fastforce
  note I = insert_front [OF assms(1,2) q1]
  show ?thesis
    using I remove_front [OF conjunct1 [OF I] q2] assms(3) by (auto simp: q1 q2 contains_iff [OF assms(1)])
qed

lemma back_lookup:
  assumes "invar q" "Suc (length (items q)) < 2 ^ 64"
  shows "get (snd (insert_back t x q)) u =
    (if u = t \<and> \<not> contains q t then Some x else get q u)"
proof -
  obtain new q1 where q1: "insert_back t x q = (new, q1)" by fastforce
  note I = insert_back [OF assms q1]
  have "map_of (items q @ [(t, x)]) u = (if u = t then Some x else map_of (items q) u)"
    if "t \<notin> fst ` set (items q)"
    using map_of_eq_None_iff [of "items q" t] that by (auto simp: map_add_def split: option.splits)
  then show ?thesis
    using I by (auto simp: q1 get_iff assms(1) contains_iff simp del: map_of_append)
qed

end

section \<open>The queue keeps its index\<close>

definition ready_wf :: "ready \<Rightarrow> bool" where
  "ready_wf q \<longleftrightarrow> imap_wf (rq_transmission_ids q) \<and> distinct (map fst (rq_transmissions q)) \<and>
     length (rq_transmissions q) < 2 ^ 64 \<and>
     (\<forall>t index. map_of (rq_transmission_ids q) t = Some index \<longleftrightarrow>
        (\<exists>k < length (rq_transmissions q). fst (rq_transmissions q ! k) = t \<and> index = of_nat k + rq_offset q))"

lemma ready_wfD:
  assumes "ready_wf q"
  shows "imap_wf (rq_transmission_ids q)" "distinct (map fst (rq_transmissions q))"
    "length (rq_transmissions q) < 2 ^ 64"
    "map_of (rq_transmission_ids q) t = Some index \<longleftrightarrow>
      (\<exists>k < length (rq_transmissions q). fst (rq_transmissions q ! k) = t \<and> index = of_nat k + rq_offset q)"
  using assms unfolding ready_wf_def by blast+

lemma ready_wf_keys:
  assumes "ready_wf q"
  shows "map_of (rq_transmission_ids q) t = None \<longleftrightarrow> t \<notin> fst ` set (rq_transmissions q)"
proof -
  have "t \<in> fst ` set (rq_transmissions q) \<longleftrightarrow> (\<exists>k < length (rq_transmissions q). fst (rq_transmissions q ! k) = t)"
    by (metis (no_types) image_iff in_set_conv_nth)
  then show ?thesis
    using ready_wfD(4) [OF assms, of t] by (metis not_None_eq option.discI)
qed

lemma ready_get_wf:
  assumes "ready_wf q"
  shows "ready_get q t = map_of (rq_transmissions q) t"
proof (cases "map_of (rq_transmission_ids q) t")
  case None
  then have "map_of (rq_transmissions q) t = None"
    using ready_wf_keys [OF assms, of t] map_of_eq_None_iff [of "rq_transmissions q" t] by blast
  then show ?thesis using None by (simp add: ready_get_def)
next
  case (Some index)
  then obtain k where k: "k < length (rq_transmissions q)" "fst (rq_transmissions q ! k) = t"
    "index = of_nat k + rq_offset q"
    using ready_wfD(4) [OF assms] by blast
  have "unat (of_nat k :: 64 word) = k"
    using k(1) ready_wfD(3) [OF assms] by (simp add: unat_of_nat take_bit_nat_eq_self)
  moreover have "map_of (rq_transmissions q) t = Some (snd (rq_transmissions q ! k))"
    using k(1,2) ready_wfD(2) [OF assms] by (metis map_of_eq_Some_iff nth_mem prod.collapse)
  ultimately show ?thesis
    using Some k(1,3) by (simp add: ready_get_def)
qed

lemma ready_wf_insert:
  assumes wf: "ready_wf q" and len: "Suc (length (rq_transmissions q)) < 2 ^ 64"
    and ins: "ready_insert t x q = (new, q')"
  shows "ready_wf q' \<and> new = (t \<notin> fst ` set (rq_transmissions q)) \<and> rq_transmissions q' =
    (if t \<in> fst ` set (rq_transmissions q) then rq_transmissions q else rq_transmissions q @ [(t, x)])"
proof (cases "t \<in> fst ` set (rq_transmissions q)")
  case True
  then have "map_of (rq_transmission_ids q) t \<noteq> None" using ready_wf_keys [OF wf] by blast
  then show ?thesis
    using ins wf True by (simp add: ready_insert_def imap_contains_key_def del: imap_contains_key_iff)
next
  case False
  let ?xs = "rq_transmissions q"
  have none: "map_of (rq_transmission_ids q) t = None" using False ready_wf_keys [OF wf] by blast
  have q': "new" "rq_transmissions q' = ?xs @ [(t, x)]" "rq_offset q' = rq_offset q"
    "rq_transmission_ids q' = AList.update t (of_nat (length ?xs) + rq_offset q) (rq_transmission_ids q)"
    using ins none by (auto simp: ready_insert_def imap_contains_key_def simp del: imap_contains_key_iff)
  have "map_of (rq_transmission_ids q') u = Some index \<longleftrightarrow>
      (\<exists>k < length (?xs @ [(t, x)]). fst ((?xs @ [(t, x)]) ! k) = u \<and> index = of_nat k + rq_offset q')" for u index
  proof (cases "u = t")
    case True
    have "fst (?xs ! k) \<noteq> t" if "k < length ?xs" for k using False that by (metis image_eqI nth_mem)
    then show ?thesis using True by (auto simp: q' nth_append less_Suc_eq)
  next
    case neq: False
    then show ?thesis
      using ready_wfD(4) [OF wf, of u index] by (auto simp: q' nth_append less_Suc_eq)
  qed
  then show ?thesis
    using q'(1) False len ready_wfD(1,2) [OF wf] by (simp add: ready_wf_def q'(2,4))
qed

lemma ready_wf_insert_front:
  assumes wf: "ready_wf q" and len: "Suc (length (rq_transmissions q)) < 2 ^ 64"
    and ins: "ready_insert_front t x q = (new, q')"
  shows "ready_wf q' \<and> new = (t \<notin> fst ` set (rq_transmissions q)) \<and> rq_transmissions q' =
    (if t \<in> fst ` set (rq_transmissions q) then rq_transmissions q else (t, x) # rq_transmissions q)"
proof (cases "t \<in> fst ` set (rq_transmissions q)")
  case True
  then have "map_of (rq_transmission_ids q) t \<noteq> None" using ready_wf_keys [OF wf] by blast
  then show ?thesis
    using ins wf True by (simp add: ready_insert_front_def imap_contains_key_def del: imap_contains_key_iff)
next
  case False
  let ?xs = "rq_transmissions q"
  have none: "map_of (rq_transmission_ids q) t = None" using False ready_wf_keys [OF wf] by blast
  have q': "new" "rq_transmissions q' = (t, x) # ?xs" "rq_offset q' = rq_offset q - 1"
    "rq_transmission_ids q' = AList.update t (rq_offset q - 1) (rq_transmission_ids q)"
    using ins none by (auto simp: ready_insert_front_def imap_contains_key_def simp del: imap_contains_key_iff)
  have shift: "(\<exists>k < length ((t, x) # ?xs). fst (((t, x) # ?xs) ! k) = u \<and> index = of_nat k + rq_offset q') \<longleftrightarrow>
      (u = t \<and> index = rq_offset q - 1) \<or>
      (\<exists>k < length ?xs. fst (?xs ! k) = u \<and> index = of_nat k + rq_offset q)" for u index
    by (auto simp: Ex_less_Suc2 q'(3))
  have "map_of (rq_transmission_ids q') u = Some index \<longleftrightarrow>
      (\<exists>k < length ((t, x) # ?xs). fst (((t, x) # ?xs) ! k) = u \<and> index = of_nat k + rq_offset q')" for u index
    unfolding shift
    using ready_wfD(4) [OF wf, of u index] none by (auto simp: q'(4))
  then show ?thesis
    using q'(1) False len ready_wfD(1,2) [OF wf] by (simp add: ready_wf_def q'(2,4))
qed

lemma ready_wf_remove_front:
  assumes wf: "ready_wf q" and rem: "ready_remove_front q = (e, q')"
  shows "ready_wf q' \<and> e = (if rq_transmissions q = [] then None else Some (hd (rq_transmissions q))) \<and>
    rq_transmissions q' = tl (rq_transmissions q)"
proof (cases "rq_transmissions q")
  case Nil
  then show ?thesis using rem wf by (simp add: ready_remove_front_def)
next
  case (Cons p rest)
  obtain t x where p: "p = (t, x)" by fastforce
  let ?ids = "AList.delete t (rq_transmission_ids q)"
  have q': "e = Some p" "rq_transmissions q' = rest" "rq_transmission_ids q' = ?ids"
    "rq_offset q' = (if ?ids = [] then 0 else rq_offset q + 1)"
    using rem Cons p by (auto simp: ready_remove_front_def Let_def)
  have old: "map_of (rq_transmission_ids q) u = Some index \<longleftrightarrow>
      (u = t \<and> index = rq_offset q) \<or> (\<exists>k < length rest. fst (rest ! k) = u \<and> index = of_nat k + (rq_offset q + 1))"
    for u index
    using ready_wfD(4) [OF wf, of u index] unfolding Cons p by (auto simp: Ex_less_Suc2 add.assoc)
  have fresh: "fst (rest ! k) \<noteq> t" if "k < length rest" for k
    using ready_wfD(2) [OF wf] that by (auto simp: Cons p)
  have "map_of ?ids u = Some index \<longleftrightarrow>
      (\<exists>k < length rest. fst (rest ! k) = u \<and> index = of_nat k + (rq_offset q + 1))" for u index
    using old [of u index] fresh by auto
  moreover have "rest = []" if "?ids = []"
  proof (rule ccontr)
    assume "rest \<noteq> []"
    then have "\<exists>k < length rest. fst (rest ! k) = fst (rest ! 0) \<and> rq_offset q + 1 = of_nat k + (rq_offset q + 1)"
      by (intro exI [of _ 0]) simp
    then show False using calculation [of "fst (rest ! 0)" "rq_offset q + 1"] that by simp
  qed
  ultimately have "map_of (rq_transmission_ids q') u = Some index \<longleftrightarrow>
      (\<exists>k < length rest. fst (rest ! k) = u \<and> index = of_nat k + rq_offset q')" for u index
    by (auto simp: q')
  then show ?thesis
    using q'(1) ready_wfD(1-3) [OF wf] by (simp add: ready_wf_def q'(2,3) Cons p)
qed

lemma index_fold:
  assumes "distinct (map fst xs)"
  shows "map_of (fold (\<lambda>(i, (t, _)) m. imap_insert t (of_nat i :: 64 word) m) (List.enumerate n xs) m) u = Some index \<longleftrightarrow>
    (\<exists>k < length xs. fst (xs ! k) = u \<and> index = of_nat (n + k)) \<or> u \<notin> fst ` set xs \<and> map_of m u = Some index"
  using assms
proof (induction xs arbitrary: n m)
  case (Cons p xs)
  obtain t x where p: "p = (t, x)" by fastforce
  have "fst (xs ! k) \<noteq> t" if "k < length xs" for k
    using Cons.prems that by (auto simp: p)
  moreover have "(u \<in> fst ` set xs) = (\<exists>k < length xs. fst (xs ! k) = u)"
    by (metis (no_types) image_iff in_set_conv_nth)
  ultimately show ?case
    using Cons.IH [of "Suc n" "imap_insert t (of_nat n) m"] Cons.prems
    by (auto simp: p Ex_less_Suc2 simp del: of_nat_add of_nat_Suc)
qed simp

lemma imap_wf_index_fold:
  "imap_wf m \<Longrightarrow> imap_wf (fold (\<lambda>(i, (t, _)) m. imap_insert t (of_nat i :: 64 word) m) xs m)"
  by (induction xs arbitrary: m) auto

lemma ready_wf_clear_solutions:
  assumes wf: "ready_wf q"
  shows "ready_wf (ready_clear_solutions q) \<and>
    rq_transmissions (ready_clear_solutions q) = filter (\<lambda>(_, x). \<not> is_solution x) (rq_transmissions q)"
proof -
  let ?xs = "filter (\<lambda>(_, x). \<not> is_solution x) (rq_transmissions q)"
  have d: "distinct (map fst ?xs)" using ready_wfD(2) [OF wf] by (simp add: distinct_map_filter)
  have "length ?xs < 2 ^ 64"
    by (rule le_less_trans [OF length_filter_le ready_wfD(3) [OF wf]])
  then show ?thesis
    using d index_fold [OF d, of 0 "[]"] by (simp add: ready_wf_def ready_clear_solutions_def Let_def imap_wf_index_fold)
qed

lemma ready_wf_new: "ready_wf ready_new"
  by (simp add: ready_wf_def ready_new_def)

interpretation rq: ready_queue ready_contains ready_get ready_insert ready_insert_front ready_remove_front
  ready_clear_solutions rq_transmissions ready_wf
proof (unfold_locales, goal_cases)
  case (1 q)
  then show ?case by (rule ready_wfD(2))
next
  case (2 q t)
  then show ?case
    using ready_wf_keys [of q t] by (auto simp: ready_contains_def imap_contains_key_def simp del: imap_contains_key_iff)
next
  case (3 q t)
  then show ?case by (rule ready_get_wf)
next
  case (4 q t x new q')
  then show ?case by (rule ready_wf_insert)
next
  case (5 q t x new q')
  then show ?case by (rule ready_wf_insert_front)
next
  case (6 q e q')
  then show ?case by (rule ready_wf_remove_front)
next
  case (7 q)
  then show ?case by (rule ready_wf_clear_solutions)
qed

section \<open>Properties\<close>

text \<open>Through the index and the wrapping offset, a lookup returns exactly the transmission that
  is in the queue under that ID, and the queue reports an ID as present exactly when it is.\<close>

theorem ready_lookup_exact:
  assumes "ready_wf q"
  shows "ready_get q t = map_of (rq_transmissions q) t \<and>
    (ready_contains q t \<longleftrightarrow> t \<in> fst ` set (rq_transmissions q))"
  using rq.get_iff [OF assms] rq.contains_iff [OF assms] by blast

text \<open>A transmission put at the front of the ready queue is the next one taken, and taking it
  leaves the queue with the transmissions it had before, each still found under its ID.\<close>

theorem ready_front_round_trip:
  assumes "ready_wf q" "Suc (num_transmissions q) < 2 ^ 64" "\<not> ready_contains q t"
  shows "fst (ready_remove_front (snd (ready_insert_front t x q))) = Some (t, x) \<and>
    ready_get (snd (ready_remove_front (snd (ready_insert_front t x q)))) u = ready_get q u"
proof -
  let ?q1 = "snd (ready_insert_front t x q)"
  have len: "Suc (length (rq_transmissions q)) < 2 ^ 64" using assms(2) by (simp add: num_transmissions_def)
  have "ready_wf ?q1" using ready_wf_insert_front [OF assms(1) len surjective_pairing] by blast
  then have "ready_wf (snd (ready_remove_front ?q1))" using ready_wf_remove_front [OF _ surjective_pairing] by blast
  then show ?thesis
    using rq.front_round_trip [OF assms(1) len assms(3), of x] by (simp add: rq.get_iff assms(1))
qed

definition sample_ready :: ready where
  "sample_ready = snd (ready_insert (TransactionID 2 0) Ratification
     (snd (ready_insert (TransactionID 1 0) Ratification ready_new)))"

lemma sample_ready_wf: "ready_wf sample_ready"
proof -
  have "ready_wf (snd (ready_insert (TransactionID 1 0) Ratification ready_new))"
    using ready_wf_insert [OF ready_wf_new _ surjective_pairing] by (simp add: ready_new_def)
  then show ?thesis
    unfolding sample_ready_def
    by (rule ready_wf_insert [OF _ _ surjective_pairing, THEN conjunct1]) (simp add: ready_insert_def ready_new_def)
qed

theorem ready_lookup_exact_witness: "ready_get sample_ready (TransactionID 2 0) = Some Ratification"
  using ready_lookup_exact [OF sample_ready_wf, of "TransactionID 2 0"]
  by (simp add: sample_ready_def ready_insert_def ready_new_def)

theorem ready_front_round_trip_witness:
  "fst (ready_remove_front (snd (ready_insert_front (TransactionID 3 0) Ratification sample_ready))) =
     Some (TransactionID 3 0, Ratification)"
  using ready_front_round_trip [OF sample_ready_wf, of "TransactionID 3 0" Ratification "TransactionID 3 0"]
  by (simp add: num_transmissions_def sample_ready_def ready_contains_def ready_insert_def ready_new_def)

end
