(* ===== verification/Proposal.thy ===== *)
theory Proposal
  imports Samples
begin

text \<open>
  The pending proposal of the primary (\<open>node/bft/src/helpers/proposal.rs\<close>), the recently
  signed proposals (\<open>signed_proposals.rs\<close>) and the proposal cache that keeps both over a
  restart (\<open>proposal_cache.rs\<close>), with their byte formats. How snarkVM writes and reads its
  own types and the machine integers is a parameter, a \<open>codec\<close> for each; the round trips
  assume that each codec reads back what it wrote and leaves the rest of the input.
\<close>

section \<open>Proposals\<close>

record proposal =
  pr_batch_header :: batch_header
  pr_transmissions :: "(transmission_id, transmission) imap"
  pr_signatures :: "signature list"

datatype proposal_error =
    BatchBeforeCommittee
  | AuthorNotMember
  | TransmissionIdsMismatch
  | NonCommitteeSigner address
  | DuplicateSigner address
  | BadSignature
  | QuorumNotReached
  | CertificateFailed

definition proposal_new ::
  "committee \<Rightarrow> batch_header \<Rightarrow> (transmission_id, transmission) imap \<Rightarrow> (proposal_error, proposal) result" where
  "proposal_new com h ts =
     (if \<not> bh_round h \<ge> com_starting_round com then Inl BatchBeforeCommittee
      else if \<not> com_is_member com (bh_author h) then Inl AuthorNotMember
      else if length (bh_transmission_ids h) \<noteq> length ts then Inl TransmissionIdsMismatch
      else if \<not> list_all (\<lambda>(a, b). a = b) (zip (bh_transmission_ids h) (imap_keys ts)) then Inl TransmissionIdsMismatch
      else Inr \<lparr>pr_batch_header = h, pr_transmissions = ts, pr_signatures = []\<rparr>)"

abbreviation pr_batch_id :: "proposal \<Rightarrow> field" where
  "pr_batch_id p \<equiv> bh_batch_id (pr_batch_header p)"

abbreviation pr_round :: "proposal \<Rightarrow> nat" where
  "pr_round p \<equiv> bh_round (pr_batch_header p)"

abbreviation pr_timestamp :: "proposal \<Rightarrow> int" where
  "pr_timestamp p \<equiv> bh_timestamp (pr_batch_header p)"

definition signers :: "crypto \<Rightarrow> proposal \<Rightarrow> address set" where
  "signers K p = cr_to_address K ` set (pr_signatures p @ [bh_signature (pr_batch_header p)])"

definition nonsigners :: "crypto \<Rightarrow> committee \<Rightarrow> proposal \<Rightarrow> address set" where
  "nonsigners K com p = {a \<in> set (com_members com). a \<notin> signers K p}"

definition proposal_quorum_reached :: "crypto \<Rightarrow> committee \<Rightarrow> proposal \<Rightarrow> bool" where
  "proposal_quorum_reached K com p = com_quorum_reached com (signers K p)"

definition proposal_contains_transmission :: "proposal \<Rightarrow> transmission_id \<Rightarrow> bool" where
  "proposal_contains_transmission p t = imap_contains_key t (pr_transmissions p)"

definition proposal_get_transmission :: "proposal \<Rightarrow> transmission_id \<Rightarrow> transmission option" where
  "proposal_get_transmission p t = imap_get (pr_transmissions p) t"

definition add_signature ::
  "crypto \<Rightarrow> address \<Rightarrow> signature \<Rightarrow> committee \<Rightarrow> proposal \<Rightarrow> (proposal_error, proposal) result" where
  "add_signature K signer sg com p =
     (if \<not> com_is_member com signer then Inl (NonCommitteeSigner signer)
      else if signer \<in> signers K p then Inl (DuplicateSigner signer)
      else if \<not> cr_verify K sg signer (pr_batch_id p) then Inl BadSignature
      else Inr (p\<lparr>pr_signatures := iset_insert sg (pr_signatures p)\<rparr>))"

text \<open>\<open>from\<close> is \<open>BatchCertificate::from\<close> of snarkVM.\<close>

definition to_certificate ::
  "crypto \<Rightarrow> (batch_header \<Rightarrow> signature list \<Rightarrow> certificate option) \<Rightarrow> committee \<Rightarrow> proposal \<Rightarrow>
   (proposal_error, certificate \<times> (transmission_id, transmission) imap) result" where
  "to_certificate K from com p =
     (if \<not> proposal_quorum_reached K com p then Inl QuorumNotReached
      else case from (pr_batch_header p) (pr_signatures p) of
        None \<Rightarrow> Inl CertificateFailed
      | Some c \<Rightarrow> Inr (c, pr_transmissions p))"

section \<open>Byte formats\<close>

record 'a codec =
  cd_write :: "'a \<Rightarrow> bytes"
  cd_read :: "bytes \<Rightarrow> ('a \<times> bytes) option"

record codecs =
  cs_u32 :: "nat codec"
  cs_u64 :: "nat codec"
  cs_bool :: "bool codec"
  cs_address :: "address codec"
  cs_field :: "field codec"
  cs_signature :: "signature codec"
  cs_header :: "batch_header codec"
  cs_transmission_id :: "transmission_id codec"
  cs_transmission :: "transmission codec"
  cs_certificate :: "certificate codec"
  cs_subdag_depth :: nat

fun write_list :: "('a \<Rightarrow> bytes) \<Rightarrow> 'a list \<Rightarrow> bytes" where
  "write_list w [] = []"
| "write_list w (x # xs) = w x @ write_list w xs"

fun read_list :: "(bytes \<Rightarrow> ('a \<times> bytes) option) \<Rightarrow> nat \<Rightarrow> bytes \<Rightarrow> ('a list \<times> bytes) option" where
  "read_list r 0 bs = Some ([], bs)"
| "read_list r (Suc n) bs =
     Option.bind (r bs) (\<lambda>(x, bs). Option.bind (read_list r n bs) (\<lambda>(xs, bs). Some (x # xs, bs)))"

text \<open>\<open>u32::try_from(len)\<close> followed by \<open>write_le\<close>.\<close>

definition write_len :: "codecs \<Rightarrow> nat \<Rightarrow> bytes option" where
  "write_len C n = (if n < 2 ^ 32 then Some (cd_write (cs_u32 C) n) else None)"

definition write_entry :: "codecs \<Rightarrow> transmission_id \<times> transmission \<Rightarrow> bytes" where
  "write_entry C e = cd_write (cs_transmission_id C) (fst e) @ cd_write (cs_transmission C) (snd e)"

definition read_entry :: "codecs \<Rightarrow> bytes \<Rightarrow> ((transmission_id \<times> transmission) \<times> bytes) option" where
  "read_entry C bs =
     Option.bind (cd_read (cs_transmission_id C) bs) (\<lambda>(t, bs).
       Option.bind (cd_read (cs_transmission C) bs) (\<lambda>(x, bs). Some ((t, x), bs)))"

definition proposal_write_le :: "codecs \<Rightarrow> proposal \<Rightarrow> bytes option" where
  "proposal_write_le C p =
     Option.bind (write_len C (length (pr_transmissions p))) (\<lambda>n.
       Option.bind (write_len C (length (pr_signatures p))) (\<lambda>k.
         Some (cd_write (cs_header C) (pr_batch_header p) @ n @ write_list (write_entry C) (pr_transmissions p) @
               k @ write_list (cd_write (cs_signature C)) (pr_signatures p))))"

definition collect_map :: "('k \<times> 'v) list \<Rightarrow> ('k, 'v) imap" where
  "collect_map es = fold (\<lambda>(k, v) m. imap_insert k v m) es []"

definition collect_set :: "'a list \<Rightarrow> 'a list" where
  "collect_set xs = fold iset_insert xs []"

definition proposal_read_le :: "codecs \<Rightarrow> network \<Rightarrow> bytes \<Rightarrow> (proposal \<times> bytes) option" where
  "proposal_read_le C N bs =
     Option.bind (cd_read (cs_header C) bs) (\<lambda>(h, bs).
     Option.bind (cd_read (cs_u32 C) bs) (\<lambda>(n, bs).
       if n > net_max_transmissions_per_batch N then None
       else Option.bind (read_list (read_entry C) n bs) (\<lambda>(es, bs).
       Option.bind (cd_read (cs_u32 C) bs) (\<lambda>(k, bs).
         if k > net_max_committee_size N then None
         else Option.bind (read_list (cd_read (cs_signature C)) k bs) (\<lambda>(sgs, bs).
           let ts = collect_map es in
           if length (bh_transmission_ids h) \<noteq> length ts then None
           else if \<not> list_all (\<lambda>(a, b). a = b) (zip (bh_transmission_ids h) (imap_keys ts)) then None
           else Some (\<lparr>pr_batch_header = h, pr_transmissions = ts, pr_signatures = collect_set sgs\<rparr>, bs))))))"

section \<open>Signed proposals\<close>

type_synonym signed_proposals = "(address, nat \<times> field \<times> signature) imap"

definition signed_is_valid :: "crypto \<Rightarrow> address \<Rightarrow> signed_proposals \<Rightarrow> bool" where
  "signed_is_valid K expected sp = list_all (\<lambda>(_, (_, _, sg)). cr_to_address K sg = expected) sp"

definition write_signed :: "codecs \<Rightarrow> address \<times> nat \<times> field \<times> signature \<Rightarrow> bytes" where
  "write_signed C e =
     (case e of (a, r, i, sg) \<Rightarrow>
        cd_write (cs_address C) a @ cd_write (cs_u64 C) r @ cd_write (cs_field C) i @ cd_write (cs_signature C) sg)"

definition read_signed :: "codecs \<Rightarrow> bytes \<Rightarrow> ((address \<times> nat \<times> field \<times> signature) \<times> bytes) option" where
  "read_signed C bs =
     Option.bind (cd_read (cs_address C) bs) (\<lambda>(a, bs).
     Option.bind (cd_read (cs_u64 C) bs) (\<lambda>(r, bs).
     Option.bind (cd_read (cs_field C) bs) (\<lambda>(i, bs).
     Option.bind (cd_read (cs_signature C) bs) (\<lambda>(sg, bs). Some ((a, r, i, sg), bs)))))"

definition signed_write_le :: "codecs \<Rightarrow> signed_proposals \<Rightarrow> bytes option" where
  "signed_write_le C sp =
     Option.bind (write_len C (length sp)) (\<lambda>n. Some (n @ write_list (write_signed C) sp))"

definition signed_read_le :: "codecs \<Rightarrow> bytes \<Rightarrow> (signed_proposals \<times> bytes) option" where
  "signed_read_le C bs =
     Option.bind (cd_read (cs_u32 C) bs) (\<lambda>(n, bs).
     Option.bind (read_list (read_signed C) n bs) (\<lambda>(es, bs). Some (collect_map es, bs)))"

section \<open>The proposal cache\<close>

record proposal_cache =
  pc_latest_round :: nat
  pc_proposal :: "proposal option"
  pc_signed_proposals :: signed_proposals
  pc_pending_certificates :: "certificate list"

definition cache_is_valid :: "crypto \<Rightarrow> address \<Rightarrow> proposal_cache \<Rightarrow> bool" where
  "cache_is_valid K expected pc \<longleftrightarrow>
     (case pc_proposal pc of
        None \<Rightarrow> True
      | Some p \<Rightarrow> bh_author (pr_batch_header p) = expected \<and> pc_latest_round pc = pr_round p) \<and>
     signed_is_valid K expected (pc_signed_proposals pc)"

definition cache_write_le :: "codecs \<Rightarrow> proposal_cache \<Rightarrow> bytes option" where
  "cache_write_le C pc =
     Option.bind (case pc_proposal pc of None \<Rightarrow> Some [] | Some p \<Rightarrow> proposal_write_le C p) (\<lambda>pb.
     Option.bind (signed_write_le C (pc_signed_proposals pc)) (\<lambda>sb.
     Option.bind (write_len C (length (pc_pending_certificates pc))) (\<lambda>n.
       Some (cd_write (cs_u64 C) (pc_latest_round pc) @ cd_write (cs_bool C) (pc_proposal pc \<noteq> None) @ pb @ sb @
             n @ write_list (cd_write (cs_certificate C)) (pc_pending_certificates pc)))))"

definition max_pending :: "codecs \<Rightarrow> nat" where
  "max_pending C = min (2 ^ cs_subdag_depth C) (2 ^ 32 - 1)"

definition cache_read_le :: "codecs \<Rightarrow> network \<Rightarrow> bytes \<Rightarrow> (proposal_cache \<times> bytes) option" where
  "cache_read_le C N bs =
     Option.bind (cd_read (cs_u64 C) bs) (\<lambda>(r, bs).
     Option.bind (cd_read (cs_bool C) bs) (\<lambda>(has, bs).
     Option.bind (if has then map_option (\<lambda>(p, bs). (Some p, bs)) (proposal_read_le C N bs) else Some (None, bs))
       (\<lambda>(p, bs).
     Option.bind (signed_read_le C bs) (\<lambda>(sp, bs).
     Option.bind (cd_read (cs_u32 C) bs) (\<lambda>(n, bs).
       if n > max_pending C then None
       else Option.bind (read_list (cd_read (cs_certificate C)) n bs) (\<lambda>(cs, bs).
         Some (\<lparr>pc_latest_round = r, pc_proposal = p, pc_signed_proposals = sp,
                pc_pending_certificates = collect_set cs\<rparr>, bs)))))))"

text \<open>\<open>load\<close> and \<open>store\<close> over the contents of the cache file; \<open>from_bytes_le\<close> reads a prefix.\<close>

datatype cache_error = CacheUnreadable | CacheMalformed | CacheInvalid | CacheUnwritable

definition cache_load ::
  "codecs \<Rightarrow> network \<Rightarrow> crypto \<Rightarrow> address \<Rightarrow> bytes option \<Rightarrow> (cache_error, proposal_cache) result" where
  "cache_load C N K expected file =
     (case file of
        None \<Rightarrow> Inl CacheUnreadable
      | Some bs \<Rightarrow>
          (case cache_read_le C N bs of
             None \<Rightarrow> Inl CacheMalformed
           | Some (pc, _) \<Rightarrow> if \<not> cache_is_valid K expected pc then Inl CacheInvalid else Inr pc))"

definition cache_store :: "codecs \<Rightarrow> proposal_cache \<Rightarrow> (cache_error, bytes) result" where
  "cache_store C pc = ok_or CacheUnwritable (cache_write_le C pc)"

section \<open>Round trips\<close>

definition codec_ok :: "('a \<Rightarrow> bool) \<Rightarrow> 'a codec \<Rightarrow> bool" where
  "codec_ok P c \<longleftrightarrow> (\<forall>x rest. P x \<longrightarrow> cd_read c (cd_write c x @ rest) = Some (x, rest))"

definition codecs_ok :: "codecs \<Rightarrow> bool" where
  "codecs_ok C \<longleftrightarrow> codec_ok (\<lambda>n. n < 2 ^ 32) (cs_u32 C) \<and> codec_ok (\<lambda>n. n < 2 ^ 64) (cs_u64 C) \<and>
     codec_ok (\<lambda>_. True) (cs_bool C) \<and> codec_ok (\<lambda>_. True) (cs_address C) \<and> codec_ok (\<lambda>_. True) (cs_field C) \<and>
     codec_ok (\<lambda>_. True) (cs_signature C) \<and> codec_ok (\<lambda>_. True) (cs_header C) \<and>
     codec_ok (\<lambda>_. True) (cs_transmission_id C) \<and> codec_ok (\<lambda>_. True) (cs_transmission C) \<and>
     codec_ok (\<lambda>_. True) (cs_certificate C)"

lemma codecs_okD:
  assumes "codecs_ok C"
  shows "n < 2 ^ 32 \<Longrightarrow> cd_read (cs_u32 C) (cd_write (cs_u32 C) n @ rest) = Some (n, rest)"
    "m < 2 ^ 64 \<Longrightarrow> cd_read (cs_u64 C) (cd_write (cs_u64 C) m @ rest) = Some (m, rest)"
    "cd_read (cs_bool C) (cd_write (cs_bool C) v @ rest) = Some (v, rest)"
    "cd_read (cs_address C) (cd_write (cs_address C) a @ rest) = Some (a, rest)"
    "cd_read (cs_field C) (cd_write (cs_field C) f @ rest) = Some (f, rest)"
    "cd_read (cs_signature C) (cd_write (cs_signature C) g @ rest) = Some (g, rest)"
    "cd_read (cs_header C) (cd_write (cs_header C) h @ rest) = Some (h, rest)"
    "cd_read (cs_transmission_id C) (cd_write (cs_transmission_id C) t @ rest) = Some (t, rest)"
    "cd_read (cs_transmission C) (cd_write (cs_transmission C) x @ rest) = Some (x, rest)"
    "cd_read (cs_certificate C) (cd_write (cs_certificate C) c @ rest) = Some (c, rest)"
  using assms by (simp_all add: codecs_ok_def codec_ok_def)

lemma read_write_list:
  assumes "\<And>x rest. x \<in> set xs \<Longrightarrow> r (w x @ rest) = Some (x, rest)"
  shows "read_list r (length xs) (write_list w xs @ rest) = Some (xs, rest)"
  using assms by (induction xs) auto

lemma collect_map_distinct:
  assumes "imap_wf m"
  shows "collect_map m = m"
proof -
  have "distinct (map fst (acc @ m)) \<Longrightarrow> fold (\<lambda>(k, v) m. imap_insert k v m) m acc = acc @ m" for acc
    by (induction m arbitrary: acc) (auto simp: update_fresh)
  then show ?thesis using assms by (simp add: collect_map_def)
qed

lemma collect_set_distinct: "distinct xs \<Longrightarrow> collect_set xs = xs"
proof -
  assume d: "distinct xs"
  have "distinct (acc @ xs) \<Longrightarrow> fold iset_insert xs acc = acc @ xs" for acc
    by (induction xs arbitrary: acc) (auto simp: iset_insert_def)
  then show ?thesis using d by (simp add: collect_set_def)
qed

text \<open>The invariant of a proposal: the header lists the transmission IDs in the order of the map.\<close>

definition proposal_wf :: "proposal \<Rightarrow> bool" where
  "proposal_wf p \<longleftrightarrow> imap_keys (pr_transmissions p) = bh_transmission_ids (pr_batch_header p) \<and>
     imap_wf (pr_transmissions p) \<and> distinct (pr_signatures p)"

lemma list_all_zip_eq:
  "length xs = length ys \<Longrightarrow> list_all (\<lambda>(a, b). a = b) (zip xs ys) \<longleftrightarrow> xs = ys"
  by (induction xs ys rule: list_induct2) auto

lemma read_write_entry: "codecs_ok C \<Longrightarrow> read_entry C (write_entry C e @ rest) = Some (e, rest)"
  by (simp add: read_entry_def write_entry_def codecs_okD)

lemma proposal_write_read:
  assumes C: "codecs_ok C" and wf: "proposal_wf p" and w: "proposal_write_le C p = Some bs"
    and bounds: "length (pr_transmissions p) \<le> net_max_transmissions_per_batch N"
      "length (pr_signatures p) \<le> net_max_committee_size N"
  shows "proposal_read_le C N (bs @ rest) = Some (p, rest)"
proof -
  have len: "length (pr_transmissions p) < 2 ^ 32" "length (pr_signatures p) < 2 ^ 32"
    and bs: "bs = cd_write (cs_header C) (pr_batch_header p) @ cd_write (cs_u32 C) (length (pr_transmissions p)) @
      write_list (write_entry C) (pr_transmissions p) @ cd_write (cs_u32 C) (length (pr_signatures p)) @
      write_list (cd_write (cs_signature C)) (pr_signatures p)"
    using w by (auto simp: proposal_write_le_def write_len_def bind_eq_Some_conv split: if_splits)
  have p: "collect_map (pr_transmissions p) = pr_transmissions p" "collect_set (pr_signatures p) = pr_signatures p"
    "bh_transmission_ids (pr_batch_header p) = imap_keys (pr_transmissions p)"
    using wf collect_map_distinct [of "pr_transmissions p"] collect_set_distinct [of "pr_signatures p"]
    unfolding proposal_wf_def by metis+
  show ?thesis
    using bounds
    by (simp add: proposal_read_le_def bs codecs_okD(6,7) [OF C] codecs_okD(1) [OF C len(1)]
        codecs_okD(1) [OF C len(2)] read_write_list read_write_entry [OF C] p list_all_zip_eq)
qed

lemma read_write_signed:
  "codecs_ok C \<Longrightarrow> fst (snd e) < 2 ^ 64 \<Longrightarrow> read_signed C (write_signed C e @ rest) = Some (e, rest)"
  by (cases e) (simp add: read_signed_def write_signed_def codecs_okD(4-6) codecs_okD(2) [simplified])

lemma signed_write_read:
  assumes C: "codecs_ok C" and wf: "imap_wf sp" and rounds: "\<forall>e \<in> set sp. fst (snd e) < 2 ^ 64"
    and w: "signed_write_le C sp = Some bs"
  shows "signed_read_le C (bs @ rest) = Some (sp, rest)"
proof -
  have len: "length sp < 2 ^ 32" and bs: "bs = cd_write (cs_u32 C) (length sp) @ write_list (write_signed C) sp"
    using w by (auto simp: signed_write_le_def write_len_def split: if_splits)
  have "read_list (read_signed C) (length sp) (write_list (write_signed C) sp @ rest) = Some (sp, rest)"
    using rounds by (intro read_write_list read_write_signed [OF C]) auto
  then show ?thesis
    by (simp add: signed_read_le_def bs codecs_okD(1) [OF C len] collect_map_distinct [OF wf])
qed

text \<open>What the code guarantees of a cache it writes: a well-formed proposal within the batch
  limits, one signed proposal per author, rounds in range and a set of pending certificates.\<close>

definition cache_storable :: "codecs \<Rightarrow> network \<Rightarrow> proposal_cache \<Rightarrow> bool" where
  "cache_storable C N pc \<longleftrightarrow> pc_latest_round pc < 2 ^ 64 \<and>
     (\<forall>p. pc_proposal pc = Some p \<longrightarrow> proposal_wf p \<and>
        length (pr_transmissions p) \<le> net_max_transmissions_per_batch N \<and>
        length (pr_signatures p) \<le> net_max_committee_size N) \<and>
     imap_wf (pc_signed_proposals pc) \<and> (\<forall>e \<in> set (pc_signed_proposals pc). fst (snd e) < 2 ^ 64) \<and>
     distinct (pc_pending_certificates pc) \<and> length (pc_pending_certificates pc) \<le> max_pending C"

lemma cache_write_read:
  assumes C: "codecs_ok C" and st: "cache_storable C N pc" and w: "cache_write_le C pc = Some bs"
  shows "cache_read_le C N (bs @ rest) = Some (pc, rest)"
proof -
  obtain pb sb where pb: "(case pc_proposal pc of None \<Rightarrow> Some [] | Some p \<Rightarrow> proposal_write_le C p) = Some pb"
    and sb: "signed_write_le C (pc_signed_proposals pc) = Some sb"
    and len: "length (pc_pending_certificates pc) < 2 ^ 32"
    and bs: "bs = cd_write (cs_u64 C) (pc_latest_round pc) @ cd_write (cs_bool C) (pc_proposal pc \<noteq> None) @ pb @ sb @
      cd_write (cs_u32 C) (length (pc_pending_certificates pc)) @
      write_list (cd_write (cs_certificate C)) (pc_pending_certificates pc)"
    using w by (auto simp: cache_write_le_def write_len_def bind_eq_Some_conv split: if_splits)
  have r: "pc_latest_round pc < 2 ^ 64" and sp: "imap_wf (pc_signed_proposals pc)"
    "\<forall>e \<in> set (pc_signed_proposals pc). fst (snd e) < 2 ^ 64"
    and cs: "distinct (pc_pending_certificates pc)" "length (pc_pending_certificates pc) \<le> max_pending C"
    using st unfolding cache_storable_def by blast+
  have pread: "(if pc_proposal pc \<noteq> None then map_option (\<lambda>(p, bs). (Some p, bs)) (proposal_read_le C N (pb @ r))
      else Some (None, pb @ r)) = Some (pc_proposal pc, r)" for r
    using pb st proposal_write_read [OF C, of _ pb N r]
    by (cases "pc_proposal pc") (auto simp: cache_storable_def)
  have certs: "read_list (cd_read (cs_certificate C)) (length (pc_pending_certificates pc))
      (write_list (cd_write (cs_certificate C)) (pc_pending_certificates pc) @ rest) =
      Some (pc_pending_certificates pc, rest)"
    by (rule read_write_list) (rule codecs_okD(10) [OF C])
  show ?thesis
    using cs
    by (simp add: cache_read_le_def bs codecs_okD(2) [OF C r] codecs_okD(3) [OF C] pread
        signed_write_read [OF C sp sb] codecs_okD(1) [OF C len] certs collect_set_distinct del: not_None_eq)
qed

lemma read_list_length: "read_list r n bs = Some (xs, bs') \<Longrightarrow> length xs = n"
  by (induction n arbitrary: bs xs) (auto simp: bind_eq_Some_conv split: prod.splits)

lemma length_AList_update: "length (AList.update k v m) \<le> Suc (length m)"
  by (induction m) auto

lemma length_collect_map: "length (collect_map es) \<le> length es"
proof -
  have "length (fold (\<lambda>(k, v) m. imap_insert k v m) es acc) \<le> length acc + length es" for acc
  proof (induction es arbitrary: acc)
    case (Cons e es)
    show ?case
      using Cons [of "AList.update (fst e) (snd e) acc"] length_AList_update [of "fst e" "snd e" acc]
      by (simp add: case_prod_beta)
  qed simp
  from this [of "[]"] show ?thesis by (simp add: collect_map_def)
qed

lemma imap_wf_collect_map: "imap_wf (collect_map es)"
proof -
  have "imap_wf acc \<Longrightarrow> imap_wf (fold (\<lambda>(k, v) m. imap_insert k v m) es acc)" for acc
    by (induction es arbitrary: acc) auto
  then show ?thesis by (simp add: collect_map_def)
qed

lemma length_collect_set: "length (collect_set xs) \<le> length xs"
proof -
  have "length (fold iset_insert xs acc) \<le> length acc + length xs" for acc
  proof (induction xs arbitrary: acc)
    case (Cons x xs)
    show ?case using Cons [of "iset_insert x acc"] by (simp add: iset_insert_def split: if_splits)
  qed simp
  from this [of "[]"] show ?thesis by (simp add: collect_set_def)
qed

lemma distinct_collect_set: "distinct (collect_set xs)"
proof -
  have "distinct acc \<Longrightarrow> distinct (fold iset_insert xs acc)" for acc
    by (induction xs arbitrary: acc) auto
  then show ?thesis by (simp add: collect_set_def)
qed

section \<open>Properties\<close>


text \<open>C40: whatever bytes are read, an accepted proposal lists in its header exactly the IDs of its
  transmissions, in order and without duplicates, and stays within the limits of a batch.\<close>

theorem proposal_read_invariant:
  assumes "proposal_read_le C N bs = Some (p, rest)"
  shows "imap_keys (pr_transmissions p) = bh_transmission_ids (pr_batch_header p) \<and>
    distinct (bh_transmission_ids (pr_batch_header p)) \<and> distinct (pr_signatures p) \<and>
    length (pr_transmissions p) \<le> net_max_transmissions_per_batch N \<and>
    length (pr_signatures p) \<le> net_max_committee_size N"
proof -
  obtain n es k sgs bs1 bs2 bs3 where
    n: "n \<le> net_max_transmissions_per_batch N" "read_list (read_entry C) n bs1 = Some (es, bs2)"
    and k: "k \<le> net_max_committee_size N" "read_list (cd_read (cs_signature C)) k bs3 = Some (sgs, rest)"
    and p: "pr_transmissions p = collect_map es" "pr_signatures p = collect_set sgs"
      "length (bh_transmission_ids (pr_batch_header p)) = length (collect_map es)"
      "list_all (\<lambda>(a, b). a = b) (zip (bh_transmission_ids (pr_batch_header p)) (imap_keys (collect_map es)))"
    using assms
    by (auto simp: proposal_read_le_def Let_def bind_eq_Some_conv not_less split: if_splits prod.splits)
  have "bh_transmission_ids (pr_batch_header p) = imap_keys (collect_map es)"
    using list_all_zip_eq [of "bh_transmission_ids (pr_batch_header p)" "imap_keys (collect_map es)"] p(3,4) by simp
  moreover have "length (collect_map es) \<le> n" "length (collect_set sgs) \<le> k"
    using length_collect_map [of es] length_collect_set [of sgs] read_list_length [OF n(2)] read_list_length [OF k(2)]
    by simp_all
  ultimately show ?thesis
    using n(1) k(1) p(1,2) imap_wf_collect_map [of es] distinct_collect_set [of sgs] by simp
qed

text \<open>Signatures are only ever added by committee members that have not signed yet: with
  signatures that verify only for their own signer, adding one makes exactly that signer a
  signer, and the number of signatures grows by one.\<close>

theorem add_signature_new_signer:
  assumes "add_signature K signer sg com p = Inr p'"
    and "\<And>a. cr_verify K sg a (pr_batch_id p) \<Longrightarrow> cr_to_address K sg = a"
  shows "signers K p' = insert signer (signers K p) \<and> signer \<notin> signers K p \<and> com_is_member com signer \<and>
    length (pr_signatures p') = Suc (length (pr_signatures p)) \<and> pr_batch_header p' = pr_batch_header p"
proof -
  have ok: "com_is_member com signer" "signer \<notin> signers K p" "cr_verify K sg signer (pr_batch_id p)"
    and p': "p' = p\<lparr>pr_signatures := iset_insert sg (pr_signatures p)\<rparr>"
    using assms(1) by (auto simp: add_signature_def split: if_splits)
  have a: "cr_to_address K sg = signer" using assms(2) ok(3) by blast
  then have "sg \<notin> set (pr_signatures p)" using ok(2) by (auto simp: signers_def)
  then show ?thesis using ok a by (auto simp: p' signers_def iset_insert_def)
qed

section \<open>A concrete cache\<close>

text \<open>Codecs for which the assumption on the codecs holds, and a cache that uses all of them.\<close>

definition sample_proposal :: proposal where
  "sample_proposal =
     \<lparr>pr_batch_header = sample_header 1 1 [TransactionID 5 0] [],
      pr_transmissions = [(TransactionID 5 0, Ratification)], pr_signatures = [2]\<rparr>"

definition nat_codec :: "nat codec" where
  "nat_codec = \<lparr>cd_write = (\<lambda>n. [n]), cd_read = (\<lambda>bs. case bs of [] \<Rightarrow> None | b # bs \<Rightarrow> Some (b, bs))\<rparr>"

text \<open>A value as a list of numbers, with its length in front.\<close>

definition list_codec :: "('a \<Rightarrow> bytes) \<Rightarrow> (bytes \<Rightarrow> 'a) \<Rightarrow> 'a codec" where
  "list_codec enc dec =
     \<lparr>cd_write = (\<lambda>x. length (enc x) # enc x),
      cd_read = (\<lambda>bs. case bs of [] \<Rightarrow> None | n # bs \<Rightarrow> Some (dec (take n bs), drop n bs))\<rparr>"

lemma codec_ok_nat: "codec_ok P nat_codec"
  by (simp add: codec_ok_def nat_codec_def)

lemma codec_ok_list: "(\<And>x. dec (enc x) = x) \<Longrightarrow> codec_ok P (list_codec enc dec)"
  by (simp add: codec_ok_def list_codec_def)

fun enc_tid :: "transmission_id \<Rightarrow> bytes" where
  "enc_tid RatificationID = [0, 0, 0]"
| "enc_tid (SolutionID i c) = [1, i, c]"
| "enc_tid (TransactionID i c) = [2, i, c]"

fun dec_tid :: "bytes \<Rightarrow> transmission_id" where
  "dec_tid [k, i, c] = (if k = 0 then RatificationID else if k = 1 then SolutionID i c else TransactionID i c)"
| "dec_tid _ = RatificationID"

fun dec_tids :: "nat \<Rightarrow> bytes \<Rightarrow> transmission_id list \<times> bytes" where
  "dec_tids 0 bs = ([], bs)"
| "dec_tids (Suc n) bs = (let (ts, rest) = dec_tids n (drop 3 bs) in (dec_tid (take 3 bs) # ts, rest))"

fun enc_data :: "('a \<Rightarrow> bytes) \<Rightarrow> 'a data \<Rightarrow> bytes" where
  "enc_data e (Object x) = 0 # e x"
| "enc_data e (Buffer bs) = 1 # bs"

fun dec_data :: "(bytes \<Rightarrow> 'a) \<Rightarrow> bytes \<Rightarrow> 'a data" where
  "dec_data d bs = (if hd bs = 0 then Object (d (tl bs)) else Buffer (tl bs))"

definition enc_solution :: "solution \<Rightarrow> bytes" where
  "enc_solution x = [sol_id x, sol_body x]"

definition dec_solution :: "bytes \<Rightarrow> solution" where
  "dec_solution bs = \<lparr>sol_id = bs ! 0, sol_body = bs ! 1\<rparr>"

definition enc_transaction :: "transaction \<Rightarrow> bytes" where
  "enc_transaction t = [tx_id t, case tx_kind t of Deploy \<Rightarrow> 0 | Execute \<Rightarrow> 1 | Fee \<Rightarrow> 2, tx_body t]"

definition dec_transaction :: "bytes \<Rightarrow> transaction" where
  "dec_transaction bs =
     \<lparr>tx_id = bs ! 0, tx_kind = (if bs ! 1 = 0 then Deploy else if bs ! 1 = 1 then Execute else Fee), tx_body = bs ! 2\<rparr>"

fun enc_transmission :: "transmission \<Rightarrow> bytes" where
  "enc_transmission Ratification = [0]"
| "enc_transmission (Solution d) = 1 # enc_data enc_solution d"
| "enc_transmission (Transaction d) = 2 # enc_data enc_transaction d"

fun dec_transmission :: "bytes \<Rightarrow> transmission" where
  "dec_transmission bs =
     (if hd bs = 0 then Ratification
      else if hd bs = 1 then Solution (dec_data dec_solution (tl bs))
      else Transaction (dec_data dec_transaction (tl bs)))"

definition enc_header :: "batch_header \<Rightarrow> bytes" where
  "enc_header h =
     [bh_batch_id h, bh_author h, bh_round h, if bh_timestamp h < 0 then 1 else 0, nat \<bar>bh_timestamp h\<bar>,
      bh_committee_id h, bh_signature h, length (bh_transmission_ids h)] @
     concat (map enc_tid (bh_transmission_ids h)) @ bh_previous_certificate_ids h"

definition dec_header :: "bytes \<Rightarrow> batch_header" where
  "dec_header bs =
     (let (ts, prev) = dec_tids (bs ! 7) (drop 8 bs) in
      \<lparr>bh_batch_id = bs ! 0, bh_author = bs ! 1, bh_round = bs ! 2,
       bh_timestamp = (if bs ! 3 = 1 then - int (bs ! 4) else int (bs ! 4)), bh_committee_id = bs ! 5,
       bh_transmission_ids = ts, bh_previous_certificate_ids = prev, bh_signature = bs ! 6\<rparr>)"

definition enc_certificate :: "certificate \<Rightarrow> bytes" where
  "enc_certificate c = [cert_id c, length (enc_header (cert_header c))] @ enc_header (cert_header c) @ cert_signatures c"

definition dec_certificate :: "bytes \<Rightarrow> certificate" where
  "dec_certificate bs =
     \<lparr>cert_id = bs ! 0, cert_header = dec_header (take (bs ! 1) (drop 2 bs)),
      cert_signatures = drop (bs ! 1) (drop 2 bs)\<rparr>"

definition sample_codecs :: codecs where
  "sample_codecs =
     \<lparr>cs_u32 = nat_codec, cs_u64 = nat_codec,
      cs_bool = list_codec (\<lambda>b. if b then [1] else [0]) (\<lambda>bs. bs = [1]),
      cs_address = nat_codec, cs_field = nat_codec, cs_signature = nat_codec,
      cs_header = list_codec enc_header dec_header, cs_transmission_id = list_codec enc_tid dec_tid,
      cs_transmission = list_codec enc_transmission dec_transmission,
      cs_certificate = list_codec enc_certificate dec_certificate, cs_subdag_depth = 10\<rparr>"

lemma dec_enc_tid: "dec_tid (enc_tid t) = t" "length (enc_tid t) = 3"
  by (cases t; simp)+

lemma dec_enc_tids: "dec_tids (length ts) (concat (map enc_tid ts) @ rest) = (ts, rest)"
  by (induction ts) (simp_all add: dec_enc_tid)

lemma dec_enc_transmission: "dec_transmission (enc_transmission x) = x"
proof -
  have "dec_data dec_solution (enc_data enc_solution d) = d" for d
    by (cases d) (simp_all add: dec_solution_def enc_solution_def)
  moreover have "dec_data dec_transaction (enc_data enc_transaction d) = d" for d
    by (cases d) (auto simp: dec_transaction_def enc_transaction_def split: transaction_kind.splits)
  ultimately show ?thesis by (cases x) simp_all
qed

lemma dec_enc_header: "dec_header (enc_header h) = h"
  by (simp add: dec_header_def enc_header_def dec_enc_tids)

lemma dec_enc_certificate: "dec_certificate (enc_certificate c) = c"
  by (simp add: dec_certificate_def enc_certificate_def dec_enc_header)

lemma sample_codecs_ok: "codecs_ok sample_codecs"
  by (simp add: codecs_ok_def sample_codecs_def codec_ok_nat codec_ok_list dec_enc_tid dec_enc_header
      codec_ok_list [OF dec_enc_transmission] dec_enc_certificate)

definition sample_cache :: proposal_cache where
  "sample_cache =
     \<lparr>pc_latest_round = 1, pc_proposal = Some sample_proposal, pc_signed_proposals = [(2, 1, 12, 1)],
      pc_pending_certificates = [sample_cert 1 2 [] []]\<rparr>"


theorem proposal_read_invariant_witness:
  "distinct (bh_transmission_ids (pr_batch_header sample_proposal))"
proof -
  obtain bs where bs: "proposal_write_le sample_codecs sample_proposal = Some bs"
    by (simp add: sample_proposal_def proposal_write_le_def write_len_def)
  have "proposal_read_le sample_codecs sample_network (bs @ []) = Some (sample_proposal, [])"
    by (rule proposal_write_read [OF sample_codecs_ok _ bs])
      (simp_all add: sample_proposal_def proposal_wf_def sample_header_def sample_network_def)
  from proposal_read_invariant [OF this] show ?thesis by blast
qed

theorem add_signature_new_signer_witness:
  "signers sample_crypto (sample_proposal\<lparr>pr_signatures := [2, 3]\<rparr>) = insert 3 (signers sample_crypto sample_proposal)"
  by (rule add_signature_new_signer [where com = sample_committee and sg = 3, THEN conjunct1])
    (auto simp: add_signature_def sample_committee_def signers_def sample_proposal_def sample_crypto_def
      sample_header_def iset_insert_def)

end
