(* ===== verification/Worker.thy ===== *)
theory Worker
  imports Ready Proposal Storage
begin

text \<open>
  The worker of the primary (\<open>node/bft/src/worker.rs\<close>) and the assignment of transmissions to
  workers (\<open>node/bft/src/helpers/partition.rs\<close>). A worker owns a ready queue; the storage,
  the ledger and the proposed batch are shared with the primary, so they are arguments
  here. The SHA-256 digest and the byte format of a transmission ID come from other crates
  and are parameters. The lemmas show that a worker takes in a transmission only once, that
  a reinsertion never duplicates one, and that every transmission is assigned to a worker
  that exists.
\<close>

section \<open>State\<close>

definition MAX_WORKERS :: nat where
  "MAX_WORKERS = 1"

record worker =
  wk_id :: nat
  wk_ready :: ready

datatype worker_error =
    InvalidWorkerId
  | ChecksumFailed
  | AlreadyExists
  | TransactionUnreadable
  | WorkerLedgerError ledger_error
  | UnableToFetch
  | UnableToAssign
  | UnableToFindWorker nat
  | WorkerPanic

definition worker_new :: "nat \<Rightarrow> (worker_error, worker) result" where
  "worker_new i = (if i < MAX_WORKERS then Inr \<lparr>wk_id = i, wk_ready = ready_new\<rparr> else Inl InvalidWorkerId)"

definition max_transmissions_per_worker :: "network \<Rightarrow> nat" where
  "max_transmissions_per_worker N = net_max_transmissions_per_batch N div MAX_WORKERS"

definition worker_clear_solutions :: "worker \<Rightarrow> worker" where
  "worker_clear_solutions w = w\<lparr>wk_ready := ready_clear_solutions (wk_ready w)\<rparr>"

section \<open>Lookups\<close>

definition worker_contains_transmission ::
  "'ts env \<Rightarrow> core_ledger \<Rightarrow> 'ts storage \<Rightarrow> proposal option \<Rightarrow> worker \<Rightarrow> transmission_id \<Rightarrow> bool" where
  "worker_contains_transmission E L s proposed w t \<longleftrightarrow>
     ready_contains (wk_ready w) t \<or>
     (case proposed of None \<Rightarrow> False | Some p \<Rightarrow> proposal_contains_transmission p t) \<or>
     contains_transmission E s t \<or>
     unwrap_or False (ledger_contains_transmission L t)"

text \<open>Reading storage may move an entry in its cache, so storage is returned.\<close>

definition worker_get_transmission ::
  "'ts env \<Rightarrow> proposal option \<Rightarrow> worker \<Rightarrow> transmission_id \<Rightarrow> 'ts storage \<Rightarrow> transmission option \<times> 'ts storage" where
  "worker_get_transmission E proposed w t s =
     (case ready_get (wk_ready w) t of
        Some x \<Rightarrow> (Some x, s)
      | None \<Rightarrow>
          (case get_transmission E s t of
             (Some x, s') \<Rightarrow> (Some x, s')
           | (None, s') \<Rightarrow>
               (case proposed of None \<Rightarrow> None | Some p \<Rightarrow> proposal_get_transmission p t, s')))"

definition get_or_fetch_transmission ::
  "'ts env \<Rightarrow> proposal option \<Rightarrow> worker \<Rightarrow> transmission_id \<Rightarrow> 'ts storage \<Rightarrow>
   (worker_error, transmission_id \<times> transmission) result \<times> 'ts storage" where
  "get_or_fetch_transmission E proposed w t s =
     (case worker_get_transmission E proposed w t s of
        (Some x, s') \<Rightarrow> (Inr (t, x), s')
      | (None, s') \<Rightarrow> (Inl UnableToFetch, s'))"

section \<open>The ready queue of a worker\<close>

definition worker_insert :: "transmission_id \<Rightarrow> transmission \<Rightarrow> worker \<Rightarrow> bool \<times> worker" where
  "worker_insert t x w = (let (new, q) = ready_insert t x (wk_ready w) in (new, w\<lparr>wk_ready := q\<rparr>))"

definition worker_insert_front :: "transmission_id \<Rightarrow> transmission \<Rightarrow> worker \<Rightarrow> worker" where
  "worker_insert_front t x w = w\<lparr>wk_ready := snd (ready_insert_front t x (wk_ready w))\<rparr>"

definition worker_remove_front :: "worker \<Rightarrow> (transmission_id \<times> transmission) option \<times> worker" where
  "worker_remove_front w = (let (e, q) = ready_remove_front (wk_ready w) in (e, w\<lparr>wk_ready := q\<rparr>))"

definition reinsert ::
  "'ts env \<Rightarrow> core_ledger \<Rightarrow> 'ts storage \<Rightarrow> proposal option \<Rightarrow> transmission_id \<Rightarrow> transmission \<Rightarrow> worker \<Rightarrow>
   bool \<times> worker" where
  "reinsert E L s proposed t x w =
     (if \<not> worker_contains_transmission E L s proposed w t then worker_insert t x w else (False, w))"

definition worker_process_unconfirmed_solution ::
  "'ts env \<Rightarrow> core_ledger \<Rightarrow> 'ts storage \<Rightarrow> proposal option \<Rightarrow> solution_id \<Rightarrow> solution data \<Rightarrow> worker \<Rightarrow>
   (worker_error, unit) result \<times> worker" where
  "worker_process_unconfirmed_solution E L s proposed i d w =
     (case cr_solution_checksum (env_crypto E) d of
        None \<Rightarrow> (Inl ChecksumFailed, w)
      | Some ck \<Rightarrow>
          (let t = SolutionID i ck in
           if worker_contains_transmission E L s proposed w t then (Inl AlreadyExists, w)
           else case check_solution_basic (env_crypto E) L i d of
             Inl e \<Rightarrow> (Inl (WorkerLedgerError e), w)
           | Inr _ \<Rightarrow> (Inr (), snd (worker_insert t (Solution d) w))))"

definition worker_process_unconfirmed_transaction ::
  "'ts env \<Rightarrow> core_ledger \<Rightarrow> 'ts storage \<Rightarrow> proposal option \<Rightarrow> transaction_id \<Rightarrow> transaction data \<Rightarrow> worker \<Rightarrow>
   (worker_error, unit) result \<times> worker" where
  "worker_process_unconfirmed_transaction E L s proposed i d w =
     (case cr_transaction_checksum (env_crypto E) d of
        None \<Rightarrow> (Inl ChecksumFailed, w)
      | Some ck \<Rightarrow>
          (let t = TransactionID i ck in
           if worker_contains_transmission E L s proposed w t then (Inl AlreadyExists, w)
           else case read_transaction (env_crypto E) d of
             None \<Rightarrow> (Inl TransactionUnreadable, w)
           | Some tx \<Rightarrow>
               (case check_transaction_basic L i tx of
                  Inl e \<Rightarrow> (Inl (WorkerLedgerError e), w)
                | Inr _ \<Rightarrow> (Inr (), snd (worker_insert t (Transaction d) w)))))"

section \<open>Assignment to workers\<close>

record hashing =
  ha_sha256 :: "bytes \<Rightarrow> bytes"
  ha_transmission_id_bytes :: "transmission_id \<Rightarrow> bytes option"

definition double_sha256 :: "hashing \<Rightarrow> bytes \<Rightarrow> bytes" where
  "double_sha256 H d = ha_sha256 H (ha_sha256 H d)"

fun from_le_bytes :: "bytes \<Rightarrow> nat" where
  "from_le_bytes [] = 0"
| "from_le_bytes (b # bs) = b + 256 * from_le_bytes bs"

definition sha256d_to_u128 :: "hashing \<Rightarrow> bytes \<Rightarrow> nat" where
  "sha256d_to_u128 H d = from_le_bytes (take 16 (double_sha256 H d))"

text \<open>The remainder by zero and the \<open>u8::try_from(..).expect(..)\<close> on the number of workers panic.\<close>

definition assign_to_worker :: "hashing \<Rightarrow> transmission_id \<Rightarrow> nat \<Rightarrow> (worker_error, nat) result" where
  "assign_to_worker H t num_workers =
     (if num_workers = 1 then Inr 0
      else case ha_transmission_id_bytes H t of
        None \<Rightarrow> Inl UnableToAssign
      | Some bs \<Rightarrow>
          if num_workers = 0 then Inl WorkerPanic
          else Inr ((sha256d_to_u128 H bs mod num_workers) mod 2 ^ 8))"

definition num_workers_u8 :: "worker list \<Rightarrow> (worker_error, nat) result" where
  "num_workers_u8 ws = (if length ws < 2 ^ 8 then Inr (length ws) else Inl WorkerPanic)"

text \<open>The operation may change the worker it is applied to; the entries already handled keep
  their effect when a later one fails.\<close>

fun assign_each ::
  "hashing \<Rightarrow> nat \<Rightarrow> (transmission_id \<Rightarrow> transmission \<Rightarrow> worker \<Rightarrow> worker) \<Rightarrow> transmissions \<Rightarrow> worker list \<Rightarrow>
   (worker_error, unit) result \<times> worker list" where
  "assign_each H n op [] ws = (Inr (), ws)"
| "assign_each H n op ((t, x) # ts) ws =
     (case assign_to_worker H t n of
        Inl e \<Rightarrow> (Inl e, ws)
      | Inr i \<Rightarrow>
          if i < length ws then assign_each H n op ts (ws[i := op t x (ws ! i)])
          else (Inl (UnableToFindWorker i), ws))"

definition assign_to_workers ::
  "hashing \<Rightarrow> (transmission_id \<Rightarrow> transmission \<Rightarrow> worker \<Rightarrow> worker) \<Rightarrow> transmissions \<Rightarrow> worker list \<Rightarrow>
   (worker_error, unit) result \<times> worker list" where
  "assign_to_workers H op ts ws =
     (case num_workers_u8 ws of Inl e \<Rightarrow> (Inl e, ws) | Inr n \<Rightarrow> assign_each H n op ts ws)"

section \<open>Invariant\<close>

definition worker_wf :: "worker \<Rightarrow> bool" where
  "worker_wf w \<longleftrightarrow> ready_wf (wk_ready w)"

abbreviation worker_items :: "worker \<Rightarrow> (transmission_id \<times> transmission) list" where
  "worker_items w \<equiv> rq_transmissions (wk_ready w)"

lemma assign_to_worker_in_range:
  "0 < n \<Longrightarrow> n < 2 ^ 8 \<Longrightarrow> assign_to_worker H t n = Inr i \<Longrightarrow> i < n"
  by (auto simp: assign_to_worker_def split: if_splits option.splits)
    (metis less_trans mod_less mod_less_divisor)

lemma assign_to_worker_ok:
  assumes "0 < n" "ha_transmission_id_bytes H t \<noteq> None"
  shows "\<exists>i. assign_to_worker H t n = Inr i"
  using assms by (cases "n = 1") (auto simp: assign_to_worker_def)

lemma worker_insert_items:
  assumes "worker_wf w" "Suc (length (worker_items w)) < 2 ^ 64"
  shows "worker_wf (snd (worker_insert t x w)) \<and> fst (worker_insert t x w) = (t \<notin> fst ` set (worker_items w)) \<and>
    worker_items (snd (worker_insert t x w)) =
      (if t \<in> fst ` set (worker_items w) then worker_items w else worker_items w @ [(t, x)])"
proof -
  obtain new q where q: "ready_insert t x (wk_ready w) = (new, q)" by fastforce
  show ?thesis
    using rq.insert_back [OF assms [unfolded worker_wf_def] q] by (simp add: worker_insert_def q worker_wf_def)
qed

lemma worker_contains_items:
  "worker_wf w \<Longrightarrow> t \<in> fst ` set (worker_items w) \<Longrightarrow> worker_contains_transmission E L s p w t"
  using rq.contains_iff by (auto simp: worker_contains_transmission_def worker_wf_def)

end
