(* ===== verification/PrimaryState.thy ===== *)
theory PrimaryState
  imports Worker
begin

text \<open>
  The state of the primary (\<open>struct Primary\<close> and \<open>struct Sync\<close>, \<open>node/bft/src/primary.rs\<close>
  and \<open>node/bft/src/sync/mod.rs\<close>) and of the inbound queues of consensus
  (\<open>struct Consensus\<close>, \<open>node/consensus/src/lib.rs\<close>). The BFT holds the primary, the primary
  sends rounds and certificates to the BFT over a channel, and the BFT hands sub-DAGs to
  consensus over another one, so the three components change one another's state: the
  records stand here, before the operations.
\<close>

text \<open>The sender of the primary to the BFT: not set, set with the receiving handlers stopped, or set with
  the handlers running.\<close>

datatype link = NotSet | Closed | Open

text \<open>The storage, the ledger and the account are shared with the BFT and held there. The lock of
  \<open>propose_batch\<close> holds the round of the latest proposal. \<open>pm_cache_file\<close> is the file of the proposal
  cache.\<close>

record primary =
  pm_keep_state :: bool
  pm_save_pending :: bool
  pm_workers :: "worker list"
  pm_bft_sender :: link
  pm_proposed_batch :: "proposal option"
  pm_latest_proposed_batch_timestamp :: int
  pm_signed_proposals :: signed_proposals
  pm_propose_lock :: nat
  pm_is_block_synced :: bool
  pm_cache_file :: "bytes option"

definition primary_new :: "bool \<Rightarrow> bytes option \<Rightarrow> primary" where
  "primary_new keep file =
     \<lparr>pm_keep_state = keep, pm_save_pending = False, pm_workers = [], pm_bft_sender = NotSet,
      pm_proposed_batch = None, pm_latest_proposed_batch_timestamp = 0, pm_signed_proposals = [],
      pm_propose_lock = 0, pm_is_block_synced = False, pm_cache_file = file\<rparr>"

text \<open>The queues of consensus, each an LRU cache.\<close>

record inbound =
  in_solutions_queue :: "(solution_id, solution) imap"
  in_deployments :: "(transaction_id, transaction) imap"
  in_executions :: "(transaction_id, transaction) imap"
  in_seen_solutions :: "(solution_id, unit) imap"
  in_seen_transactions :: "(transaction_id, unit) imap"

definition inbound_new :: inbound where
  "inbound_new =
     \<lparr>in_solutions_queue = [], in_deployments = [], in_executions = [], in_seen_solutions = [],
      in_seen_transactions = []\<rparr>"

end
