(* ===== verification/Bft.thy ===== *)
theory Bft
  imports Dag PrimaryState
begin

text \<open>
  The BFT component (\<open>node/bft/src/bft.rs\<close>): readiness of a round, the DAG update, the
  commit of an anchor and of the earlier anchors it links to, and the ordering of the
  sub-DAG to commit. The storage and the ledger are shared with the primary; both are
  fields of the state here, because the BFT advances the storage round, collects garbage
  and caches the leader. The state also holds the primary, as the code's struct does, and the
  queues of consensus, which the handler of a committed sub-DAG changes. A call returns its result together with the state it leaves. What is
  not under \<open>src/node/bft\<close> is a parameter: the \<open>Subdag\<close> constructor and its anchor round
  (snarkVM), and the handler at the other end of the consensus channel.
\<close>

section \<open>State\<close>

definition MAX_BATCH_DELAY_IN_MS :: nat where
  "MAX_BATCH_DELAY_IN_MS = 2000"

definition MAX_LEADER_CERTIFICATE_DELAY_IN_SECS :: int where
  "MAX_LEADER_CERTIFICATE_DELAY_IN_SECS = 2 * int MAX_BATCH_DELAY_IN_MS div 1000"

record 'ts bft =
  bft_address :: address
  bft_storage :: "'ts storage"
  bft_ledger :: core_ledger
  bft_dag :: dag
  bft_leader_certificate :: "certificate option"
  bft_leader_certificate_timer :: int
  bft_consensus_sender :: bool
  bft_primary :: primary
  bft_inbound :: inbound

text \<open>The outcome of handing a sub-DAG to consensus: the callback succeeds, the callback reports an
  error or is dropped, or the channel is closed.\<close>

datatype consensus_reply = Advanced | Rejected | ChannelClosed

record 'ts bft_params =
  bp_env :: "'ts env"
  bp_subdag_from :: "subdag \<Rightarrow> bool"
  bp_anchor_round :: "subdag \<Rightarrow> nat"
  bp_consensus :: "'ts bft \<Rightarrow> subdag \<Rightarrow> transmissions \<Rightarrow> consensus_reply \<times> core_ledger \<times> primary \<times> inbound"

datatype bft_error =
    NoCommitteeForRound nat
  | NoCertificatesInRound nat
  | MissingCertificate field
  | RatificationInSubdag
  | MissingTransmission transmission_id
  | InvalidSubdag
  | AnchorRoundMismatch
  | ConsensusChannelClosed
  | OrderingOutOfFuel

definition bft_new :: "address \<Rightarrow> 'ts storage \<Rightarrow> core_ledger \<Rightarrow> primary \<Rightarrow> 'ts bft" where
  "bft_new a s L p =
     \<lparr>bft_address = a, bft_storage = s, bft_ledger = L, bft_dag = dag_new,
      bft_leader_certificate = None, bft_leader_certificate_timer = 0, bft_consensus_sender = False,
      bft_primary = p, bft_inbound = inbound_new\<rparr>"

definition leader :: "'ts bft \<Rightarrow> address option" where
  "leader b = map_option cert_author (bft_leader_certificate b)"

section \<open>Readiness of a round\<close>

text \<open>The cached leader of a round, or the node's own address, which is then cached.\<close>

definition elect_leader :: "nat \<Rightarrow> 'ts bft \<Rightarrow> address \<times> 'ts bft" where
  "elect_leader round b =
     (case latest_leader (bft_ledger b) of
        Some (r, a) \<Rightarrow>
          if r = round then (a, b)
          else (bft_address b, b\<lparr>bft_ledger := update_latest_leader (bft_ledger b) round (bft_address b)\<rparr>)
      | None \<Rightarrow> (bft_address b, b\<lparr>bft_ledger := update_latest_leader (bft_ledger b) round (bft_address b)\<rparr>))"

definition is_timer_expired :: "int \<Rightarrow> 'ts bft \<Rightarrow> bool" where
  "is_timer_expired now b \<longleftrightarrow>
     i64_add (bft_leader_certificate_timer b) MAX_LEADER_CERTIFICATE_DELAY_IN_SECS \<le> now"

definition is_even_round_ready_for_next_round ::
  "int \<Rightarrow> 'ts bft \<Rightarrow> certificate list \<Rightarrow> committee \<Rightarrow> nat \<Rightarrow> bool" where
  "is_even_round_ready_for_next_round now b certificates com current_round =
     (if \<not> com_quorum_reached com (cert_author ` set certificates) then False
      else if (case bft_leader_certificate b of None \<Rightarrow> False | Some c \<Rightarrow> cert_round c = current_round) then True
      else if is_timer_expired now b then True
      else False)"

definition update_leader_certificate_to_even_round ::
  "network \<Rightarrow> int \<Rightarrow> nat \<Rightarrow> 'ts bft \<Rightarrow> bool \<times> 'ts bft" where
  "update_leader_certificate_to_even_round N now even_round b =
     (let current_round = st_current_round (bft_storage b) in
      if current_round \<noteq> even_round then (False, b)
      else if current_round mod 2 \<noteq> 0 \<or> current_round < 2 then (False, b)
      else let certificates = get_certificates_for_round (bft_storage b) current_round in
        if certificates = [] then (False, b\<lparr>bft_leader_certificate := None\<rparr>)
        else case get_committee_lookback_for_round N (bft_ledger b) current_round of
          Inl _ \<Rightarrow> (False, b)
        | Inr com \<Rightarrow>
            (let (a, b1) = elect_leader current_round b;
                 b2 = b1\<lparr>bft_leader_certificate := find (\<lambda>c. cert_author c = a) certificates\<rparr>
             in (is_even_round_ready_for_next_round now b2 certificates com current_round, b2)))"

fun compute_stake_loop :: "field \<Rightarrow> committee \<Rightarrow> certificate list \<Rightarrow> nat \<times> nat \<Rightarrow> nat \<times> nat" where
  "compute_stake_loop i com [] acc = acc"
| "compute_stake_loop i com (c # cs) (w, wo) =
     (let stake = com_stake com (cert_author c) in
      if i \<in> set (cert_previous_ids c)
      then compute_stake_loop i com cs (u64_saturating_add w stake, wo)
      else compute_stake_loop i com cs (w, u64_saturating_add wo stake))"

definition compute_stake_for_leader_certificate ::
  "field \<Rightarrow> certificate list \<Rightarrow> committee \<Rightarrow> nat \<times> nat" where
  "compute_stake_for_leader_certificate i certificates com =
     (if certificates = [] then (0, 0) else compute_stake_loop i com certificates (0, 0))"

definition is_leader_quorum_or_nonleaders_available :: "network \<Rightarrow> int \<Rightarrow> nat \<Rightarrow> 'ts bft \<Rightarrow> bool" where
  "is_leader_quorum_or_nonleaders_available N now odd_round b =
     (let current_round = st_current_round (bft_storage b) in
      if current_round \<noteq> odd_round then False
      else if current_round mod 2 \<noteq> 1 then False
      else let certificates = get_certificates_for_round (bft_storage b) current_round in
        case get_committee_lookback_for_round N (bft_ledger b) current_round of
          Inl _ \<Rightarrow> False
        | Inr com \<Rightarrow>
            if \<not> com_quorum_reached com (cert_author ` set certificates) then False
            else case bft_leader_certificate b of
              None \<Rightarrow> True
            | Some lc \<Rightarrow>
                (let (w, wo) = compute_stake_for_leader_certificate (cert_id lc) certificates com
                 in w \<ge> com_availability_threshold com \<or> wo \<ge> com_quorum_threshold com \<or>
                    is_timer_expired now b))"

definition update_to_next_round :: "network \<Rightarrow> int \<Rightarrow> nat \<Rightarrow> 'ts bft \<Rightarrow> bool \<times> 'ts bft" where
  "update_to_next_round N now current_round b =
     (if current_round < st_current_round (bft_storage b) then (False, b)
      else let (is_ready, b1) =
          (if current_round mod 2 = 0 then update_leader_certificate_to_even_round N now current_round b
           else (is_leader_quorum_or_nonleaders_available N now current_round b, b))
        in if is_ready
           then (case increment_to_next_round (bft_ledger b1) current_round (bft_storage b1) of
                   (Inl _, s) \<Rightarrow> (False, b1\<lparr>bft_storage := s\<rparr>)
                 | (Inr _, s) \<Rightarrow> (True, b1\<lparr>bft_storage := s, bft_leader_certificate_timer := now\<rparr>))
           else (False, b1))"

section \<open>Ordering and links\<close>

text \<open>The certificate an ID refers to: the DAG first, storage otherwise.\<close>

definition find_previous :: "'ts bft \<Rightarrow> nat \<Rightarrow> field \<Rightarrow> certificate option" where
  "find_previous b previous_round i =
     (case dag_get_certificate_for_round_with_id (bft_dag b) previous_round i of
        Some c \<Rightarrow> Some c
      | None \<Rightarrow> get_certificate (bft_storage b) i)"

text \<open>Whether the traversal leaves an ID alone for another reason than having seen it.\<close>

definition skip_previous :: "bool \<Rightarrow> 'ts bft \<Rightarrow> nat \<Rightarrow> field \<Rightarrow> bool" where
  "skip_previous allow_ledger b previous_round i \<longleftrightarrow>
     is_recently_committed (bft_dag b) previous_round i \<or>
     allow_ledger \<and> unwrap_or False (ledger_contains_certificate (bft_ledger b) i)"

text \<open>The inner loop of the traversal, over the reversed previous certificate IDs; the buffer is a
  stack with its top at the head.\<close>

fun push_previous ::
  "bool \<Rightarrow> 'ts bft \<Rightarrow> nat \<Rightarrow> field list \<Rightarrow> field set \<times> certificate list \<Rightarrow>
   (bft_error, field set \<times> certificate list) result" where
  "push_previous allow_ledger b previous_round [] st = Inr st"
| "push_previous allow_ledger b previous_round (i # is) (ordered, buffer) =
     (if i \<in> ordered then push_previous allow_ledger b previous_round is (ordered, buffer)
      else if skip_previous allow_ledger b previous_round i
        then push_previous allow_ledger b previous_round is (ordered, buffer)
      else case find_previous b previous_round i of
        None \<Rightarrow> Inl (MissingCertificate i)
      | Some c \<Rightarrow> push_previous allow_ledger b previous_round is (insert (cert_id c) ordered, c # buffer))"

fun order_loop ::
  "nat \<Rightarrow> bool \<Rightarrow> 'ts bft \<Rightarrow> field set \<Rightarrow> certificate list \<Rightarrow> subdag \<Rightarrow> (bft_error, subdag) result" where
  "order_loop fuel allow_ledger b ordered [] commit = Inr commit"
| "order_loop 0 allow_ledger b ordered (c # buffer) commit = Inl OrderingOutOfFuel"
| "order_loop (Suc fuel) allow_ledger b ordered (c # buffer) commit =
     (let commit' = btree_or_default (cert_round c) [] (iset_insert c) commit;
          previous_round = cert_round c - 1
      in if u64_add previous_round (st_max_gc_rounds (bft_storage b)) \<le> dag_last_committed_round (bft_dag b)
         then order_loop fuel allow_ledger b ordered buffer commit'
         else case push_previous allow_ledger b previous_round (rev (cert_previous_ids c)) (ordered, buffer) of
           Inl e \<Rightarrow> Inl e
         | Inr (ordered', buffer') \<Rightarrow> order_loop fuel allow_ledger b ordered' buffer' commit')"

text \<open>Every iteration takes a certificate that was pushed once, so the number of certificates in
  the DAG and in storage, and one for the leader, bounds the iterations.\<close>

definition order_fuel :: "'ts bft \<Rightarrow> nat" where
  "order_fuel b = Suc (length (st_certificates (bft_storage b)) +
     sum_list (map (length \<circ> snd) (dag_graph (bft_dag b))))"

definition order_dag_with_dfs :: "bool \<Rightarrow> 'ts bft \<Rightarrow> certificate \<Rightarrow> (bft_error, subdag) result" where
  "order_dag_with_dfs allow_ledger b leader_certificate =
     rbind (order_loop (order_fuel b) allow_ledger b {} [leader_certificate] []) (\<lambda>commit.
       Inr (retain (\<lambda>round _. u64_add round (st_max_gc_rounds (bft_storage b)) >
         dag_last_committed_round (bft_dag b)) commit))"

fun is_linked_loop :: "dag \<Rightarrow> nat list \<Rightarrow> certificate list \<Rightarrow> (bft_error, certificate list) result" where
  "is_linked_loop d [] traversal = Inr traversal"
| "is_linked_loop d (round # rounds) traversal =
     (case dag_get_certificates_for_round d round of
        None \<Rightarrow> Inl (NoCertificatesInRound round)
      | Some m \<Rightarrow> is_linked_loop d rounds
          (filter (\<lambda>p. list_ex (\<lambda>c. cert_id p \<in> set (cert_previous_ids c)) traversal) (map snd m)))"

definition is_linked :: "dag \<Rightarrow> certificate \<Rightarrow> certificate \<Rightarrow> (bft_error, bool) result" where
  "is_linked d previous current =
     rbind (is_linked_loop d (rev [cert_round previous..<cert_round current]) [current])
       (\<lambda>traversal. Inr (previous \<in> set traversal))"

section \<open>Committing\<close>

fun step_by2 :: "'a list \<Rightarrow> 'a list" where
  "step_by2 [] = []"
| "step_by2 [x] = [x]"
| "step_by2 (x # y # xs) = x # step_by2 xs"

text \<open>The earlier anchors that link to the current one, newest first.\<close>

fun collect_leaders ::
  "nat list \<Rightarrow> certificate \<Rightarrow> certificate list \<Rightarrow> 'ts bft \<Rightarrow> (bft_error, certificate list) result \<times> 'ts bft" where
  "collect_leaders [] current leaders b = (Inr leaders, b)"
| "collect_leaders (round # rounds) current leaders b =
     (let (a, b1) = elect_leader round b in
      case dag_get_certificate_for_round_with_author (bft_dag b1) round a of
        None \<Rightarrow> collect_leaders rounds current leaders b1
      | Some previous \<Rightarrow>
          (case is_linked (bft_dag b1) previous current of
             Inl e \<Rightarrow> (Inl e, b1)
           | Inr True \<Rightarrow> collect_leaders rounds previous (leaders @ [previous]) b1
           | Inr False \<Rightarrow> collect_leaders rounds current leaders b1))"

record collected =
  co_transmissions :: transmissions
  co_seen_solution_ids :: "solution_id list"
  co_seen_transaction_ids :: "transaction_id list"

definition co_empty :: collected where
  "co_empty = \<lparr>co_transmissions = [], co_seen_solution_ids = [], co_seen_transaction_ids = []\<rparr>"

fun already_seen :: "transmission_id \<Rightarrow> collected \<Rightarrow> bool" where
  "already_seen (SolutionID i _) a \<longleftrightarrow> i \<in> set (co_seen_solution_ids a)"
| "already_seen (TransactionID i _) a \<longleftrightarrow> i \<in> set (co_seen_transaction_ids a)"
| "already_seen RatificationID a \<longleftrightarrow> False"

fun mark_seen :: "transmission_id \<Rightarrow> collected \<Rightarrow> collected" where
  "mark_seen (SolutionID i _) a = a\<lparr>co_seen_solution_ids := iset_insert i (co_seen_solution_ids a)\<rparr>"
| "mark_seen (TransactionID i _) a = a\<lparr>co_seen_transaction_ids := iset_insert i (co_seen_transaction_ids a)\<rparr>"
| "mark_seen RatificationID a = a"

text \<open>The two nested loops over the certificates of the sub-DAG and their transmission IDs visit
  the concatenation of the ID lists.\<close>

fun collect_transmissions ::
  "'ts env \<Rightarrow> core_ledger \<Rightarrow> transmission_id list \<Rightarrow> collected \<Rightarrow> 'ts storage \<Rightarrow>
   (bft_error, collected) result \<times> 'ts storage" where
  "collect_transmissions E L [] acc s = (Inr acc, s)"
| "collect_transmissions E L (t # ts) acc s =
     (if t = RatificationID then (Inl RatificationInSubdag, s)
      else if already_seen t acc then collect_transmissions E L ts acc s
      else if imap_contains_key t (co_transmissions acc) then collect_transmissions E L ts acc s
      else if unwrap_or True (ledger_contains_transmission L t) then collect_transmissions E L ts acc s
      else case get_transmission E s t of
        (None, s') \<Rightarrow> (Inl (MissingTransmission t), s')
      | (Some x, s') \<Rightarrow> collect_transmissions E L ts
          ((mark_seen t acc)\<lparr>co_transmissions := imap_insert t x (co_transmissions acc)\<rparr>) s')"

definition subdag_certificates :: "subdag \<Rightarrow> certificate list" where
  "subdag_certificates sd = concat (map snd sd)"

definition commit_subdag :: "subdag \<Rightarrow> 'ts bft \<Rightarrow> 'ts bft" where
  "commit_subdag sd b =
     b\<lparr>bft_dag := fold (\<lambda>c d. dag_commit c (st_max_gc_rounds (bft_storage b)) d) (subdag_certificates sd) (bft_dag b)\<rparr>"

text \<open>Handing one sub-DAG to consensus. \<open>Inr False\<close> stands for the early \<open>return Ok(())\<close> when
  consensus did not advance.\<close>

definition trigger_consensus ::
  "'ts bft_params \<Rightarrow> nat \<Rightarrow> subdag \<Rightarrow> 'ts bft \<Rightarrow> (bft_error, bool) result \<times> 'ts bft" where
  "trigger_consensus P leader_round sd b =
     (case collect_transmissions (bp_env P) (bft_ledger b)
             (concat (map cert_transmission_ids (subdag_certificates sd))) co_empty (bft_storage b) of
        (Inl e, s) \<Rightarrow> (Inl e, b\<lparr>bft_storage := s\<rparr>)
      | (Inr acc, s) \<Rightarrow>
          (let b1 = b\<lparr>bft_storage := s\<rparr> in
           if \<not> bp_subdag_from P sd then (Inl InvalidSubdag, b1)
           else if bp_anchor_round P sd \<noteq> leader_round then (Inl AnchorRoundMismatch, b1)
           else if bft_consensus_sender b1
             then (case bp_consensus P b1 sd (co_transmissions acc) of
                     (reply, L, p, q) \<Rightarrow>
                       (case reply of
                          Advanced \<Rightarrow> Inr True
                        | Rejected \<Rightarrow> Inr False
                        | ChannelClosed \<Rightarrow> Inl ConsensusChannelClosed,
                        b1\<lparr>bft_ledger := L, bft_primary := p, bft_inbound := q\<rparr>))
           else (Inr True, b1)))"

fun commit_leaders ::
  "'ts bft_params \<Rightarrow> bool \<Rightarrow> bool \<Rightarrow> certificate list \<Rightarrow> 'ts bft \<Rightarrow> (bft_error, bool) result \<times> 'ts bft" where
  "commit_leaders P allow_ledger is_syncing [] b = (Inr True, b)"
| "commit_leaders P allow_ledger is_syncing (lc # lcs) b =
     (case order_dag_with_dfs allow_ledger b lc of
        Inl e \<Rightarrow> (Inl e, b)
      | Inr sd \<Rightarrow>
          (case (if is_syncing then (Inr True, b) else trigger_consensus P (cert_round lc) sd b) of
             (Inl e, b1) \<Rightarrow> (Inl e, b1)
           | (Inr False, b1) \<Rightarrow> (Inr False, b1)
           | (Inr True, b1) \<Rightarrow> commit_leaders P allow_ledger is_syncing lcs (commit_subdag sd b1)))"

definition commit_leader_certificate ::
  "'ts bft_params \<Rightarrow> bool \<Rightarrow> bool \<Rightarrow> certificate \<Rightarrow> 'ts bft \<Rightarrow> (bft_error, unit) result \<times> 'ts bft" where
  "commit_leader_certificate P allow_ledger is_syncing lc b =
     (let rounds = step_by2 (rev [u64_add (dag_last_committed_round (bft_dag b)) 2..<Suc (cert_round lc - 2)])
      in case collect_leaders rounds lc [lc] b of
           (Inl e, b1) \<Rightarrow> (Inl e, b1)
         | (Inr leaders, b1) \<Rightarrow>
             (case commit_leaders P allow_ledger is_syncing (rev leaders) b1 of
                (Inl e, b2) \<Rightarrow> (Inl e, b2)
              | (Inr False, b2) \<Rightarrow> (Inr (), b2)
              | (Inr True, b2) \<Rightarrow>
                  (Inr (), b2\<lparr>bft_storage :=
                     garbage_collect_certificates (bp_env P) (cert_round lc) (bft_storage b2)\<rparr>)))"

definition update_dag ::
  "'ts bft_params \<Rightarrow> bool \<Rightarrow> bool \<Rightarrow> certificate \<Rightarrow> 'ts bft \<Rightarrow> (bft_error, unit) result \<times> 'ts bft" where
  "update_dag P allow_ledger is_syncing c b =
     (let N = env_network (bp_env P);
          b = b\<lparr>bft_dag := dag_insert c (bft_dag b)\<rparr>;
          commit_round = cert_round c - 1
      in if commit_round mod 2 \<noteq> 0 \<or> commit_round < 2 then (Inr (), b)
         else if commit_round \<le> dag_last_committed_round (bft_dag b) then (Inr (), b)
         else case get_committee_lookback_for_round N (bft_ledger b) commit_round of
           Inl _ \<Rightarrow> (Inl (NoCommitteeForRound commit_round), b)
         | Inr _ \<Rightarrow>
             (let (a, b) = elect_leader commit_round b in
              case dag_get_certificate_for_round_with_author (bft_dag b) commit_round a of
                None \<Rightarrow> (Inr (), b)
              | Some lc \<Rightarrow>
                  (case dag_get_certificates_for_round (bft_dag b) (cert_round c) of
                     None \<Rightarrow> (Inl (NoCertificatesInRound (cert_round c)), b)
                   | Some m \<Rightarrow>
                       (case get_committee_lookback_for_round N (bft_ledger b) (cert_round c) of
                          Inl _ \<Rightarrow> (Inl (NoCommitteeForRound (cert_round c)), b)
                        | Inr com \<Rightarrow>
                            (let authors = cert_author ` set (filter (\<lambda>x. cert_id lc \<in> set (cert_previous_ids x)) (map snd m))
                             in if \<not> com_availability_reached com authors then (Inr (), b)
                                else commit_leader_certificate P allow_ledger is_syncing lc b)))))"

definition sync_bft_dag_at_bootup :: "certificate list \<Rightarrow> 'ts bft \<Rightarrow> 'ts bft" where
  "sync_bft_dag_at_bootup certificates b =
     b\<lparr>bft_dag := fold (\<lambda>c d. dag_commit c (st_max_gc_rounds (bft_storage b)) d) certificates (bft_dag b)\<rparr>"

end
