(* ===== verification/Primary.thy ===== *)
theory Primary
  imports Bft
begin

text \<open>
  The primary (\<open>node/bft/src/primary.rs\<close>): proposing a batch, certifying it with the keys of
  the development committee, the empty proposals of the other validators, advancing the
  round, storing certificates, and the boot-up from the proposal cache. It works on the
  state of the BFT, which holds the primary, the storage and the ledger, because it sends
  rounds and certificates to the BFT and waits for the answer. A call returns its result with
  the state it leaves. The clock is read once for each call of the operations below. What
  comes from snarkVM is a parameter: making a batch header, making a certificate, and the
  key derivation of the development accounts.
\<close>

section \<open>Parameters and errors\<close>

definition MIN_BATCH_DELAY_IN_SECS :: int where
  "MIN_BATCH_DELAY_IN_SECS = 1"

definition MAX_TRANSMISSIONS_TOLERANCE :: "network \<Rightarrow> nat" where
  "MAX_TRANSMISSIONS_TOLERANCE N = net_max_transmissions_per_batch N * 2"

record 'ts primary_params =
  pp_bft :: "'ts bft_params"
  pp_hashing :: hashing
  pp_codecs :: codecs
  pp_account :: "nat \<Rightarrow> address option"
  pp_header_new :: "address \<Rightarrow> nat \<Rightarrow> int \<Rightarrow> field \<Rightarrow> transmission_id list \<Rightarrow> field list \<Rightarrow> batch_header option"
  pp_certificate_from :: "batch_header \<Rightarrow> signature list \<Rightarrow> certificate option"

abbreviation pp_env :: "'ts primary_params \<Rightarrow> 'ts env" where
  "pp_env P \<equiv> bp_env (pp_bft P)"

abbreviation pp_network :: "'ts primary_params \<Rightarrow> network" where
  "pp_network P \<equiv> env_network (pp_env P)"

abbreviation pp_crypto :: "'ts primary_params \<Rightarrow> crypto" where
  "pp_crypto P \<equiv> env_crypto (pp_env P)"

datatype primary_error =
    RoundZero
  | BftSendFailed
  | PrimaryLedgerError ledger_error
  | PreviousCommitteeUnknown
  | ProposedTransactionUnreadable
  | HeaderFailed
  | PrimaryProposalError proposal_error
  | SigningFailed
  | PrimaryStorageError storage_error
  | PrimaryBftError bft_error
  | FastForwardOutOfFuel
  | PrimaryWorkerError worker_error
  | OwnSignatureMissing
  | AccountFailed
  | TimestampBeforePrevious
  | TimestampTooSoon
  | NodeSyncing
  | RoundTooFarInPast
  | FetchFailed
  | ProposalCacheError cache_error
  | SenderAlreadySet
  | TooManyGcRounds

definition set_workers :: "worker list \<Rightarrow> 'ts bft \<Rightarrow> 'ts bft" where
  "set_workers ws b = b\<lparr>bft_primary := (bft_primary b)\<lparr>pm_workers := ws\<rparr>\<rparr>"

section \<open>Messages to the BFT\<close>

text \<open>The BFT handlers run \<open>update_to_next_round\<close> and \<open>update_dag::<true, false>\<close> and answer with the result; sending
  fails when the handlers have been stopped.\<close>

definition send_primary_round_to_bft ::
  "'ts primary_params \<Rightarrow> int \<Rightarrow> nat \<Rightarrow> 'ts bft \<Rightarrow> (primary_error, bool) result \<times> 'ts bft" where
  "send_primary_round_to_bft P now round b =
     (case pm_bft_sender (bft_primary b) of
        Open \<Rightarrow> (let (ready, b') = update_to_next_round (pp_network P) now round b in (Inr ready, b'))
      | _ \<Rightarrow> (Inl BftSendFailed, b))"

definition send_primary_certificate_to_bft ::
  "'ts primary_params \<Rightarrow> certificate \<Rightarrow> 'ts bft \<Rightarrow> (primary_error, unit) result \<times> 'ts bft" where
  "send_primary_certificate_to_bft P c b =
     (case pm_bft_sender (bft_primary b) of
        Open \<Rightarrow> (let (r, b') = update_dag (pp_bft P) True False c b in (map_err PrimaryBftError r, b'))
      | _ \<Rightarrow> (Inl BftSendFailed, b))"

text \<open>\<open>if let Some(bft_sender) = self.bft_sender.get()\<close> around sending a certificate.\<close>

definition send_certificate ::
  "'ts primary_params \<Rightarrow> certificate \<Rightarrow> 'ts bft \<Rightarrow> (primary_error, unit) result \<times> 'ts bft" where
  "send_certificate P c b =
     (if pm_bft_sender (bft_primary b) = NotSet then (Inr (), b) else send_primary_certificate_to_bft P c b)"

section \<open>Filling a batch\<close>

datatype verdict = Skip | Take nat | OverLimit | Unreadable

text \<open>The checks on one transmission; \<open>cost\<close> is the cost of the batch so far, and \<open>Take\<close> carries the
  new one.\<close>

fun proposal_verdict ::
  "'ts env \<Rightarrow> core_ledger \<Rightarrow> nat \<Rightarrow> transmission_id \<Rightarrow> transmission \<Rightarrow> verdict" where
  "proposal_verdict E L cost (SolutionID i ck) (Solution d) =
     (if cr_solution_checksum (env_crypto E) d \<noteq> Some ck then Skip
      else if is_ok (check_solution_basic (env_crypto E) L i d) then Take cost else Skip)"
| "proposal_verdict E L cost (TransactionID i ck) (Transaction d) =
     (if cr_transaction_checksum (env_crypto E) d \<noteq> Some ck then Skip
      else case read_transaction (env_crypto E) d of
        None \<Rightarrow> Unreadable
      | Some tx \<Rightarrow>
          if \<not> is_ok (check_transaction_basic L i tx) then Skip
          else (case transaction_spent_cost L i tx of
             Inl _ \<Rightarrow> Skip
           | Inr c \<Rightarrow>
               (case u64_checked_add cost c of
                  None \<Rightarrow> Skip
                | Some next_cost \<Rightarrow>
                    if next_cost > net_batch_spend_limit (env_network E) then OverLimit else Take next_cost)))"
| "proposal_verdict E L cost _ _ = Skip"

text \<open>How the loop over a worker ends: the queue is empty, \<open>continue 'outer\<close>, \<open>break 'outer\<close>, or an early
  return.\<close>

datatype drain_exit = Drained | WorkerFull | BatchFull | DrainFailed

lemma worker_remove_front_shorter:
  "worker_remove_front w = (Some e, w') \<Longrightarrow> length (worker_items w') < length (worker_items w)"
  by (auto simp: worker_remove_front_def ready_remove_front_def Let_def split: list.splits prod.splits)

function drain_worker ::
  "'ts env \<Rightarrow> core_ledger \<Rightarrow> 'ts storage \<Rightarrow> nat \<Rightarrow> transmissions \<Rightarrow> nat \<Rightarrow> worker \<Rightarrow>
   drain_exit \<times> transmissions \<times> nat \<times> worker" where
  "drain_worker E L s num ts cost w =
     (case worker_remove_front w of
        (None, w') \<Rightarrow> (Drained, ts, cost, w')
      | (Some (t, x), w') \<Rightarrow>
          if length ts \<ge> net_max_transmissions_per_batch (env_network E) then (BatchFull, ts, cost, w')
          else if num \<ge> max_transmissions_per_worker (env_network E) then (WorkerFull, ts, cost, w')
          else if unwrap_or True (ledger_contains_transmission L t) then drain_worker E L s num ts cost w'
          else if ts \<noteq> [] \<and> contains_transmission E s t then drain_worker E L s num ts cost w'
          else (case proposal_verdict E L cost t x of
             Skip \<Rightarrow> drain_worker E L s num ts cost w'
           | Unreadable \<Rightarrow> (DrainFailed, ts, cost, w')
           | OverLimit \<Rightarrow> (BatchFull, ts, cost, worker_insert_front t x w')
           | Take c \<Rightarrow> drain_worker E L s (Suc num) (imap_insert t x ts) c w'))"
  by pat_completeness auto
termination
  by (relation "measure (\<lambda>(E, L, s, num, ts, cost, w). length (worker_items w))")
    (auto dest!: sym [of "(Some _, _)"] worker_remove_front_shorter)

declare drain_worker.simps [simp del]

fun drain_workers ::
  "'ts env \<Rightarrow> core_ledger \<Rightarrow> 'ts storage \<Rightarrow> worker list \<Rightarrow> transmissions \<Rightarrow> nat \<Rightarrow>
   (primary_error, transmissions) result \<times> worker list" where
  "drain_workers E L s [] ts cost = (Inr ts, [])"
| "drain_workers E L s (w # ws) ts cost =
     (case drain_worker E L s 0 ts cost w of
        (BatchFull, ts', _, w') \<Rightarrow> (Inr ts', w' # ws)
      | (DrainFailed, _, _, w') \<Rightarrow> (Inl ProposedTransactionUnreadable, w' # ws)
      | (_, ts', cost', w') \<Rightarrow> (let (r, ws') = drain_workers E L s ws ts' cost' in (r, w' # ws')))"

section \<open>Reinsertion\<close>

definition reinsert_transmissions_into_workers ::
  "'ts primary_params \<Rightarrow> transmissions \<Rightarrow> 'ts bft \<Rightarrow> (primary_error, unit) result \<times> 'ts bft" where
  "reinsert_transmissions_into_workers P ts b =
     (let (r, ws) = assign_to_workers (pp_hashing P)
         (\<lambda>t x w. snd (reinsert (pp_env P) (bft_ledger b) (bft_storage b) (pm_proposed_batch (bft_primary b)) t x w))
         ts (pm_workers (bft_primary b))
      in (map_err PrimaryWorkerError r, set_workers ws b))"

section \<open>Advancing the round\<close>

text \<open>The fast-forward loop. It may not end in the code, so it takes fuel.\<close>

fun fast_forward :: "nat \<Rightarrow> nat \<Rightarrow> nat \<Rightarrow> 'ts bft \<Rightarrow> (primary_error, unit) result \<times> 'ts bft" where
  "fast_forward 0 target r b = (if r < target then (Inl FastForwardOutOfFuel, b) else (Inr (), b))"
| "fast_forward (Suc fuel) target r b =
     (if r < target
      then (case increment_to_next_round (bft_ledger b) r (bft_storage b) of
              (Inl e, s) \<Rightarrow> (Inl (PrimaryStorageError e), b\<lparr>bft_storage := s\<rparr>)
            | (Inr r', s) \<Rightarrow> fast_forward fuel target r'
                (b\<lparr>bft_storage := s, bft_primary := (bft_primary b)\<lparr>pm_proposed_batch := None\<rparr>\<rparr>))
      else (Inr (), b))"

definition fast_forward_fuel :: "nat \<Rightarrow> nat" where
  "fast_forward_fuel next_round = next_round + 3"

text \<open>What the two variants of \<open>try_increment_to_the_next_round\<close> share. \<open>Inr True\<close> says that the next round is ready
  to be proposed.\<close>

definition advance_round ::
  "'ts primary_params \<Rightarrow> int \<Rightarrow> nat \<Rightarrow> 'ts bft \<Rightarrow> (primary_error, bool) result \<times> 'ts bft" where
  "advance_round P now next_round b =
     (case (if u64_add (st_current_round (bft_storage b)) (st_max_gc_rounds (bft_storage b)) \<ge> next_round
            then fast_forward (fast_forward_fuel next_round) (next_round - 1) (st_current_round (bft_storage b)) b
            else (Inr (), b)) of
        (Inl e, b1) \<Rightarrow> (Inl e, b1)
      | (Inr _, b1) \<Rightarrow>
          (let current_round = st_current_round (bft_storage b1) in
           if current_round < next_round
           then (if pm_bft_sender (bft_primary b1) \<noteq> NotSet then send_primary_round_to_bft P now current_round b1
                 else (case increment_to_next_round (bft_ledger b1) current_round (bft_storage b1) of
                    (Inl e, s) \<Rightarrow> (Inl (PrimaryStorageError e), b1\<lparr>bft_storage := s\<rparr>)
                  | (Inr _, s) \<Rightarrow> (Inr True, b1\<lparr>bft_storage := s\<rparr>)))
           else (Inr False, b1)))"

definition try_increment_to_the_next_round_lite ::
  "'ts primary_params \<Rightarrow> int \<Rightarrow> nat \<Rightarrow> 'ts bft \<Rightarrow> (primary_error, unit) result \<times> 'ts bft" where
  "try_increment_to_the_next_round_lite P now next_round b =
     (case advance_round P now next_round b of (Inl e, b') \<Rightarrow> (Inl e, b') | (Inr _, b') \<Rightarrow> (Inr (), b'))"

section \<open>Proposing\<close>

definition check_proposal_timestamp :: "'ts bft \<Rightarrow> nat \<Rightarrow> address \<Rightarrow> int \<Rightarrow> (primary_error, unit) result" where
  "check_proposal_timestamp b previous_round author timestamp =
     (let previous_timestamp =
        (case get_certificate_for_round_with_author (bft_storage b) previous_round author of
           Some c \<Rightarrow> cert_timestamp c
         | None \<Rightarrow> pm_latest_proposed_batch_timestamp (bft_primary b))
      in case i64_checked_sub timestamp previous_timestamp of
           None \<Rightarrow> Inl TimestampBeforePrevious
         | Some elapsed \<Rightarrow> if elapsed < MIN_BATCH_DELAY_IN_SECS then Inl TimestampTooSoon else Inr ())"

definition store_and_broadcast_certificate_lite ::
  "'ts primary_params \<Rightarrow> int \<Rightarrow> proposal \<Rightarrow> committee \<Rightarrow> 'ts bft \<Rightarrow> (primary_error, unit) result \<times> 'ts bft" where
  "store_and_broadcast_certificate_lite P now p com b =
     (case to_certificate (pp_crypto P) (pp_certificate_from P) com p of
        Inl e \<Rightarrow> (Inl (PrimaryProposalError e), b)
      | Inr (c, ts) \<Rightarrow>
          (case insert_certificate (pp_env P) (bft_ledger b) now (bft_storage b) c ts [] of
             Inl e \<Rightarrow> (Inl (PrimaryStorageError e), b)
           | Inr s \<Rightarrow>
               (case send_certificate P c (b\<lparr>bft_storage := s\<rparr>) of
                  (Inl e, b1) \<Rightarrow> (Inl e, b1)
                | (Inr _, b1) \<Rightarrow> try_increment_to_the_next_round_lite P now (u64_add (cert_round c) 1) b1)))"

text \<open>The signatures of the other validators. The last component is the signature by \<open>own\<close>, the last
  one made.\<close>

fun forge_signatures ::
  "crypto \<Rightarrow> committee \<Rightarrow> address \<Rightarrow> field \<Rightarrow> address list \<Rightarrow> signature option \<Rightarrow> proposal \<Rightarrow>
   (primary_error, proposal \<times> signature option) result" where
  "forge_signatures K com own batch_id [] our p = Inr (p, our)"
| "forge_signatures K com own batch_id (signer # others) our p =
     (case cr_sign K signer batch_id of
        None \<Rightarrow> Inl SigningFailed
      | Some sg \<Rightarrow>
          rbind (map_err PrimaryProposalError (add_signature K signer sg com p)) (\<lambda>p'.
            forge_signatures K com own batch_id others (if signer = own then Some sg else our) p'))"

definition complete_batch_lite ::
  "'ts primary_params \<Rightarrow> int \<Rightarrow> address list \<Rightarrow> batch_header \<Rightarrow> proposal \<Rightarrow> committee \<Rightarrow> 'ts bft \<Rightarrow>
   (primary_error, unit) result \<times> 'ts bft" where
  "complete_batch_lite P now others h p com b =
     (case forge_signatures (pp_crypto P) com (bft_address b) (bh_batch_id h) others None p of
        Inl e \<Rightarrow> (Inl e, b)
      | Inr (p', _) \<Rightarrow>
          (case store_and_broadcast_certificate_lite P now p' com b of
             (Inr _, b1) \<Rightarrow> (Inr (), b1)
           | (Inl e, b1) \<Rightarrow>
               (case reinsert_transmissions_into_workers P (pr_transmissions p') b1 of
                  (Inl e', b2) \<Rightarrow> (Inl e', b2)
                | (Inr _, b2) \<Rightarrow> (Inl e, b2))))"

text \<open>The header and the proposal of a batch.\<close>

definition new_proposal ::
  "'ts primary_params \<Rightarrow> address \<Rightarrow> nat \<Rightarrow> int \<Rightarrow> committee \<Rightarrow> transmissions \<Rightarrow> certificate list \<Rightarrow>
   (primary_error, batch_header \<times> proposal) result" where
  "new_proposal P author round now com ts previous =
     rbind (ok_or HeaderFailed (pp_header_new P author round now (com_id com) (imap_keys ts)
              (iset_collect (map cert_id previous)))) (\<lambda>h.
       rbind (map_err PrimaryProposalError (proposal_new com h ts)) (\<lambda>p. Inr (h, p)))"

text \<open>From taking the timestamp to the end of \<open>propose_batch_lite\<close>.\<close>

definition propose_transmissions ::
  "'ts primary_params \<Rightarrow> int \<Rightarrow> address list \<Rightarrow> bool \<Rightarrow> nat \<Rightarrow> committee \<Rightarrow> certificate list \<Rightarrow> transmissions \<Rightarrow>
   'ts bft \<Rightarrow> (primary_error, nat) result \<times> 'ts bft" where
  "propose_transmissions P now others complete round com previous ts b =
     (let b = b\<lparr>bft_primary := (bft_primary b)\<lparr>pm_propose_lock := round\<rparr>\<rparr> in
      case new_proposal P (bft_address b) round now com ts previous of
        Inl e \<Rightarrow> (Inl e, snd (reinsert_transmissions_into_workers P ts b))
      | Inr (h, p) \<Rightarrow>
          (let b = b\<lparr>bft_primary := (bft_primary b)\<lparr>pm_latest_proposed_batch_timestamp := pr_timestamp p\<rparr>\<rparr> in
           if complete
           then (case complete_batch_lite P now others h p com b of
                   (Inl e, b1) \<Rightarrow> (Inl e, b1)
                 | (Inr _, b1) \<Rightarrow> (Inr round, b1))
           else (Inr round, b)))"

text \<open>Whether the previous round allows a proposal.\<close>

definition previous_ready ::
  "network \<Rightarrow> core_ledger \<Rightarrow> nat \<Rightarrow> certificate list \<Rightarrow> (primary_error, bool) result" where
  "previous_ready N L previous_round previous =
     (if previous_round > 0
      then (case get_committee_lookback_for_round N L previous_round of
              Inl _ \<Rightarrow> Inl PreviousCommitteeUnknown
            | Inr com \<Rightarrow> Inr (com_quorum_reached com (cert_author ` set previous)))
      else Inr (previous_round = 0))"

definition propose_batch_lite ::
  "'ts primary_params \<Rightarrow> int \<Rightarrow> address list \<Rightarrow> bool \<Rightarrow> 'ts bft \<Rightarrow> (primary_error, nat) result \<times> 'ts bft" where
  "propose_batch_lite P now others complete b =
     (let L = bft_ledger b; s = bft_storage b; lock = pm_propose_lock (bft_primary b);
          round = st_current_round s; previous_round = round - 1
      in if \<not> round > 0 then (Inl RoundZero, b)
         else if round < lock then (Inr 0, b)
         else if \<not> is_ok (check_proposal_timestamp b previous_round (bft_address b) now) then (Inr 0, b)
         else if contains_certificate_in_round_from s round (bft_address b)
           then (if pm_bft_sender (bft_primary b) = NotSet then (Inr 0, b)
                 else (case send_primary_round_to_bft P now round b of
                    (Inl e, b') \<Rightarrow> (Inl e, b')
                  | (Inr _, b') \<Rightarrow> (Inr 0, b')))
         else if round = lock then (Inr 0, b)
         else case get_committee_lookback_for_round (pp_network P) L round of
           Inl e \<Rightarrow> (Inl (PrimaryLedgerError e), b)
         | Inr com \<Rightarrow>
             if \<not> com_quorum_reached com (insert (bft_address b) (set others)) then (Inr 0, b)
             else (let previous = get_certificates_for_round s previous_round in
               case previous_ready (pp_network P) L previous_round previous of
                 Inl e \<Rightarrow> (Inl e, b)
               | Inr False \<Rightarrow> (Inr 0, b)
               | Inr True \<Rightarrow>
                   (case drain_workers (pp_env P) L s (pm_workers (bft_primary b)) [] 0 of
                      (Inl e, ws) \<Rightarrow> (Inl e, set_workers ws b)
                    | (Inr ts, ws) \<Rightarrow>
                        propose_transmissions P now others complete round com previous ts (set_workers ws b))))"

text \<open>The cached signature of an author, replaced unless it is for the same round.\<close>

definition cache_signature ::
  "address \<Rightarrow> nat \<Rightarrow> field \<Rightarrow> signature \<Rightarrow> signed_proposals \<Rightarrow> signed_proposals option" where
  "cache_signature author round batch_id sg sp =
     (case imap_get sp author of
        Some (r, _, _) \<Rightarrow> if r = round then None else Some (imap_insert author (round, batch_id, sg) sp)
      | None \<Rightarrow> Some (imap_insert author (round, batch_id, sg) sp))"

definition fake_proposal ::
  "'ts primary_params \<Rightarrow> int \<Rightarrow> address \<Rightarrow> address list \<Rightarrow> nat \<Rightarrow> 'ts bft \<Rightarrow> (primary_error, unit) result \<times> 'ts bft" where
  "fake_proposal P now author others round b =
     (case get_committee_lookback_for_round (pp_network P) (bft_ledger b) round of
        Inl e \<Rightarrow> (Inl (PrimaryLedgerError e), b)
      | Inr com \<Rightarrow>
          (case new_proposal P author round now com [] (get_certificates_for_round (bft_storage b) (round - 1)) of
             Inl e \<Rightarrow> (Inl e, b)
           | Inr (h, p) \<Rightarrow>
               (case forge_signatures (pp_crypto P) com (bft_address b) (bh_batch_id h) others None p of
                  Inl e \<Rightarrow> (Inl e, b)
                | Inr (_, None) \<Rightarrow> (Inl OwnSignatureMissing, b)
                | Inr (p', Some sg) \<Rightarrow>
                    (case to_certificate (pp_crypto P) (pp_certificate_from P) com p' of
                       Inl e \<Rightarrow> (Inl (PrimaryProposalError e), b)
                     | Inr (c, ts) \<Rightarrow>
                         (case insert_certificate (pp_env P) (bft_ledger b) now (bft_storage b) c ts [] of
                            Inl e \<Rightarrow> (Inl (PrimaryStorageError e), b)
                          | Inr s \<Rightarrow>
                              (let b1 = b\<lparr>bft_storage := s\<rparr> in
                               case cache_signature author round (bh_batch_id h) sg
                                      (pm_signed_proposals (bft_primary b1)) of
                                 None \<Rightarrow> (Inr (), b1)
                               | Some sp \<Rightarrow> send_certificate P c
                                   (b1\<lparr>bft_primary := (bft_primary b1)\<lparr>pm_signed_proposals := sp\<rparr>\<rparr>)))))))"

fun dev_accounts :: "'ts primary_params \<Rightarrow> nat list \<Rightarrow> (primary_error, address list) result" where
  "dev_accounts P [] = Inr []"
| "dev_accounts P (i # is) =
     rbind (ok_or AccountFailed (pp_account P i)) (\<lambda>a. rbind (dev_accounts P is) (\<lambda>as. Inr (a # as)))"

fun fake_proposals ::
  "'ts primary_params \<Rightarrow> int \<Rightarrow> address list \<Rightarrow> nat \<Rightarrow> nat list \<Rightarrow> 'ts bft \<Rightarrow> (primary_error, unit) result \<times> 'ts bft" where
  "fake_proposals P now accounts round [] b = (Inr (), b)"
| "fake_proposals P now accounts round (vid # vids) b =
     (case fake_proposal P now (accounts ! vid) (filter (\<lambda>a. a \<noteq> accounts ! vid) accounts) round b of
        (Inl e, b1) \<Rightarrow> (Inl e, b1)
      | (Inr _, b1) \<Rightarrow> fake_proposals P now accounts round vids b1)"

definition propose_batch ::
  "'ts primary_params \<Rightarrow> int \<Rightarrow> bool \<Rightarrow> 'ts bft \<Rightarrow> (primary_error, unit) result \<times> 'ts bft" where
  "propose_batch P now complete b =
     (case dev_accounts P [0..<4] of
        Inl e \<Rightarrow> (Inl e, b)
      | Inr accounts \<Rightarrow>
          (case propose_batch_lite P now (drop 1 accounts) complete b of
             (Inl e, b1) \<Rightarrow> (Inl e, b1)
           | (Inr round, b1) \<Rightarrow>
               if \<not> complete \<or> round = 0 then (Inr (), b1)
               else fake_proposals P now accounts round [1..<4] b1))"

definition try_increment_to_the_next_round ::
  "'ts primary_params \<Rightarrow> int \<Rightarrow> nat \<Rightarrow> 'ts bft \<Rightarrow> (primary_error, unit) result \<times> 'ts bft" where
  "try_increment_to_the_next_round P now next_round b =
     (case advance_round P now next_round b of
        (Inl e, b1) \<Rightarrow> (Inl e, b1)
      | (Inr ready, b1) \<Rightarrow> if ready then propose_batch P now True b1 else (Inr (), b1))"

end
