(* ===== verification/PrimaryRun.thy ===== *)
theory PrimaryRun
  imports Primary
begin

text \<open>
  The life of the primary (\<open>node/bft/src/primary.rs\<close>, \<open>node/bft/src/sync/mod.rs\<close> and the
  handlers of \<open>node/bft/src/bft.rs\<close>): synchronising storage and the DAG with the ledger at
  boot-up, loading the proposal cache, one iteration of each handler loop, and the
  shutdown that writes the proposal cache. Each handler iteration is one step of the
  node: the code serialises the critical ones by the propose lock and the BFT lock.
\<close>

section \<open>Sync with the ledger at boot-up\<close>

definition authority_certificates :: "block \<Rightarrow> certificate list" where
  "authority_certificates blk =
     (case blk_authority blk of Beacon _ \<Rightarrow> [] | Quorum sd \<Rightarrow> concat (map snd sd))"

definition sync_block ::
  "'ts env \<Rightarrow> core_ledger \<Rightarrow> int \<Rightarrow> block \<Rightarrow> 'ts storage \<Rightarrow> 'ts storage" where
  "sync_block E L now blk s =
     fold (\<lambda>c s. sync_certificate_with_block E L now blk c (blk_unconfirmed_transactions blk) s)
       (authority_certificates blk) s"

definition sync_storage_with_ledger_at_bootup ::
  "'ts primary_params \<Rightarrow> int \<Rightarrow> bool \<Rightarrow> 'ts bft \<Rightarrow> (primary_error, unit) result \<times> 'ts bft" where
  "sync_storage_with_ledger_at_bootup P now free b =
     (let L = bft_ledger b; s = bft_storage b; latest = latest_block L; height = blk_height latest in
      if \<not> st_max_gc_rounds s < 2 ^ 32 then (Inl TooManyGcRounds, b)
      else case get_blocks free L (height - st_max_gc_rounds s div 2) (u32_saturating_add height 1) of
        Inl e \<Rightarrow> (Inl (PrimaryLedgerError e), b)
      | Inr blocks \<Rightarrow>
          (let s1 = sync_height_with_block height s;
               s2 = sync_round_with_block (blk_round latest) s1;
               s3 = garbage_collect_certificates (pp_env P) (blk_round latest) s2;
               s4 = fold (sync_block (pp_env P) L now) blocks s3;
               b1 = b\<lparr>bft_storage := s4\<rparr>
           in case pm_bft_sender (bft_primary b) of
                NotSet \<Rightarrow> (Inr (), b1)
              | Closed \<Rightarrow> (Inl BftSendFailed, b1)
              | Open \<Rightarrow> (Inr (), sync_bft_dag_at_bootup (concat (map authority_certificates blocks)) b1)))"

section \<open>Certificates from the cache or a peer\<close>

text \<open>The first loop of \<open>fetch_missing_transmissions\<close> assigns the IDs, the second awaits the fetches.\<close>

fun assign_fetches ::
  "'ts primary_params \<Rightarrow> nat \<Rightarrow> 'ts bft \<Rightarrow> transmission_id list \<Rightarrow> (primary_error, (worker \<times> transmission_id) list) result" where
  "assign_fetches P n b [] = Inr []"
| "assign_fetches P n b (t # ts) =
     (if contains_transmission (pp_env P) (bft_storage b) t then assign_fetches P n b ts
      else case assign_to_worker (pp_hashing P) t n of
        Inl e \<Rightarrow> Inl (PrimaryWorkerError e)
      | Inr i \<Rightarrow>
          if i < length (pm_workers (bft_primary b))
          then rbind (assign_fetches P n b ts) (\<lambda>fs. Inr ((pm_workers (bft_primary b) ! i, t) # fs))
          else Inl (PrimaryWorkerError (UnableToFindWorker i)))"

fun await_fetches ::
  "'ts env \<Rightarrow> proposal option \<Rightarrow> (worker \<times> transmission_id) list \<Rightarrow> transmissions \<Rightarrow> 'ts storage \<Rightarrow>
   (primary_error, transmissions) result \<times> 'ts storage" where
  "await_fetches E proposed [] acc s = (Inr acc, s)"
| "await_fetches E proposed ((w, t) # fs) acc s =
     (case get_or_fetch_transmission E proposed w t s of
        (Inl e, s') \<Rightarrow> (Inl FetchFailed, s')
      | (Inr (t', x), s') \<Rightarrow> await_fetches E proposed fs (imap_insert t' x acc) s')"

definition fetch_missing_transmissions ::
  "'ts primary_params \<Rightarrow> batch_header \<Rightarrow> 'ts bft \<Rightarrow> (primary_error, transmissions) result \<times> 'ts bft" where
  "fetch_missing_transmissions P h b =
     (if bh_round h \<le> st_gc_round (bft_storage b) then (Inr [], b)
      else if contains_batch (bft_storage b) (bh_batch_id h) then (Inr [], b)
      else case num_workers_u8 (pm_workers (bft_primary b)) of
        Inl e \<Rightarrow> (Inl (PrimaryWorkerError e), b)
      | Inr n \<Rightarrow>
          (case assign_fetches P n b (bh_transmission_ids h) of
             Inl e \<Rightarrow> (Inl e, b)
           | Inr fs \<Rightarrow>
               (let (r, s) = await_fetches (pp_env P) (pm_proposed_batch (bft_primary b)) fs [] (bft_storage b)
                in (r, b\<lparr>bft_storage := s\<rparr>))))"

definition sync_with_batch_header_from_peer ::
  "'ts primary_params \<Rightarrow> bool \<Rightarrow> int \<Rightarrow> batch_header \<Rightarrow> 'ts bft \<Rightarrow> (primary_error, transmissions) result \<times> 'ts bft" where
  "sync_with_batch_header_from_peer P is_syncing now h b =
     (let batch_round = bh_round h; s = bft_storage b in
      if batch_round \<le> st_gc_round s then (Inl RoundTooFarInPast, b)
      else if \<not> is_syncing \<and> \<not> pm_is_block_synced (bft_primary b) then (Inl NodeSyncing, b)
      else case get_committee_lookback_for_round (pp_network P) (bft_ledger b) batch_round of
        Inl e \<Rightarrow> (Inl (PrimaryLedgerError e), b)
      | Inr com \<Rightarrow>
          (let is_quorum = com_quorum_reached com (get_certificate_authors_for_round s batch_round);
               is_behind_schedule = is_quorum \<and> batch_round > st_current_round s;
               is_peer_far_in_future = batch_round > u64_add (st_current_round s) (st_max_gc_rounds s)
           in case (if is_behind_schedule \<or> is_peer_far_in_future
                    then try_increment_to_the_next_round P now batch_round b else (Inr (), b)) of
                (Inl e, b1) \<Rightarrow> (Inl e, b1)
              | (Inr _, b1) \<Rightarrow> fetch_missing_transmissions P h b1))"

definition sync_with_certificate_from_peer ::
  "'ts primary_params \<Rightarrow> bool \<Rightarrow> int \<Rightarrow> certificate \<Rightarrow> 'ts bft \<Rightarrow> (primary_error, unit) result \<times> 'ts bft" where
  "sync_with_certificate_from_peer P is_syncing now c b =
     (if cert_round c \<le> st_gc_round (bft_storage b) then (Inr (), b)
      else if contains_certificate (bft_storage b) (cert_id c) then (Inr (), b)
      else if \<not> is_syncing \<and> \<not> pm_is_block_synced (bft_primary b) then (Inl NodeSyncing, b)
      else case sync_with_batch_header_from_peer P is_syncing now (cert_header c) b of
        (Inl e, b1) \<Rightarrow> (Inl e, b1)
      | (Inr missing, b1) \<Rightarrow>
          if contains_certificate (bft_storage b1) (cert_id c) then (Inr (), b1)
          else (case insert_certificate (pp_env P) (bft_ledger b1) now (bft_storage b1) c missing [] of
             Inl e \<Rightarrow> (Inl (PrimaryStorageError e), b1)
           | Inr s \<Rightarrow> send_certificate P c (b1\<lparr>bft_storage := s\<rparr>)))"

section \<open>Boot-up and shutdown\<close>

text \<open>A stored certificate that cannot be loaded is skipped with a warning.\<close>

definition load_proposal_cache ::
  "'ts primary_params \<Rightarrow> int \<Rightarrow> 'ts bft \<Rightarrow> (primary_error, unit) result \<times> 'ts bft" where
  "load_proposal_cache P now b =
     (if pm_cache_file (bft_primary b) = None then (Inr (), b)
      else case cache_load (pp_codecs P) (pp_network P) (pp_crypto P) (bft_address b) (pm_cache_file (bft_primary b)) of
        Inl e \<Rightarrow> (Inl (ProposalCacheError e), b)
      | Inr pc \<Rightarrow>
          (let b1 = b\<lparr>bft_primary := (bft_primary b)\<lparr>pm_proposed_batch := pc_proposal pc,
                       pm_signed_proposals := pc_signed_proposals pc, pm_propose_lock := pc_latest_round pc\<rparr>\<rparr>
           in (Inr (), fold (\<lambda>c b. snd (sync_with_certificate_from_peer P True now c b))
                 (pc_pending_certificates pc) b1)))"

fun workers_new :: "nat list \<Rightarrow> (primary_error, worker list) result" where
  "workers_new [] = Inr []"
| "workers_new (i # is) =
     rbind (map_err PrimaryWorkerError (worker_new i)) (\<lambda>w. rbind (workers_new is) (\<lambda>ws. Inr (w # ws)))"

definition primary_run ::
  "'ts primary_params \<Rightarrow> int \<Rightarrow> bool \<Rightarrow> 'ts bft \<Rightarrow> (primary_error, unit) result \<times> 'ts bft" where
  "primary_run P now free b =
     (if pm_bft_sender (bft_primary b) \<noteq> NotSet then (Inl SenderAlreadySet, b)
      else let b = b\<lparr>bft_primary := (bft_primary b)\<lparr>pm_bft_sender := Open\<rparr>\<rparr> in
        case workers_new [0..<MAX_WORKERS] of
          Inl e \<Rightarrow> (Inl e, b)
        | Inr ws \<Rightarrow>
            (case sync_storage_with_ledger_at_bootup P now free (set_workers ws b) of
               (Inl e, b1) \<Rightarrow> (Inl e, b1)
             | (Inr _, b1) \<Rightarrow>
                 (case load_proposal_cache P now b1 of
                    (Inl e, b2) \<Rightarrow> (Inl e, b2)
                  | (Inr _, b2) \<Rightarrow>
                      (Inr (), b2\<lparr>bft_primary := (bft_primary b2)\<lparr>pm_is_block_synced := True,
                          pm_save_pending := (if pm_keep_state (bft_primary b2) then True
                                              else pm_save_pending (bft_primary b2))\<rparr>\<rparr>))))"

text \<open>A failure to write the file is only logged.\<close>

definition primary_shut_down :: "'ts primary_params \<Rightarrow> 'ts bft \<Rightarrow> 'ts bft" where
  "primary_shut_down P b =
     (let pm = bft_primary b in
      if pm_save_pending pm
      then (let pc = \<lparr>pc_latest_round = (case pm_proposed_batch pm of Some p \<Rightarrow> pr_round p | None \<Rightarrow> pm_propose_lock pm),
                      pc_proposal = pm_proposed_batch pm, pc_signed_proposals = pm_signed_proposals pm,
                      pc_pending_certificates = get_pending_certificates (bft_ledger b) (bft_storage b)\<rparr>
            in b\<lparr>bft_primary := pm\<lparr>pm_save_pending := False, pm_proposed_batch := None,
                   pm_cache_file := (case cache_store (pp_codecs P) pc of
                      Inl _ \<Rightarrow> pm_cache_file pm | Inr bs \<Rightarrow> Some bs)\<rparr>\<rparr>)
      else b)"

definition bft_shut_down :: "'ts primary_params \<Rightarrow> 'ts bft \<Rightarrow> 'ts bft" where
  "bft_shut_down P b =
     (let b' = primary_shut_down P b in
      b'\<lparr>bft_primary := (bft_primary b')\<lparr>pm_bft_sender :=
        (if pm_bft_sender (bft_primary b') = NotSet then NotSet else Closed)\<rparr>\<rparr>)"

definition bft_run ::
  "'ts primary_params \<Rightarrow> int \<Rightarrow> bool \<Rightarrow> bool \<Rightarrow> 'ts bft \<Rightarrow> (primary_error, unit) result \<times> 'ts bft" where
  "bft_run P now free consensus_sender b =
     (case primary_run P now free b of
        (Inl e, b1) \<Rightarrow> (Inl e, bft_shut_down P b1)
      | (Inr _, b1) \<Rightarrow>
          if consensus_sender
          then (if bft_consensus_sender b1 then (Inl SenderAlreadySet, bft_shut_down P b1)
                else (Inr (), b1\<lparr>bft_consensus_sender := True\<rparr>))
          else (Inr (), b1))"

section \<open>The handlers of the primary\<close>

text \<open>One iteration of the batch proposer; \<open>locked\<close> says that a proposal is already under way.\<close>

definition batch_proposer_tick :: "'ts primary_params \<Rightarrow> int \<Rightarrow> bool \<Rightarrow> 'ts bft \<Rightarrow> 'ts bft" where
  "batch_proposer_tick P now locked b =
     (if \<not> pm_is_block_synced (bft_primary b) then b
      else if locked then b
      else snd (propose_batch P now True b))"

text \<open>An iteration that the shutdown aborts: \<open>propose_batch\<close> awaits each of its proposals, and its task is
  dropped after the proposals of the first \<open>n\<close> other accounts.\<close>

definition batch_proposer_aborted :: "'ts primary_params \<Rightarrow> int \<Rightarrow> nat \<Rightarrow> 'ts bft \<Rightarrow> 'ts bft" where
  "batch_proposer_aborted P now n b =
     (if \<not> pm_is_block_synced (bft_primary b) then b
      else case dev_accounts P [0..<4] of
        Inl _ \<Rightarrow> b
      | Inr accounts \<Rightarrow>
          (case propose_batch_lite P now (drop 1 accounts) True b of
             (Inl _, b1) \<Rightarrow> b1
           | (Inr round, b1) \<Rightarrow>
               if round = 0 then b1 else snd (fake_proposals P now accounts round (take n [1..<4]) b1)))"

definition round_increment_tick :: "'ts primary_params \<Rightarrow> int \<Rightarrow> 'ts bft \<Rightarrow> 'ts bft" where
  "round_increment_tick P now b =
     (if \<not> pm_is_block_synced (bft_primary b) then b
      else let next_round = u64_saturating_add (st_current_round (bft_storage b)) 1;
               authors = get_certificate_authors_for_round (bft_storage b) next_round
        in if authors = {} then b
           else case get_committee_lookback_for_round (pp_network P) (bft_ledger b) next_round of
             Inl _ \<Rightarrow> b
           | Inr com \<Rightarrow>
               if com_quorum_reached com authors
               then snd (try_increment_to_the_next_round P now next_round b) else b)"

text \<open>The result is what the callback receives; \<open>None\<close> when the callback is dropped or the handler panics.\<close>

definition process_on_worker ::
  "'ts primary_params \<Rightarrow> transmission_id \<Rightarrow> (worker \<Rightarrow> (worker_error, unit) result \<times> worker) \<Rightarrow> 'ts bft \<Rightarrow>
   (worker_error, unit) result option \<times> 'ts bft" where
  "process_on_worker P t op b =
     (let ws = pm_workers (bft_primary b) in
      case num_workers_u8 ws of
        Inl _ \<Rightarrow> (None, b)
      | Inr n \<Rightarrow>
          (case assign_to_worker (pp_hashing P) t n of
             Inl _ \<Rightarrow> (None, b)
           | Inr i \<Rightarrow>
               if i < length ws then (let (r, w) = op (ws ! i) in (Some r, set_workers (ws[i := w]) b))
               else (None, b)))"

definition process_unconfirmed_solution ::
  "'ts primary_params \<Rightarrow> solution_id \<Rightarrow> solution data \<Rightarrow> 'ts bft \<Rightarrow> (worker_error, unit) result option \<times> 'ts bft" where
  "process_unconfirmed_solution P i d b =
     (case cr_solution_checksum (pp_crypto P) d of
        None \<Rightarrow> (None, b)
      | Some ck \<Rightarrow> process_on_worker P (SolutionID i ck)
          (worker_process_unconfirmed_solution (pp_env P) (bft_ledger b) (bft_storage b)
             (pm_proposed_batch (bft_primary b)) i d) b)"

definition process_unconfirmed_transaction ::
  "'ts primary_params \<Rightarrow> transaction_id \<Rightarrow> transaction data \<Rightarrow> 'ts bft \<Rightarrow> (worker_error, unit) result option \<times> 'ts bft" where
  "process_unconfirmed_transaction P i d b =
     (case cr_transaction_checksum (pp_crypto P) d of
        None \<Rightarrow> (None, b)
      | Some ck \<Rightarrow> process_on_worker P (TransactionID i ck)
          (worker_process_unconfirmed_transaction (pp_env P) (bft_ledger b) (bft_storage b)
             (pm_proposed_batch (bft_primary b)) i d) b)"

section \<open>Observers\<close>

definition num_unconfirmed_transmissions :: "'ts bft \<Rightarrow> nat" where
  "num_unconfirmed_transmissions b = sum_list (map (num_transmissions \<circ> wk_ready) (pm_workers (bft_primary b)))"

definition num_unconfirmed_solutions :: "'ts bft \<Rightarrow> nat" where
  "num_unconfirmed_solutions b = sum_list (map (num_solutions \<circ> wk_ready) (pm_workers (bft_primary b)))"

definition num_unconfirmed_transactions :: "'ts bft \<Rightarrow> nat" where
  "num_unconfirmed_transactions b = sum_list (map (num_transactions \<circ> wk_ready) (pm_workers (bft_primary b)))"

definition worker_transmission_ids :: "'ts bft \<Rightarrow> transmission_id list" where
  "worker_transmission_ids b = concat (map (ready_transmission_ids \<circ> wk_ready) (pm_workers (bft_primary b)))"

definition worker_transmissions :: "'ts bft \<Rightarrow> (transmission_id \<times> transmission) list" where
  "worker_transmissions b = concat (map (ready_transmissions \<circ> wk_ready) (pm_workers (bft_primary b)))"

definition worker_solutions :: "'ts bft \<Rightarrow> (solution_id \<times> solution data) list" where
  "worker_solutions b = concat (map (ready_solutions \<circ> wk_ready) (pm_workers (bft_primary b)))"

definition worker_transactions :: "'ts bft \<Rightarrow> (transaction_id \<times> transaction data) list" where
  "worker_transactions b = concat (map (ready_transactions \<circ> wk_ready) (pm_workers (bft_primary b)))"

definition clear_worker_solutions :: "primary \<Rightarrow> primary" where
  "clear_worker_solutions pm = pm\<lparr>pm_workers := map worker_clear_solutions (pm_workers pm)\<rparr>"

end
