(* ===== verification/StorageInvariant.thy ===== *)
theory StorageInvariant
  imports Storage
begin

text \<open>
  Correctness of the storage maps. \<open>storage_wf\<close> relates the three maps to each other;
  \<open>causally_closed\<close> says that above the garbage collected round every certificate comes
  with its predecessors. Every operation keeps both; the abstract state is the map from
  certificate IDs to certificates, on which insertion is an update and garbage collection
  a restriction.
\<close>

section \<open>Invariants\<close>

definition round_entry :: "'ts storage \<Rightarrow> nat \<Rightarrow> field \<Rightarrow> address \<Rightarrow> bool" where
  "round_entry s r i a \<longleftrightarrow> (\<exists>es. map_of (st_rounds s) r = Some es \<and> (i, a) \<in> set es)"

abbreviation certs :: "'ts storage \<Rightarrow> field \<Rightarrow> certificate option" where
  "certs s \<equiv> map_of (st_certificates s)"

definition storage_wf :: "'ts storage \<Rightarrow> bool" where
  "storage_wf s \<longleftrightarrow>
     imap_wf (st_rounds s) \<and> imap_wf (st_certificates s) \<and> imap_wf (st_batch_ids s) \<and>
     (\<forall>i c. certs s i = Some c \<longrightarrow> cert_id c = i \<and> cert_round c > st_gc_round s) \<and>
     (\<forall>r es. map_of (st_rounds s) r = Some es \<longrightarrow> es \<noteq> [] \<and> distinct (map snd es)) \<and>
     (\<forall>r i a. round_entry s r i a \<longleftrightarrow> (\<exists>c. certs s i = Some c \<and> cert_round c = r \<and> cert_author c = a)) \<and>
     (\<forall>i. map_of (st_batch_ids s) i = map_option cert_round (certs s i)) \<and>
     0 < st_current_round s"

definition causally_closed :: "'ts storage \<Rightarrow> bool" where
  "causally_closed s \<longleftrightarrow>
     (\<forall>i c p. certs s i = Some c \<longrightarrow> cert_round c - 1 > st_gc_round s \<longrightarrow> p \<in> set (cert_previous_ids c) \<longrightarrow>
        (\<exists>d. certs s p = Some d \<and> cert_round d = cert_round c - 1))"

lemma storage_wfD:
  assumes "storage_wf s"
  shows "imap_wf (st_rounds s)" "imap_wf (st_certificates s)" "imap_wf (st_batch_ids s)"
    and "certs s i = Some c \<Longrightarrow> cert_id c = i" "certs s i = Some c \<Longrightarrow> cert_round c > st_gc_round s"
    and "map_of (st_rounds s) r = Some es \<Longrightarrow> es \<noteq> []"
    and "map_of (st_rounds s) r = Some es \<Longrightarrow> distinct (map snd es)"
    and "round_entry s r i a \<longleftrightarrow> (\<exists>c. certs s i = Some c \<and> cert_round c = r \<and> cert_author c = a)"
    and "map_of (st_batch_ids s) i = map_option cert_round (certs s i)"
    and "0 < st_current_round s"
  using assms unfolding storage_wf_def by blast+

lemma storage_wf_round_entries:
  assumes "storage_wf s" "map_of (st_rounds s) r = Some es"
  shows "(i, a) \<in> set es \<longleftrightarrow> (\<exists>c. certs s i = Some c \<and> cert_round c = r \<and> cert_author c = a)"
  using storage_wfD(8) [OF assms(1), of r i a] assms(2) by (simp add: round_entry_def)

lemma storage_wf_no_round:
  assumes "storage_wf s" "map_of (st_rounds s) r = None" "certs s i = Some c"
  shows "cert_round c \<noteq> r"
  using storage_wfD(8) [OF assms(1), of r i "cert_author c"] assms(2,3)
  by (auto simp: round_entry_def)

lemma storage_wf_one_per_author:
  assumes wf: "storage_wf s" and c: "certs s i = Some c" and d: "certs s j = Some d"
    and eq: "cert_round c = cert_round d" "cert_author c = cert_author d"
  shows "c = d"
proof -
  obtain es where es: "map_of (st_rounds s) (cert_round c) = Some es"
    using storage_wf_no_round [OF wf _ c] by (cases "map_of (st_rounds s) (cert_round c)") auto
  have "(i, cert_author c) \<in> set es" "(j, cert_author c) \<in> set es"
    using storage_wf_round_entries [OF wf es] c d eq by auto
  moreover have "distinct (map snd es)" using storage_wfD(7) [OF wf es] .
  ultimately have "i = j" by (metis distinct_map inj_onD prod.inject snd_conv)
  then show ?thesis using c d by simp
qed

section \<open>Collected sets\<close>

lemma set_fold_iset_insert [simp]: "set (fold iset_insert xs acc) = set xs \<union> set acc"
  by (induction xs arbitrary: acc) auto

lemma set_iset_collect [simp]: "set (iset_collect xs) = set xs"
  by (simp add: iset_collect_def)

lemma fold_iset_insert_distinct: "distinct (acc @ xs) \<Longrightarrow> fold iset_insert xs acc = acc @ xs"
  by (induction xs arbitrary: acc) (auto simp: iset_insert_def)

lemma iset_collect_distinct: "distinct xs \<Longrightarrow> iset_collect xs = xs"
  by (simp add: iset_collect_def fold_iset_insert_distinct)

lemma distinct_iset_collect [simp]: "distinct (iset_collect xs)"
proof -
  have "distinct acc \<Longrightarrow> distinct (fold iset_insert xs acc)" for acc :: "'a list"
    by (induction xs arbitrary: acc) auto
  then show ?thesis by (simp add: iset_collect_def)
qed

section \<open>Removing certificates\<close>

lemma round_entries_remove:
  assumes wf: "imap_wf m" and d: "\<And>es. map_of m r = Some es \<Longrightarrow> distinct es"
  shows "map_of (remove_round_entry r e m) q =
    (if q = r then (case map_of m r of None \<Rightarrow> None
        | Some es \<Rightarrow> if set es - {e} = {} then None else Some (iset_swap_remove e es))
     else map_of m q)"
  using d wf
  by (auto simp: remove_round_entry_def Let_def iset_swap_remove_Nil split: option.splits)

lemma imap_wf_remove_round_entry: "imap_wf m \<Longrightarrow> imap_wf (remove_round_entry r e m)"
  by (auto simp: remove_round_entry_def Let_def split: option.splits)

lemma distinct_snd_iset_swap_remove:
  assumes "distinct (map snd es)"
  shows "distinct (map snd (iset_swap_remove e es))"
proof -
  have d: "distinct es" "inj_on snd (set es)"
    using assms by (simp_all add: distinct_map)
  then have "inj_on snd (set (iset_swap_remove e es))"
    by (simp add: inj_on_diff)
  then show ?thesis using d(1) by (simp add: distinct_map)
qed

lemma remove_certificate_frame [simp]:
  "st_gc_round (snd (remove_certificate E i s)) = st_gc_round s"
  "st_max_gc_rounds (snd (remove_certificate E i s)) = st_max_gc_rounds s"
  "st_current_round (snd (remove_certificate E i s)) = st_current_round s"
  "st_current_height (snd (remove_certificate E i s)) = st_current_height s"
  by (auto simp: remove_certificate_def split: option.splits)

lemma remove_certificate_certs:
  "storage_wf s \<Longrightarrow> certs (snd (remove_certificate E i s)) = (certs s)(i := None)"
  using storage_wfD(2) [of s]
  by (auto simp: remove_certificate_def get_certificate_def fun_eq_iff
      split: option.splits)

lemma remove_certificate_wf:
  assumes wf: "storage_wf s"
  shows "storage_wf (snd (remove_certificate E i s))"
proof (cases "certs s i")
  case None
  then show ?thesis using wf by (simp add: remove_certificate_def get_certificate_def)
next
  case (Some c)
  let ?s = "snd (remove_certificate E i s)" and ?r = "cert_round c" and ?e = "(i, cert_author c)"
  note D = storage_wfD [OF wf]
  have s': "st_rounds ?s = remove_round_entry ?r ?e (st_rounds s)"
    "st_batch_ids ?s = imap_swap_remove i (st_batch_ids s)"
    "st_certificates ?s = imap_swap_remove i (st_certificates s)"
    using Some by (simp_all add: remove_certificate_def get_certificate_def)
  have dist: "map_of (st_rounds s) ?r = Some es \<Longrightarrow> distinct es" for es
    using D(7) by (auto simp: distinct_map)
  note rnd = round_entries_remove [OF D(1) dist, of ?r ?e]
  have entries: "round_entry ?s r j a \<longleftrightarrow> round_entry s r j a \<and> (r, j, a) \<noteq> (?r, i, cert_author c)" for r j a
    using dist by (auto simp: round_entry_def s' rnd split: option.splits if_splits)
  have uniq: "round_entry s r i a \<Longrightarrow> r = ?r \<and> a = cert_author c" for r a
    using D(8) Some by auto
  have "round_entry ?s r j a \<longleftrightarrow> (\<exists>d. certs ?s j = Some d \<and> cert_round d = r \<and> cert_author d = a)" for r j a
    using entries [of r j a] uniq [of r a] D(8) [of r j a]
    by (auto simp: remove_certificate_certs [OF wf])
  moreover have "es \<noteq> [] \<and> distinct (map snd es)" if "map_of (st_rounds ?s) r = Some es" for r es
    using that D(6,7) [of r] dist
    by (auto simp: s' rnd distinct_snd_iset_swap_remove iset_swap_remove_Nil
        split: option.splits if_splits)
  moreover have "map_of (st_batch_ids ?s) j = map_option cert_round (certs ?s j)" for j
    using D(9) by (simp add: s' D(2,3))
  moreover have "certs ?s j = Some d \<Longrightarrow> cert_id d = j \<and> cert_round d > st_gc_round ?s" for j d
    using D(4,5) by (auto simp: remove_certificate_certs [OF wf] split: if_splits)
  moreover have "imap_wf (st_rounds ?s)" "imap_wf (st_certificates ?s)" "imap_wf (st_batch_ids ?s)"
    using D(1-3) by (simp_all add: s' imap_wf_remove_round_entry)
  ultimately show ?thesis
    using D(10) unfolding storage_wf_def by simp
qed

lemma remove_ids:
  "storage_wf s \<Longrightarrow> storage_wf (fold (\<lambda>i s. snd (remove_certificate E i s)) is s) \<and>
     certs (fold (\<lambda>i s. snd (remove_certificate E i s)) is s) = (\<lambda>j. if j \<in> set is then None else certs s j) \<and>
     st_gc_round (fold (\<lambda>i s. snd (remove_certificate E i s)) is s) = st_gc_round s \<and>
     st_current_round (fold (\<lambda>i s. snd (remove_certificate E i s)) is s) = st_current_round s \<and>
     st_max_gc_rounds (fold (\<lambda>i s. snd (remove_certificate E i s)) is s) = st_max_gc_rounds s"
  by (induction "is" arbitrary: s) (auto simp: remove_certificate_wf remove_certificate_certs)

lemma get_certificate_ids_for_round_wf:
  assumes wf: "storage_wf s"
  shows "i \<in> set (get_certificate_ids_for_round s r) \<longleftrightarrow> (\<exists>c. certs s i = Some c \<and> cert_round c = r)"
proof (cases "map_of (st_rounds s) r")
  case None
  then show ?thesis
    using storage_wf_no_round [OF wf None] by (auto simp: get_certificate_ids_for_round_def)
next
  case (Some es)
  have "i \<in> fst ` set es \<longleftrightarrow> (\<exists>c. certs s i = Some c \<and> cert_round c = r)"
    using storage_wf_round_entries [OF wf Some, of i] by force
  moreover have "certs s i = Some c \<Longrightarrow> cert_round c \<noteq> 0" for c
    using storage_wfD(5) [OF wf, of i c] by simp
  ultimately show ?thesis
    using Some by (auto simp: get_certificate_ids_for_round_def)
qed

definition drop_rounds :: "(nat \<Rightarrow> bool) \<Rightarrow> (field \<Rightarrow> certificate option) \<Rightarrow> field \<Rightarrow> certificate option" where
  "drop_rounds P m i = (case m i of None \<Rightarrow> None | Some c \<Rightarrow> if P (cert_round c) then None else Some c)"

lemma remove_round_wf:
  assumes "storage_wf s"
  shows "storage_wf (remove_round E r s) \<and> certs (remove_round E r s) = drop_rounds (\<lambda>q. q = r) (certs s) \<and>
    st_gc_round (remove_round E r s) = st_gc_round s \<and>
    st_current_round (remove_round E r s) = st_current_round s \<and>
    st_max_gc_rounds (remove_round E r s) = st_max_gc_rounds s"
  using remove_ids [OF assms, of E "get_certificate_ids_for_round s r"]
  by (auto simp: remove_round_def get_certificate_ids_for_round_wf [OF assms] drop_rounds_def fun_eq_iff
      split: option.splits)

lemma remove_rounds_wf:
  "storage_wf s \<Longrightarrow> storage_wf (fold (remove_round E) rs s) \<and>
    certs (fold (remove_round E) rs s) = drop_rounds (\<lambda>q. q \<in> set rs) (certs s) \<and>
    st_gc_round (fold (remove_round E) rs s) = st_gc_round s \<and>
    st_current_round (fold (remove_round E) rs s) = st_current_round s \<and>
    st_max_gc_rounds (fold (remove_round E) rs s) = st_max_gc_rounds s"
  by (induction rs arbitrary: s)
    (auto simp: remove_round_wf drop_rounds_def fun_eq_iff split: option.splits)

section \<open>Garbage collection\<close>

definition gc_target :: "nat \<Rightarrow> 'ts storage \<Rightarrow> nat" where
  "gc_target next_round s = max (st_gc_round s) (next_round - st_max_gc_rounds s)"

lemma drop_rounds_below:
  assumes "storage_wf s" "st_gc_round s \<le> g"
  shows "drop_rounds (\<lambda>q. q \<in> {st_gc_round s..g}) (certs s) = drop_rounds (\<lambda>q. q \<le> g) (certs s)"
  using storage_wfD(5) [OF assms(1)] assms(2)
  by (fastforce simp: drop_rounds_def fun_eq_iff split: option.splits)

lemma gc_certs:
  assumes wf: "storage_wf s"
  shows "st_gc_round (garbage_collect_certificates E n s) = gc_target n s"
    and "certs (garbage_collect_certificates E n s) = drop_rounds (\<lambda>q. q \<le> gc_target n s) (certs s)"
proof -
  have noop: "drop_rounds (\<lambda>q. q \<le> st_gc_round s) (certs s) = certs s"
    using storage_wfD(5) [OF wf] by (fastforce simp: drop_rounds_def fun_eq_iff split: option.splits)
  have eq: "set [st_gc_round s..<Suc (n - st_max_gc_rounds s)] = {st_gc_round s..n - st_max_gc_rounds s}"
    by auto
  show "st_gc_round (garbage_collect_certificates E n s) = gc_target n s"
    by (simp add: garbage_collect_certificates_def gc_target_def Let_def max_def)
  show "certs (garbage_collect_certificates E n s) = drop_rounds (\<lambda>q. q \<le> gc_target n s) (certs s)"
    using remove_rounds_wf [OF wf, of E "[st_gc_round s..<Suc (n - st_max_gc_rounds s)]"]
      drop_rounds_below [OF wf, of "n - st_max_gc_rounds s"]
    by (simp only: eq) (auto simp: garbage_collect_certificates_def gc_target_def Let_def max_def noop
        simp del: upt_Suc)
qed

lemma gc_wf:
  assumes wf: "storage_wf s"
  shows "storage_wf (garbage_collect_certificates E n s)"
proof (cases "n - st_max_gc_rounds s > st_gc_round s")
  case True
  let ?f = "fold (remove_round E) [st_gc_round s..<Suc (n - st_max_gc_rounds s)] s"
  have f: "storage_wf ?f" using remove_rounds_wf [OF wf] by blast
  have "cert_round c > gc_target n s"
    if "certs (garbage_collect_certificates E n s) i = Some c" for i c
    using that by (auto simp: gc_certs [OF wf] drop_rounds_def split: option.splits if_splits)
  then show ?thesis
    using f True
    by (auto simp: storage_wf_def garbage_collect_certificates_def gc_target_def Let_def round_entry_def
        simp del: upt_Suc)
qed (simp add: garbage_collect_certificates_def Let_def wf)

lemma gc_causally_closed:
  assumes "storage_wf s" "causally_closed s"
  shows "causally_closed (garbage_collect_certificates E n s)"
  unfolding causally_closed_def gc_certs [OF assms(1)]
proof (intro allI impI)
  fix i c p
  assume c: "drop_rounds (\<lambda>q. q \<le> gc_target n s) (certs s) i = Some c"
    and r: "gc_target n s < cert_round c - 1" and p: "p \<in> set (cert_previous_ids c)"
  from c have "certs s i = Some c" by (auto simp: drop_rounds_def split: option.splits if_splits)
  moreover have "st_gc_round s < cert_round c - 1" using r by (simp add: gc_target_def)
  ultimately obtain d where "certs s p = Some d" "cert_round d = cert_round c - 1"
    using assms(2) p unfolding causally_closed_def by blast
  then show "\<exists>d. drop_rounds (\<lambda>q. q \<le> gc_target n s) (certs s) p = Some d \<and> cert_round d = cert_round c - 1"
    using r by (simp add: drop_rounds_def)
qed

section \<open>Insertion\<close>

lemma check_previous_ok:
  "check_previous s r is A = Inr B \<Longrightarrow>
     (\<forall>i \<in> set is. \<exists>d. certs s i = Some d \<and> cert_round d = r) \<and>
     B = A \<union> {cert_author d | i d. i \<in> set is \<and> certs s i = Some d}"
  by (induction s r "is" A rule: check_previous.induct)
    (auto simp: get_certificate_def split: option.splits if_splits)

text \<open>Distinct authors: two declared predecessors by one author are one certificate.\<close>

lemma check_previous_authors:
  "check_previous s r is A = Inr B \<Longrightarrow>
     distinct (map (\<lambda>i. cert_author (the (certs s i))) is) \<and>
     (\<forall>i \<in> set is. cert_author (the (certs s i)) \<notin> A)"
  by (induction s r "is" A rule: check_previous.induct)
    (auto simp: get_certificate_def split: option.splits if_splits)

lemma check_signers_ok:
  "check_signers K com sgs A = Inr B \<Longrightarrow>
     (\<forall>sg \<in> set sgs. com_is_member com (cr_to_address K sg)) \<and> B = A \<union> cr_to_address K ` set sgs"
  by (induction K com sgs A rule: check_signers.induct) (auto simp: Let_def split: if_splits)

lemma check_batch_header_ok:
  assumes "check_batch_header E L now s h given ab = Inr m"
  shows "\<not> contains_batch s (bh_batch_id h)"
    and "ss_find_missing (env_service E) (st_transmissions s) h given ab = Inr m"
    and "\<exists>com. get_committee_lookback_for_round (env_network E) L (bh_round h) = Inr com \<and>
           com_is_member com (bh_author h)"
    and "bh_timestamp h \<le> i64_add now MAX_TIMESTAMP_DELTA_IN_SECS"
    and "bh_round h - 1 > st_gc_round s \<Longrightarrow> check_previous_round E L s h (bh_round h - 1) = Inr ()"
  using assms
  by (auto simp: check_batch_header_def Let_def rbind_Inr_iff check_timestamp_for_liveness_def
      split: if_splits sum.splits)

lemma check_previous_round_ok:
  assumes "check_previous_round E L s h r = Inr ()"
  obtains com B where "get_committee_lookback_for_round (env_network E) L r = Inr com"
    "length (bh_previous_certificate_ids h) \<le> length (com_members com)"
    "check_previous s r (bh_previous_certificate_ids h) {} = Inr B" "com_quorum_reached com B"
  using assms
  by (auto simp: check_previous_round_def rbind_Inr_iff split: if_splits sum.splits)

lemma check_certificate_ok:
  assumes "check_certificate E L now s c given ab = Inr m"
  shows "certs s (cert_id c) = None" "\<not> contains_certificate_in_round_from s (cert_round c) (cert_author c)"
    and "check_batch_header E L now s (cert_header c) given ab = Inr m"
    and "\<exists>com B. get_committee_lookback_for_round (env_network E) L (cert_round c) = Inr com \<and>
           check_signers (env_crypto E) com (cert_signatures c) {cert_author c} = Inr B \<and>
           com_quorum_reached com B"
proof -
  have ok: "certs s (cert_id c) = None \<and> \<not> contains_certificate_in_round_from s (cert_round c) (cert_author c) \<and>
      check_batch_header E L now s (cert_header c) given ab = Inr m \<and>
      (\<exists>com B. get_committee_lookback_for_round (env_network E) L (cert_round c) = Inr com \<and>
         check_signers (env_crypto E) com (cert_signatures c) {cert_author c} = Inr B \<and> com_quorum_reached com B)"
    using assms
    by (cases "get_committee_lookback_for_round (env_network E) L (cert_round c)")
      (auto simp: check_certificate_def Let_def rbind_Inr_iff contains_certificate_def imap_contains_key_def
        simp del: imap_contains_key_iff split: if_splits)
  then show "certs s (cert_id c) = None" by blast
  from ok show "\<not> contains_certificate_in_round_from s (cert_round c) (cert_author c)" by blast
  from ok show "check_batch_header E L now s (cert_header c) given ab = Inr m" by blast
  from ok show "\<exists>com B. get_committee_lookback_for_round (env_network E) L (cert_round c) = Inr com \<and>
      check_signers (env_crypto E) com (cert_signatures c) {cert_author c} = Inr B \<and> com_quorum_reached com B" by blast
qed

lemma insert_certificate_ok:
  assumes "insert_certificate E L now s c given ab = Inr s'"
  obtains m where "cert_round c > st_gc_round s" "check_certificate E L now s c given ab = Inr m"
    "s' = insert_certificate_atomic E s c ab m"
  using assms by (auto simp: insert_certificate_def rbind_Inr_iff split: if_splits)

lemma insert_atomic_frame [simp]:
  "st_gc_round (insert_certificate_atomic E s c ab m) = st_gc_round s"
  "st_max_gc_rounds (insert_certificate_atomic E s c ab m) = st_max_gc_rounds s"
  "st_current_round (insert_certificate_atomic E s c ab m) = st_current_round s"
  "st_current_height (insert_certificate_atomic E s c ab m) = st_current_height s"
  "certs (insert_certificate_atomic E s c ab m) = (certs s)(cert_id c \<mapsto> c)"
  by (simp_all add: insert_certificate_atomic_def)

lemma insert_certificate_stored:
  "insert_certificate E L now s c given ab = Inr s' \<Longrightarrow> get_certificate s' (cert_id c) = Some c"
  by (erule insert_certificate_ok) (simp add: get_certificate_def)

lemma insert_atomic_wf:
  assumes wf: "storage_wf s" and new: "certs s (cert_id c) = None" and gc: "cert_round c > st_gc_round s"
    and author: "\<not> contains_certificate_in_round_from s (cert_round c) (cert_author c)"
  shows "storage_wf (insert_certificate_atomic E s c ab m)"
proof -
  let ?s = "insert_certificate_atomic E s c ab m" and ?e = "(cert_id c, cert_author c)"
  note D = storage_wfD [OF wf]
  define old where "old = (case map_of (st_rounds s) (cert_round c) of None \<Rightarrow> [] | Some es \<Rightarrow> es)"
  have rnd: "map_of (st_rounds ?s) = (map_of (st_rounds s))(cert_round c \<mapsto> iset_insert ?e old)"
    by (simp add: insert_certificate_atomic_def old_def)
  have fresh: "cert_author c \<notin> snd ` set old"
    using author by (fastforce simp: contains_certificate_in_round_from_def old_def list_ex_iff
        split: option.splits)
  have dold: "distinct (map snd old)"
    using D(7) by (auto simp: old_def split: option.splits)
  have ent: "round_entry ?s r i a \<longleftrightarrow> round_entry s r i a \<or> (r, i, a) = (cert_round c, cert_id c, cert_author c)"
    for r i a
    by (auto simp: round_entry_def rnd old_def split: option.splits)
  have no: "\<not> round_entry s r (cert_id c) a" for r a
    using D(8) new by auto
  have "round_entry ?s r i a \<longleftrightarrow> (\<exists>d. certs ?s i = Some d \<and> cert_round d = r \<and> cert_author d = a)" for r i a
    using ent [of r i a] no [of r a] D(8) [of r i a] by auto
  moreover have "es \<noteq> [] \<and> distinct (map snd es)" if "map_of (st_rounds ?s) r = Some es" for r es
    using that D(6,7) [of r es] dold fresh
    by (auto simp: rnd iset_insert_def split: if_splits)
  moreover have "map_of (st_batch_ids ?s) i = map_option cert_round (certs ?s i)" for i
    using D(9) by (simp add: insert_certificate_atomic_def)
  moreover have "certs ?s i = Some d \<Longrightarrow> cert_id d = i \<and> cert_round d > st_gc_round ?s" for i d
    using D(4,5) gc by (auto split: if_splits)
  moreover have "imap_wf (st_rounds ?s)" "imap_wf (st_certificates ?s)" "imap_wf (st_batch_ids ?s)"
    using D(1-3) by (simp_all add: insert_certificate_atomic_def)
  moreover have "0 < st_current_round ?s" using D(10) by simp
  ultimately show ?thesis
    unfolding storage_wf_def by blast
qed

lemma insert_atomic_causally_closed:
  assumes "causally_closed s" "certs s (cert_id c) = None"
    and "\<And>p. cert_round c - 1 > st_gc_round s \<Longrightarrow> p \<in> set (cert_previous_ids c) \<Longrightarrow>
           \<exists>d. certs s p = Some d \<and> cert_round d = cert_round c - 1"
  shows "causally_closed (insert_certificate_atomic E s c ab m)"
  unfolding causally_closed_def
proof (intro allI impI)
  let ?s = "insert_certificate_atomic E s c ab m"
  fix i d p
  assume "certs ?s i = Some d" "st_gc_round ?s < cert_round d - 1" "p \<in> set (cert_previous_ids d)"
  then have "\<exists>e. certs s p = Some e \<and> cert_round e = cert_round d - 1"
    using assms(1,3) by (auto simp: causally_closed_def split: if_splits)
  then show "\<exists>e. certs ?s p = Some e \<and> cert_round e = cert_round d - 1"
    using assms(2) by auto
qed

lemma insert_certificate_inv:
  assumes ok: "insert_certificate E L now s c given ab = Inr s'"
    and wf: "storage_wf s" and cc: "causally_closed s"
  shows "storage_wf s' \<and> causally_closed s' \<and> certs s' = (certs s)(cert_id c \<mapsto> c) \<and>
    st_gc_round s' = st_gc_round s \<and> st_current_round s' = st_current_round s"
  using ok
proof (rule insert_certificate_ok)
  fix m
  assume gc: "st_gc_round s < cert_round c" and chk: "check_certificate E L now s c given ab = Inr m"
    and s': "s' = insert_certificate_atomic E s c ab m"
  note C = check_certificate_ok [OF chk]
  have "\<exists>d. certs s p = Some d \<and> cert_round d = cert_round c - 1"
    if "cert_round c - 1 > st_gc_round s" "p \<in> set (cert_previous_ids c)" for p
    using check_batch_header_ok(5) [OF C(3) that(1)] that(2)
    by (auto elim!: check_previous_round_ok dest!: check_previous_ok)
  then show ?thesis
    using insert_atomic_wf [OF wf C(1) gc C(2)] insert_atomic_causally_closed [OF cc C(1)]
    by (simp add: s')
qed

section \<open>Reachable storage\<close>

text \<open>
  The operations that change storage, in any order and with any ledger and clock. The aborted
  IDs a caller of \<open>insert_certificate\<close> passes are among those of the certificate (the primary
  passes none, \<open>sync_certificate_with_block\<close> collects them from the certificate).
\<close>

inductive storage_step :: "'ts env \<Rightarrow> 'ts storage \<Rightarrow> 'ts storage \<Rightarrow> bool" for E where
  step_insert: "insert_certificate E L now s c given ab = Inr s' \<Longrightarrow>
     set ab \<subseteq> set (cert_transmission_ids c) \<Longrightarrow> storage_step E s s'"
| step_gc: "storage_step E s (garbage_collect_certificates E n s)"
| step_increment: "storage_step E s (snd (increment_to_next_round L r s))"
| step_height: "storage_step E s (sync_height_with_block h s)"
| step_round: "storage_step E s (sync_round_with_block r s)"
| step_sync: "storage_step E s (sync_certificate_with_block E L now b c unconfirmed s)"
| step_read: "storage_step E s (snd (get_transmission E s t))"

definition storage_inv :: "'ts storage \<Rightarrow> bool" where
  "storage_inv s \<longleftrightarrow> storage_wf s \<and> causally_closed s"

text \<open>The invariant reads only the three maps and the two round trackers.\<close>

lemma storage_inv_cong:
  assumes "st_rounds s' = st_rounds s" "st_certificates s' = st_certificates s"
    "st_batch_ids s' = st_batch_ids s" "st_gc_round s' = st_gc_round s" "0 < st_current_round s'"
  shows "storage_inv s \<Longrightarrow> storage_inv s'"
  using assms by (simp add: storage_inv_def storage_wf_def causally_closed_def round_entry_def)

lemma increment_inv: "storage_inv s \<Longrightarrow> storage_inv (snd (increment_to_next_round L r s))"
  by (rule storage_inv_cong)
    (auto simp: increment_to_next_round_def sync_round_with_block_def update_current_round_def Let_def
      storage_inv_def dest: storage_wfD(10) split: sum.splits)

lemma sync_certificate_cases:
  "sync_certificate_with_block E L now b c u s = s \<or>
   (\<exists>m ab. insert_certificate E L now s c m ab = Inr (sync_certificate_with_block E L now b c u s))"
  by (auto simp: sync_certificate_with_block_def split: prod.splits sum.splits)

lemma storage_step_inv:
  assumes "storage_step E s s'" "storage_inv s"
  shows "storage_inv s'"
  using assms
proof (induction rule: storage_step.induct)
  case (step_insert L now s c given ab s')
  then show ?case by (auto simp: storage_inv_def dest: insert_certificate_inv)
next
  case (step_gc s n)
  then show ?case by (simp add: storage_inv_def gc_wf gc_causally_closed)
next
  case (step_increment s L r)
  then show ?case by (rule increment_inv)
next
  case (step_height s h)
  then show ?case
    by (intro storage_inv_cong [OF _ _ _ _ _ step_height])
      (auto simp: sync_height_with_block_def storage_inv_def storage_wf_def)
next
  case (step_round s r)
  then show ?case
    by (intro storage_inv_cong [OF _ _ _ _ _ step_round])
      (auto simp: sync_round_with_block_def update_current_round_def Let_def storage_inv_def storage_wf_def)
next
  case (step_sync s L now b c unconfirmed)
  then show ?case
    using sync_certificate_cases [of E L now b c unconfirmed s]
    by (auto simp: storage_inv_def dest: insert_certificate_inv)
next
  case (step_read s t)
  then show ?case
    by (intro storage_inv_cong [OF _ _ _ _ _ step_read])
      (auto simp: get_transmission_def storage_inv_def storage_wf_def split: prod.splits)
qed

abbreviation empty_storage :: "nat \<Rightarrow> nat \<Rightarrow> 'ts \<Rightarrow> 'ts storage" where
  "empty_storage r g ts \<equiv> \<lparr>st_current_height = 0, st_current_round = r, st_gc_round = 0,
      st_max_gc_rounds = g, st_rounds = [], st_certificates = [], st_batch_ids = [], st_transmissions = ts\<rparr>"

lemma storage_new_gc:
  assumes "storage_new E L ts g = Some s"
  shows "\<exists>r > 0. s = garbage_collect_certificates E r (empty_storage r g ts)"
  using assms
  by (auto simp: storage_new_def update_current_round_def Let_def split: sum.splits)
    (metis max.strict_coboundedI2 lessI)

lemma empty_storage_inv: "0 < r \<Longrightarrow> storage_inv (empty_storage r g ts)"
  by (simp add: storage_inv_def storage_wf_def causally_closed_def round_entry_def)

lemma storage_new_inv: "storage_new E L ts g = Some s \<Longrightarrow> storage_inv s"
  using empty_storage_inv [of _ g ts]
  by (auto dest!: storage_new_gc simp: storage_inv_def gc_wf gc_causally_closed)

lemma reachable_storage_inv:
  "(storage_step E)\<^sup>*\<^sup>* s s' \<Longrightarrow> storage_inv s \<Longrightarrow> storage_inv s'"
  by (induction rule: rtranclp_induct) (auto intro: storage_step_inv)

lemma storage_step_monotone:
  assumes "storage_step E s s'" "storage_inv s"
  shows "st_gc_round s \<le> st_gc_round s' \<and> st_current_round s \<le> st_current_round s'"
  using assms
proof (induction rule: storage_step.induct)
  case (step_insert L now s c given ab s')
  then show ?case by (auto simp: storage_inv_def dest: insert_certificate_inv)
next
  case (step_gc s n)
  then have wf: "storage_wf s" by (simp add: storage_inv_def)
  show ?case
    using gc_certs(1) [OF wf, of E n] remove_rounds_wf [OF wf]
    by (auto simp: gc_target_def garbage_collect_certificates_def Let_def simp del: upt_Suc)
next
  case (step_sync s L now b c unconfirmed)
  then show ?case
    using sync_certificate_cases [of E L now b c unconfirmed s]
    by (auto simp: storage_inv_def dest: insert_certificate_inv)
qed (auto simp: increment_to_next_round_def sync_height_with_block_def sync_round_with_block_def
    update_current_round_def get_transmission_def Let_def split: sum.splits prod.splits)

section \<open>Queries on a well-formed storage\<close>

lemma get_for_round_with_author_wf:
  assumes wf: "storage_wf s"
  shows "get_certificate_for_round_with_author s r a = Some c \<longleftrightarrow>
    (\<exists>i. certs s i = Some c \<and> cert_round c = r \<and> cert_author c = a)"
proof (cases "map_of (st_rounds s) r")
  case None
  then show ?thesis
    using storage_wf_no_round [OF wf None]
    by (auto simp: get_certificate_for_round_with_author_def)
next
  case (Some es)
  let ?f = "\<lambda>(i, b). if b = a then certs s i else None"
  have eq: "get_certificate_for_round_with_author s r a = find_map ?f es"
    using Some by (simp add: get_certificate_for_round_with_author_def)
  note E = storage_wf_round_entries [OF wf Some]
  show ?thesis
  proof
    assume "get_certificate_for_round_with_author s r a = Some c"
    then obtain i where "(i, a) \<in> set es" "certs s i = Some c"
      using find_map_SomeD [of ?f es c] by (auto simp: eq split: if_splits)
    then show "\<exists>i. certs s i = Some c \<and> cert_round c = r \<and> cert_author c = a"
      using E by auto
  next
    assume "\<exists>i. certs s i = Some c \<and> cert_round c = r \<and> cert_author c = a"
    then obtain i where i: "certs s i = Some c" "cert_round c = r" "cert_author c = a" by blast
    then have "(i, a) \<in> set es" using E by blast
    then obtain d where d: "find_map ?f es = Some d"
      using i find_map_None_iff [of ?f es] by (cases "find_map ?f es") auto
    then obtain j where "(j, a) \<in> set es" "certs s j = Some d"
      using find_map_SomeD [of ?f es d] by (auto split: if_splits)
    then have "d = c"
      using E [of j a] i storage_wf_one_per_author [OF wf, of j d i c] by auto
    then show "get_certificate_for_round_with_author s r a = Some c" using d eq by simp
  qed
qed

lemma set_map_filter: "set (List.map_filter f xs) = {y. \<exists>x \<in> set xs. f x = Some y}"
  by (induction xs) (auto simp: List.map_filter_def)

lemma storage_wf_round_pos:
  assumes "storage_wf s" "map_of (st_rounds s) r = Some es"
  shows "0 < r"
proof -
  obtain i a where "(i, a) \<in> set es"
    using storage_wfD(6) [OF assms] by (cases es) auto
  then show ?thesis
    using storage_wf_round_entries [OF assms] storage_wfD(5) [OF assms(1)] by fastforce
qed

lemma map_filter_entries:
  assumes "storage_wf s" "map_of (st_rounds s) r = Some es"
  shows "c \<in> set (List.map_filter (\<lambda>(i, _). if P i then None else certs s i) es) \<longleftrightarrow>
    (\<exists>i. certs s i = Some c \<and> cert_round c = r \<and> \<not> P i)"
proof -
  have "c \<in> set (List.map_filter (\<lambda>(i, _). if P i then None else certs s i) es) \<longleftrightarrow>
      (\<exists>i a. (i, a) \<in> set es \<and> certs s i = Some c \<and> \<not> P i)"
    by (auto simp: set_map_filter split: if_splits) (metis (mono_tags, lifting) case_prod_conv)
  then show ?thesis
    unfolding storage_wf_round_entries [OF assms] by auto
qed

lemma get_certificates_for_round_wf:
  assumes wf: "storage_wf s"
  shows "set (get_certificates_for_round s r) = {c. \<exists>i. certs s i = Some c \<and> cert_round c = r}"
proof (cases "map_of (st_rounds s) r")
  case None
  then show ?thesis
    using storage_wf_no_round [OF wf None] by (auto simp: get_certificates_for_round_def)
next
  case (Some es)
  then show ?thesis
    using map_filter_entries [OF wf Some, of _ "\<lambda>_. False"] storage_wf_round_pos [OF wf Some]
    by (auto simp: get_certificates_for_round_def)
qed

lemma get_certificate_authors_for_round_wf:
  assumes wf: "storage_wf s"
  shows "get_certificate_authors_for_round s r = cert_author ` set (get_certificates_for_round s r)"
proof (cases "map_of (st_rounds s) r")
  case None
  then show ?thesis
    by (auto simp: get_certificates_for_round_def get_certificate_authors_for_round_def)
next
  case (Some es)
  have "a \<in> snd ` set es \<longleftrightarrow> (\<exists>i c. certs s i = Some c \<and> cert_round c = r \<and> cert_author c = a)" for a
    using storage_wf_round_entries [OF wf Some, of _ a] by force
  also have "\<dots> a \<longleftrightarrow> a \<in> cert_author ` set (get_certificates_for_round s r)" for a
    by (auto simp: get_certificates_for_round_wf [OF wf] image_iff)
  finally have "snd ` set es = cert_author ` set (get_certificates_for_round s r)"
    by (rule set_eqI)
  then show ?thesis
    using storage_wf_round_pos [OF wf Some] by (simp add: get_certificate_authors_for_round_def Some)
qed

lemma sorted_iset_collect:
  assumes "sorted (map f xs)"
  shows "sorted (map f (iset_collect xs))"
proof -
  have "sorted (map f (acc @ xs)) \<Longrightarrow> sorted (map f (fold iset_insert xs acc))" for acc
    by (induction xs arbitrary: acc) (auto simp: iset_insert_def sorted_append)
  then show ?thesis using assms by (simp add: iset_collect_def)
qed

lemma sorted_concat_map:
  assumes "sorted (map k xs)" "\<And>x y. x \<in> set xs \<Longrightarrow> y \<in> set (g x) \<Longrightarrow> f y = k x"
  shows "sorted (map f (concat (map g xs)))"
  using assms
proof (induction xs)
  case (Cons x xs)
  have const: "map f (g x) = replicate (length (g x)) (k x)"
    using Cons.prems(2) [of x] by (intro replicate_eqI) auto
  have "sorted (map f (concat (map g xs)))"
    using Cons by simp
  moreover have "k x \<le> f y" if "z \<in> set xs" "y \<in> set (g z)" for z y
    using Cons.prems(1) Cons.prems(2) [of z y] that by simp
  ultimately show ?case
    by (auto simp: sorted_append const)
qed simp

lemma pending_certificates_wf:
  assumes wf: "storage_wf s"
  shows "set (get_pending_certificates L s) =
      {c. \<exists>i. certs s i = Some c \<and> \<not> unwrap_or False (ledger_contains_certificate L i)}"
    and "sorted (map cert_round (get_pending_certificates L s))"
proof -
  define g where "g = (\<lambda>(_ :: nat, es). List.map_filter (\<lambda>(i, _ :: address).
    if unwrap_or False (ledger_contains_certificate L i) then None else certs s i) es)"
  have pend: "get_pending_certificates L s = iset_collect (concat (map g (sort_key fst (st_rounds s))))"
    by (simp add: get_pending_certificates_def g_def)
  have mem: "(r, es) \<in> set (st_rounds s) \<longleftrightarrow> map_of (st_rounds s) r = Some es" for r es
    using storage_wfD(1) [OF wf] by (simp add: map_of_eq_Some_iff)
  have g: "c \<in> set (g (r, es)) \<longleftrightarrow>
      (\<exists>i. certs s i = Some c \<and> cert_round c = r \<and> \<not> unwrap_or False (ledger_contains_certificate L i))"
    if "(r, es) \<in> set (st_rounds s)" for r es c
    using map_filter_entries [OF wf, of r es c] that by (simp add: g_def mem)
  have ex: "\<exists>es. (cert_round c, es) \<in> set (st_rounds s)" if "certs s i = Some c" for i c
    using storage_wf_no_round [OF wf _ that] by (cases "map_of (st_rounds s) (cert_round c)") (auto simp: mem)
  show "set (get_pending_certificates L s) =
      {c. \<exists>i. certs s i = Some c \<and> \<not> unwrap_or False (ledger_contains_certificate L i)}"
    using g ex by (auto simp: pend) blast
  have "cert_round c = fst x" if "x \<in> set (sort_key fst (st_rounds s))" "c \<in> set (g x)" for x c
    using that g [of "fst x" "snd x" c] by auto
  then show "sorted (map cert_round (get_pending_certificates L s))"
    unfolding pend by (intro sorted_iset_collect sorted_concat_map [where k = fst]) simp_all
qed

section \<open>Stored certificates stay\<close>

lemma insert_keeps_certs:
  assumes "insert_certificate E L now s ct given ab = Inr s'" "storage_inv s" "certs s i = Some c"
  shows "certs s' i = Some c"
proof -
  have "certs s (cert_id ct) = None"
    using assms(1) by (auto elim!: insert_certificate_ok dest: check_certificate_ok)
  moreover have "certs s' = (certs s)(cert_id ct \<mapsto> ct)"
    using insert_certificate_inv [OF assms(1)] assms(2) by (simp add: storage_inv_def)
  ultimately show ?thesis using assms(3) by auto
qed

lemma storage_step_certs:
  assumes "storage_step E s s'" "storage_inv s" "certs s i = Some c"
  shows "certs s' i = Some c \<or> cert_round c \<le> st_gc_round s'"
  using assms
proof (induction rule: storage_step.induct)
  case (step_insert L now s ct given ab s')
  then show ?case using insert_keeps_certs by blast
next
  case (step_gc s n)
  then have wf: "storage_wf s" by (simp add: storage_inv_def)
  show ?case
    using gc_certs [OF wf, of E n] step_gc.prems(2) by (auto simp: drop_rounds_def)
next
  case (step_sync s L now b ct unconfirmed)
  then show ?case
    using sync_certificate_cases [of E L now b ct unconfirmed s] insert_keeps_certs by metis
qed (auto simp: increment_to_next_round_def sync_height_with_block_def sync_round_with_block_def
    update_current_round_def get_transmission_def Let_def split: sum.splits prod.splits)

lemma storage_steps_certs:
  assumes "(storage_step E)\<^sup>*\<^sup>* s s'" "storage_inv s" "certs s i = Some c"
  shows "certs s' i = Some c \<or> cert_round c \<le> st_gc_round s'"
  using assms(1)
proof (induction rule: rtranclp_induct)
  case (step s1 s2)
  note inv = reachable_storage_inv [OF step.hyps(1) assms(2)]
  show ?case
    using step.IH storage_step_certs [OF step.hyps(2) inv, of i c] storage_step_monotone [OF step.hyps(2) inv] by auto
qed (simp add: assms(3))

end
