(* ===== verification/BftOrder.thy ===== *)
theory BftOrder
  imports Bft StorageInvariant
begin

text \<open>
  The two graph traversals of the BFT. \<open>is_linked\<close> decides whether there is a path in the
  DAG, and the depth-first search of \<open>order_dag_with_dfs\<close> returns exactly the certificates
  reachable from the leader over edges that are above the garbage collected round and not
  yet committed. The search ends within its fuel, and it cannot miss a certificate when
  storage is causally closed.
\<close>

section \<open>Links\<close>

definition dag_step :: "dag \<Rightarrow> certificate \<Rightarrow> certificate \<Rightarrow> bool" where
  "dag_step d c p \<longleftrightarrow> 0 < cert_round c \<and> (\<exists>a. vertex d (cert_round c - 1) a = Some p) \<and>
     cert_id p \<in> set (cert_previous_ids c)"

lemma dag_step_round: "dag_wf d \<Longrightarrow> dag_step d c p \<Longrightarrow> Suc (cert_round p) = cert_round c"
  by (auto simp: dag_step_def dest: vertex_round_author)

lemma dag_path_round: "(dag_step d)\<^sup>*\<^sup>* c p \<Longrightarrow> dag_wf d \<Longrightarrow> cert_round p \<le> cert_round c"
  by (induction rule: rtranclp_induct) (auto dest: dag_step_round)

lemma dag_path_same_round:
  assumes "(dag_step d)\<^sup>*\<^sup>* c q" "dag_wf d" "cert_round q = cert_round c"
  shows "q = c"
  using assms(1)
proof (cases rule: converse_rtranclpE)
  case (step p)
  then show ?thesis
    using dag_path_round [of d p q] dag_step_round [of d c p] assms(2,3) by simp
qed simp

lemma vertices_of_round:
  assumes "dag_wf d" "map_of (dag_graph d) r = Some m"
  shows "p \<in> set (map snd m) \<longleftrightarrow> (\<exists>a. vertex d r a = Some p)"
proof -
  have "imap_wf m" using assms by (simp add: dag_wf_def)
  then show ?thesis
    using assms(2) by (force simp: vertex_iff map_of_eq_Some_iff)
qed

lemma is_linked_loop_paths:
  assumes "dag_wf d" "lo \<le> hi" "is_linked_loop d (rev [lo..<hi]) T = Inr T'"
    and "\<forall>c \<in> set T. cert_round c = hi"
  shows "set T' = {q. cert_round q = lo \<and> (\<exists>c \<in> set T. (dag_step d)\<^sup>*\<^sup>* c q)}"
  using assms(2-)
proof (induction "hi" arbitrary: T)
  case 0
  then show ?case
    by (auto dest: dag_path_same_round [OF _ assms(1)])
next
  case (Suc k)
  show ?case
  proof (cases "lo \<le> k")
    case False
    with Suc.prems have lo: "lo = Suc k" by simp
    then show ?thesis
      using Suc.prems by (auto dest: dag_path_same_round [OF _ assms(1)])
  next
    case True
    then obtain m where m: "map_of (dag_graph d) k = Some m"
      and loop: "is_linked_loop d (rev [lo..<k])
        (filter (\<lambda>p. list_ex (\<lambda>c. cert_id p \<in> set (cert_previous_ids c)) T) (map snd m)) = Inr T'"
      using Suc.prems(2) by (auto simp: dag_get_certificates_for_round_def split: option.splits)
    let ?T = "filter (\<lambda>p. list_ex (\<lambda>c. cert_id p \<in> set (cert_previous_ids c)) T) (map snd m)"
    have T: "p \<in> set ?T \<longleftrightarrow> (\<exists>c \<in> set T. dag_step d c p)" for p
      using vertices_of_round [OF assms(1) m, of p] Suc.prems(3)
      by (auto simp: dag_step_def list_ex_iff)
    have rnd: "\<forall>p \<in> set ?T. cert_round p = k"
      using T dag_step_round [OF assms(1)] Suc.prems(3) by fastforce
    have "set T' = {q. cert_round q = lo \<and> (\<exists>p \<in> set ?T. (dag_step d)\<^sup>*\<^sup>* p q)}"
      by (rule Suc.IH [OF True loop rnd])
    also have "\<dots> = {q. cert_round q = lo \<and> (\<exists>c \<in> set T. (dag_step d)\<^sup>*\<^sup>* c q)}"
      using T True Suc.prems(3)
      by (auto intro: converse_rtranclp_into_rtranclp)
        (metis converse_rtranclpE not_less_eq_eq order_refl)
    finally show ?thesis .
  qed
qed

lemma is_linked_iff_path:
  assumes "dag_wf d" "cert_round previous \<le> cert_round current" "is_linked d previous current = Inr v"
  shows "v \<longleftrightarrow> (dag_step d)\<^sup>*\<^sup>* current previous"
proof -
  obtain T where T: "is_linked_loop d (rev [cert_round previous..<cert_round current]) [current] = Inr T"
    and v: "v \<longleftrightarrow> previous \<in> set T"
    using assms(3) by (auto simp: is_linked_def rbind_Inr_iff)
  show ?thesis
    using is_linked_loop_paths [OF assms(1,2) T] by (simp add: v)
qed

section \<open>The depth-first search\<close>

definition known_certificates :: "'ts bft \<Rightarrow> certificate set" where
  "known_certificates b = {c. \<exists>r a. vertex (bft_dag b) r a = Some c} \<union> ran (certs (bft_storage b))"

text \<open>The IDs of the certificates in play identify them.\<close>

definition ids_identify :: "certificate set \<Rightarrow> bool" where
  "ids_identify A \<longleftrightarrow> (\<forall>c \<in> A. \<forall>d \<in> A. cert_id c = cert_id d \<longrightarrow> c = d)"

definition commit_edge :: "bool \<Rightarrow> 'ts bft \<Rightarrow> certificate \<Rightarrow> certificate \<Rightarrow> bool" where
  "commit_edge al b c p \<longleftrightarrow>
     dag_last_committed_round (bft_dag b) < u64_add (cert_round c - 1) (st_max_gc_rounds (bft_storage b)) \<and>
     (\<exists>i \<in> set (cert_previous_ids c). \<not> skip_previous al b (cert_round c - 1) i \<and>
        find_previous b (cert_round c - 1) i = Some p)"

definition bft_wf :: "'ts bft \<Rightarrow> bool" where
  "bft_wf b \<longleftrightarrow> dag_wf (bft_dag b) \<and> storage_inv (bft_storage b)"

lemma bft_wfD:
  "bft_wf b \<Longrightarrow> dag_wf (bft_dag b)" "bft_wf b \<Longrightarrow> storage_wf (bft_storage b)"
  "bft_wf b \<Longrightarrow> causally_closed (bft_storage b)"
  by (simp_all add: bft_wf_def storage_inv_def)

lemma find_previous_id:
  assumes "bft_wf b" "find_previous b r i = Some c"
  shows "cert_id c = i" "c \<in> known_certificates b"
  using assms with_id_SomeD [OF bft_wfD(1) [OF assms(1)], of r i c] storage_wfD(4) [OF bft_wfD(2) [OF assms(1)]]
  by (auto simp: find_previous_def known_certificates_def get_certificate_def ran_def split: option.splits)

lemma push_previous_spec:
  assumes "bft_wf b" "push_previous al b r is (ord, buf) = Inr (ord', buf')"
  shows "\<exists>new. buf' = new @ buf \<and> ord' = ord \<union> cert_id ` set new \<and> distinct (map cert_id new) \<and>
    cert_id ` set new \<inter> ord = {} \<and>
    (\<forall>c \<in> set new. \<exists>i \<in> set is. \<not> skip_previous al b r i \<and> find_previous b r i = Some c) \<and>
    (\<forall>i \<in> set is. skip_previous al b r i \<or> i \<in> ord')"
  using assms(2)
proof (induction "is" arbitrary: ord buf)
  case (Cons i "is")
  show ?case
  proof (cases "i \<in> ord \<or> skip_previous al b r i")
    case True
    with Cons show ?thesis by (fastforce split: if_splits)
  next
    case False
    then obtain c where c: "find_previous b r i = Some c"
      and rest: "push_previous al b r is (insert (cert_id c) ord, c # buf) = Inr (ord', buf')"
      using Cons.prems by (auto split: option.splits)
    note id = find_previous_id(1) [OF assms(1) c]
    obtain new where new: "buf' = new @ c # buf" "ord' = insert (cert_id c) ord \<union> cert_id ` set new"
      "distinct (map cert_id new)" "cert_id ` set new \<inter> insert (cert_id c) ord = {}"
      "\<forall>c \<in> set new. \<exists>i \<in> set is. \<not> skip_previous al b r i \<and> find_previous b r i = Some c"
      "\<forall>i \<in> set is. skip_previous al b r i \<or> i \<in> ord'"
      using Cons.IH [OF rest] by blast
    show ?thesis
      by (rule exI [of _ "new @ [c]"]) (use new False c id in auto)
  qed
qed auto

definition subdag_set :: "subdag \<Rightarrow> certificate set" where
  "subdag_set sd = {c. \<exists>r cs. map_of sd r = Some cs \<and> c \<in> set cs}"

definition subdag_wf :: "subdag \<Rightarrow> bool" where
  "subdag_wf sd \<longleftrightarrow> btree_wf sd \<and>
     (\<forall>r cs. map_of sd r = Some cs \<longrightarrow> cs \<noteq> [] \<and> distinct cs \<and> (\<forall>c \<in> set cs. cert_round c = r))"

lemma subdag_add:
  assumes "subdag_wf sd"
  shows "subdag_wf (btree_or_default (cert_round c) [] (iset_insert c) sd)"
    and "subdag_set (btree_or_default (cert_round c) [] (iset_insert c) sd) = insert c (subdag_set sd)"
proof -
  let ?old = "case map_of sd (cert_round c) of None \<Rightarrow> [] | Some cs \<Rightarrow> cs"
  have old: "distinct ?old" "\<forall>x \<in> set ?old. cert_round x = cert_round c"
    using assms by (cases "map_of sd (cert_round c)"; auto simp: subdag_wf_def)+
  have new: "map_of (btree_or_default (cert_round c) [] (iset_insert c) sd) =
      (map_of sd)(cert_round c \<mapsto> iset_insert c ?old)" by simp
  have "cs \<noteq> [] \<and> distinct cs \<and> (\<forall>x \<in> set cs. cert_round x = r)"
    if cs: "((map_of sd)(cert_round c \<mapsto> iset_insert c ?old)) r = Some cs" for r cs
  proof (cases "r = cert_round c")
    case True
    then have "cs = iset_insert c ?old" using cs by simp
    moreover have "\<forall>x \<in> set (iset_insert c ?old). cert_round x = r"
      unfolding set_iset_insert using old(2) True by blast
    ultimately show ?thesis using distinct_iset_insert [OF old(1)] by (simp only: iset_insert_not_Nil) blast
  next
    case False
    then show ?thesis using cs assms unfolding subdag_wf_def by simp
  qed
  then show "subdag_wf (btree_or_default (cert_round c) [] (iset_insert c) sd)"
    using assms unfolding subdag_wf_def new by (blast intro: btree_wf_or_default)
  show "subdag_set (btree_or_default (cert_round c) [] (iset_insert c) sd) = insert c (subdag_set sd)"
    by (auto simp: subdag_set_def split: option.splits if_splits) (metis option.inject)
qed

definition order_inv ::
  "bool \<Rightarrow> 'ts bft \<Rightarrow> certificate \<Rightarrow> field set \<Rightarrow> certificate list \<Rightarrow> subdag \<Rightarrow> bool" where
  "order_inv al b lc ord buf sd \<longleftrightarrow> subdag_wf sd \<and> lc \<in> subdag_set sd \<union> set buf \<and>
     (\<forall>c \<in> subdag_set sd \<union> set buf. (commit_edge al b)\<^sup>*\<^sup>* lc c) \<and>
     (\<forall>c \<in> subdag_set sd. \<forall>p. commit_edge al b c p \<longrightarrow> p \<in> subdag_set sd \<union> set buf) \<and>
     (\<forall>i \<in> ord. \<exists>c \<in> subdag_set sd \<union> set buf. cert_id c = i)"

lemma order_invD:
  assumes "order_inv al b lc ord buf sd"
  shows "subdag_wf sd" "lc \<in> subdag_set sd \<union> set buf"
    "c \<in> subdag_set sd \<union> set buf \<Longrightarrow> (commit_edge al b)\<^sup>*\<^sup>* lc c"
    "c \<in> subdag_set sd \<Longrightarrow> commit_edge al b c p \<Longrightarrow> p \<in> subdag_set sd \<union> set buf"
    "i \<in> ord \<Longrightarrow> \<exists>c \<in> subdag_set sd \<union> set buf. cert_id c = i"
  using assms unfolding order_inv_def by blast+

text \<open>With an empty buffer the sub-DAG is the set of reachable certificates.\<close>

lemma order_inv_done:
  assumes "order_inv al b lc ord [] sd"
  shows "subdag_wf sd \<and> subdag_set sd = {c. (commit_edge al b)\<^sup>*\<^sup>* lc c}"
proof -
  note I = order_invD [OF assms, simplified]
  have "c \<in> subdag_set sd" if "(commit_edge al b)\<^sup>*\<^sup>* lc c" for c
    using that by (induction rule: rtranclp_induct) (use I(2,4) in blast)+
  then show ?thesis using I(1,3) by blast
qed

lemma reach_known:
  assumes "(commit_edge al b)\<^sup>*\<^sup>* lc c" "bft_wf b"
  shows "c \<in> insert lc (known_certificates b)"
  using assms(1)
  by (cases rule: rtranclp.cases) (auto simp: commit_edge_def dest: find_previous_id(2) [OF assms(2)])

lemma order_inv_skip:
  assumes inv: "order_inv al b lc ord (c # buf) sd"
    and below: "u64_add (cert_round c - 1) (st_max_gc_rounds (bft_storage b)) \<le> dag_last_committed_round (bft_dag b)"
  shows "order_inv al b lc ord buf (btree_or_default (cert_round c) [] (iset_insert c) sd)"
proof -
  have wf: "subdag_wf sd" using inv by (simp add: order_inv_def)
  have "\<not> commit_edge al b c p" for p using below by (simp add: commit_edge_def)
  then show ?thesis
    using inv by (auto simp: order_inv_def subdag_add [OF wf])
qed

lemma order_inv_push:
  assumes wf: "bft_wf b" and ids: "ids_identify (insert lc (known_certificates b))"
    and inv: "order_inv al b lc ord (c # buf) sd"
    and above: "\<not> u64_add (cert_round c - 1) (st_max_gc_rounds (bft_storage b)) \<le> dag_last_committed_round (bft_dag b)"
    and push: "push_previous al b (cert_round c - 1) (rev (cert_previous_ids c)) (ord, buf) = Inr (ord', buf')"
  shows "order_inv al b lc ord' buf' (btree_or_default (cert_round c) [] (iset_insert c) sd)"
proof -
  let ?sd = "btree_or_default (cert_round c) [] (iset_insert c) sd" and ?S = "insert c (subdag_set sd)"
  have sd: "subdag_wf sd" using inv by (simp add: order_inv_def)
  obtain new where new: "buf' = new @ buf" "ord' = ord \<union> cert_id ` set new"
    "\<forall>p \<in> set new. \<exists>i \<in> set (cert_previous_ids c). \<not> skip_previous al b (cert_round c - 1) i \<and>
       find_previous b (cert_round c - 1) i = Some p"
    "\<forall>i \<in> set (cert_previous_ids c). skip_previous al b (cert_round c - 1) i \<or> i \<in> ord'"
    using push_previous_spec [OF wf push] by auto
  have rc: "(commit_edge al b)\<^sup>*\<^sup>* lc c" using inv by (simp add: order_inv_def)
  have edge: "commit_edge al b c p" if "p \<in> set new" for p
    using new(3) that above by (auto simp: commit_edge_def)
  have reach: "(commit_edge al b)\<^sup>*\<^sup>* lc p" if "p \<in> ?S \<union> set buf'" for p
    using that inv new(1) edge rtranclp.rtrancl_into_rtrancl [OF rc] by (auto simp: order_inv_def)
  have ord: "\<exists>p \<in> ?S \<union> set buf'. cert_id p = i" if "i \<in> ord'" for i
    using that new(1,2) inv by (auto simp: order_inv_def)
  have succ: "p \<in> ?S \<union> set buf'" if e: "commit_edge al b c p" for p
  proof -
    obtain i where i: "i \<in> set (cert_previous_ids c)" "\<not> skip_previous al b (cert_round c - 1) i"
      "find_previous b (cert_round c - 1) i = Some p"
      using e by (auto simp: commit_edge_def)
    obtain q where q: "q \<in> ?S \<union> set buf'" "cert_id q = i"
      using ord new(4) i(1,2) by blast
    have "q = p"
      using ids reach_known [OF reach [OF q(1)] wf] find_previous_id [OF wf i(3)] q(2)
      by (auto simp: ids_identify_def)
    then show ?thesis using q(1) by simp
  qed
  have sub: "subdag_set sd \<union> set (c # buf) \<subseteq> ?S \<union> set buf'" using new(1) by auto
  have "lc \<in> ?S \<union> set buf'" using inv sub by (auto simp: order_inv_def)
  moreover have "p \<in> ?S \<union> set buf'" if "x \<in> ?S" "commit_edge al b x p" for x p
    using that order_invD(4) [OF inv, of x p] sub succ by (cases "x = c") blast+
  ultimately show ?thesis
    using reach ord unfolding order_inv_def subdag_add(2) [OF sd] by (simp add: subdag_add(1) [OF sd])
qed

lemma order_loop_reach:
  assumes wf: "bft_wf b" and ids: "ids_identify (insert lc (known_certificates b))"
  shows "order_loop fuel al b ord buf sd = Inr res \<Longrightarrow> order_inv al b lc ord buf sd \<Longrightarrow>
    subdag_wf res \<and> subdag_set res = {c. (commit_edge al b)\<^sup>*\<^sup>* lc c}"
proof (induction fuel arbitrary: ord buf sd)
  case 0
  then have "buf = []" "sd = res" by (cases buf; simp)+
  then show ?case using 0(2) order_inv_done by blast
next
  case (Suc fuel)
  show ?case
  proof (cases buf)
    case Nil
    then show ?thesis using Suc(2) order_inv_done [of al b lc ord sd] Suc(3) by simp
  next
    case (Cons c rest)
    note inv = Suc(3) [unfolded Cons]
    show ?thesis
    proof (cases "u64_add (cert_round c - 1) (st_max_gc_rounds (bft_storage b)) \<le> dag_last_committed_round (bft_dag b)")
      case True
      then show ?thesis
        using Suc(1) [OF _ order_inv_skip [OF inv True]] Suc(2) by (simp add: Cons)
    next
      case False
      with Suc(2) obtain ord' buf' where
        push: "push_previous al b (cert_round c - 1) (rev (cert_previous_ids c)) (ord, rest) = Inr (ord', buf')"
        by (auto simp: Cons Let_def split: sum.splits)
      then show ?thesis
        using Suc(1) [OF _ order_inv_push [OF wf ids inv False push]] Suc(2) False by (simp add: Cons)
    qed
  qed
qed

section \<open>Fuel\<close>

lemma known_certificates_finite:
  shows "finite (known_certificates b)" "card (known_certificates b) < order_fuel b"
proof -
  let ?D = "concat (map (map snd \<circ> snd) (dag_graph (bft_dag b)))" and ?S = "map snd (st_certificates (bft_storage b))"
  have "c \<in> set ?D" if v: "vertex (bft_dag b) r a = Some c" for r a c
  proof -
    obtain m where "(r, m) \<in> set (dag_graph (bft_dag b))" "(a, c) \<in> set m"
      using v by (auto simp: vertex_iff dest!: map_of_SomeD)
    then show ?thesis by force
  qed
  moreover have "c \<in> set ?S" if "certs (bft_storage b) i = Some c" for i c
    using map_of_SomeD [OF that] by force
  ultimately have sub: "known_certificates b \<subseteq> set (?D @ ?S)"
    by (auto simp: known_certificates_def ran_def)
  then show "finite (known_certificates b)" using finite_subset by blast
  have "card (known_certificates b) \<le> length (?D @ ?S)"
    using card_mono [OF _ sub] card_length [of "?D @ ?S"] by simp
  then show "card (known_certificates b) < order_fuel b"
    by (simp add: order_fuel_def length_concat comp_def)
qed

definition open_ids :: "'ts bft \<Rightarrow> field set \<Rightarrow> nat" where
  "open_ids b ord = card (cert_id ` known_certificates b - ord)"

lemma push_previous_measure:
  assumes "bft_wf b" "push_previous al b r is (ord, buf) = Inr (ord', buf')"
  shows "length buf' + open_ids b ord' \<le> length buf + open_ids b ord"
proof -
  let ?U = "cert_id ` known_certificates b"
  obtain new where new: "buf' = new @ buf" "ord' = ord \<union> cert_id ` set new" "distinct (map cert_id new)"
    "cert_id ` set new \<inter> ord = {}"
    "\<forall>c \<in> set new. \<exists>i \<in> set is. \<not> skip_previous al b r i \<and> find_previous b r i = Some c"
    using push_previous_spec [OF assms] by (elim exE conjE) (rule that)
  have sub: "cert_id ` set new \<subseteq> ?U - ord"
    using new(4,5) find_previous_id(2) [OF assms(1)] by blast
  have "card (cert_id ` set new) = length new"
    using distinct_card [OF new(3)] by simp
  moreover have "?U - ord' = (?U - ord) - cert_id ` set new" using new(2) by auto
  moreover have fin: "finite (?U - ord)" using known_certificates_finite(1) by blast
  ultimately show ?thesis
    using card_Diff_subset [OF finite_subset [OF sub fin] sub] card_mono [OF fin sub]
    by (simp add: open_ids_def new(1))
qed

lemma order_loop_fuel:
  assumes wf: "bft_wf b"
  shows "length buf + open_ids b ord \<le> fuel \<Longrightarrow> order_loop fuel al b ord buf sd \<noteq> Inl OrderingOutOfFuel"
proof (induction fuel arbitrary: ord buf sd)
  case 0
  then show ?case by simp
next
  case (Suc fuel)
  have no: "push_previous al b r is st \<noteq> Inl OrderingOutOfFuel" for r "is" st
    by (induction al b r "is" st rule: push_previous.induct) (auto split: option.splits)
  show ?case
  proof (cases buf)
    case (Cons c rest)
    let ?sd = "btree_or_default (cert_round c) [] (iset_insert c) sd"
    have rest: "length rest + open_ids b ord \<le> fuel" using Suc.prems Cons by simp
    have "order_loop fuel al b ord' buf' ?sd \<noteq> Inl OrderingOutOfFuel"
      if "push_previous al b (cert_round c - 1) (rev (cert_previous_ids c)) (ord, rest) = Inr (ord', buf')"
      for ord' buf'
      using Suc.IH [of buf' ord' ?sd] push_previous_measure [OF wf that] rest by simp
    then show ?thesis
      using Suc.IH [OF rest, of ?sd] no by (auto simp: Cons Let_def split: sum.splits)
  qed simp
qed

lemma order_dag_in_fuel:
  assumes "bft_wf b"
  shows "order_dag_with_dfs al b lc \<noteq> Inl OrderingOutOfFuel"
proof -
  have "open_ids b {} \<le> card (known_certificates b)"
    using card_image_le [OF known_certificates_finite(1)] by (simp add: open_ids_def)
  then have "length [lc] + open_ids b {} \<le> order_fuel b"
    using known_certificates_finite(2) [of b] by simp
  then show ?thesis
    using order_loop_fuel [OF assms, of "[lc]" "{}" "order_fuel b" al "[]"]
    by (auto simp: order_dag_with_dfs_def rbind_Inl_iff)
qed

section \<open>No missing certificate\<close>

lemma push_previous_total:
  assumes "\<And>i. i \<in> set is \<Longrightarrow> \<not> skip_previous al b r i \<Longrightarrow> find_previous b r i \<noteq> None"
  shows "\<exists>st'. push_previous al b r is st = Inr st'"
  using assms
proof (induction "is" arbitrary: st)
  case (Cons i "is")
  obtain ord buf where st: "st = (ord, buf)" by fastforce
  have IH: "\<exists>st'. push_previous al b r is st = Inr st'" for st
    using Cons.IH Cons.prems by (meson list.set_intros(2))
  show ?case
    using IH Cons.prems [of i] by (cases "find_previous b r i") (auto simp: st)
qed simp

lemma order_loop_total:
  assumes wf: "bft_wf b"
    and closed: "\<And>c i. Q c \<Longrightarrow> \<not> u64_add (cert_round c - 1) (st_max_gc_rounds (bft_storage b)) \<le>
        dag_last_committed_round (bft_dag b) \<Longrightarrow> i \<in> set (cert_previous_ids c) \<Longrightarrow>
        \<not> skip_previous al b (cert_round c - 1) i \<Longrightarrow> \<exists>p. find_previous b (cert_round c - 1) i = Some p \<and> Q p"
  shows "length buf + open_ids b ord \<le> fuel \<Longrightarrow> \<forall>c \<in> set buf. Q c \<Longrightarrow>
    \<exists>res. order_loop fuel al b ord buf sd = Inr res"
proof (induction fuel arbitrary: ord buf sd)
  case (Suc fuel)
  show ?case
  proof (cases buf)
    case (Cons c rest)
    let ?sd = "btree_or_default (cert_round c) [] (iset_insert c) sd" and ?r = "cert_round c - 1"
    have rest: "length rest + open_ids b ord \<le> fuel" "\<forall>c \<in> set rest. Q c" and Q: "Q c"
      using Suc.prems Cons by simp_all
    show ?thesis
    proof (cases "u64_add ?r (st_max_gc_rounds (bft_storage b)) \<le> dag_last_committed_round (bft_dag b)")
      case True
      then show ?thesis using Suc.IH [OF rest, of ?sd] by (simp add: Cons)
    next
      case False
      obtain ord' buf' where
        push: "push_previous al b ?r (rev (cert_previous_ids c)) (ord, rest) = Inr (ord', buf')"
        using push_previous_total [of "rev (cert_previous_ids c)" al b ?r "(ord, rest)"] closed [OF Q False]
        by fastforce
      obtain new where new: "buf' = new @ rest"
        "\<forall>p \<in> set new. \<exists>i \<in> set (cert_previous_ids c). \<not> skip_previous al b ?r i \<and> find_previous b ?r i = Some p"
        using push_previous_spec [OF wf push] by (elim exE conjE) (rule that; simp)
      have "\<forall>p \<in> set buf'. Q p"
        using new closed [OF Q False] rest(2) by fastforce
      then show ?thesis
        using Suc.IH [of buf' ord' ?sd] push_previous_measure [OF wf push] rest(1) push False
        by (simp add: Cons)
    qed
  qed simp
qed simp

text \<open>
  What the search relies on: certificate IDs identify certificates, a certificate of round 1
  has no predecessors, rounds stay far below the \<open>u64\<close> limit, and storage has not been
  garbage collected beyond what the DAG has committed.
\<close>

definition order_ready :: "'ts bft \<Rightarrow> certificate \<Rightarrow> bool" where
  "order_ready b lc \<longleftrightarrow> bft_wf b \<and> ids_identify (known_certificates b) \<and>
     get_certificate (bft_storage b) (cert_id lc) = Some lc \<and>
     (\<forall>c \<in> known_certificates b. (cert_round c \<le> 1 \<longrightarrow> cert_previous_ids c = []) \<and>
        cert_round c + st_max_gc_rounds (bft_storage b) < 2 ^ 64) \<and>
     st_gc_round (bft_storage b) \<le> dag_last_committed_round (bft_dag b) - st_max_gc_rounds (bft_storage b)"

lemma order_ready_closed:
  assumes rdy: "order_ready b lc" and c: "c \<in> ran (certs (bft_storage b))"
    and above: "\<not> u64_add (cert_round c - 1) (st_max_gc_rounds (bft_storage b)) \<le> dag_last_committed_round (bft_dag b)"
    and i: "i \<in> set (cert_previous_ids c)"
  shows "\<exists>p. find_previous b (cert_round c - 1) i = Some p \<and> p \<in> ran (certs (bft_storage b))"
proof -
  have wf: "bft_wf b" and ids: "ids_identify (known_certificates b)"
    and gc: "st_gc_round (bft_storage b) \<le> dag_last_committed_round (bft_dag b) - st_max_gc_rounds (bft_storage b)"
    using rdy unfolding order_ready_def by blast+
  have known: "x \<in> known_certificates b" if "x \<in> ran (certs (bft_storage b))" for x
    using that by (simp add: known_certificates_def)
  have rc: "\<not> cert_round c \<le> 1" "cert_round c + st_max_gc_rounds (bft_storage b) < 2 ^ 64"
    using rdy known [OF c] i by (auto simp: order_ready_def)
  then have "u64_add (cert_round c - 1) (st_max_gc_rounds (bft_storage b)) =
      cert_round c - 1 + st_max_gc_rounds (bft_storage b)"
    by (intro u64_add_exact) simp
  then have "cert_round c - 1 > st_gc_round (bft_storage b)"
    using above gc rc(1) by linarith
  moreover obtain j where "certs (bft_storage b) j = Some c" using c by (auto simp: ran_def)
  ultimately obtain d where d: "certs (bft_storage b) i = Some d"
    using bft_wfD(3) [OF wf] i unfolding causally_closed_def by blast
  then obtain p where p: "find_previous b (cert_round c - 1) i = Some p"
    by (cases "find_previous b (cert_round c - 1) i")
      (auto simp: find_previous_def get_certificate_def split: option.splits)
  have dran: "d \<in> ran (certs (bft_storage b))" using d by (auto simp: ran_def)
  have "cert_id d = i" using storage_wfD(4) [OF bft_wfD(2) [OF wf] d] .
  then have "p = d"
    using ids find_previous_id [OF wf p] known [OF dran] unfolding ids_identify_def by blast
  then show ?thesis using p dran by blast
qed

lemma order_dag_total:
  assumes rdy: "order_ready b lc"
  shows "\<exists>sd. order_dag_with_dfs al b lc = Inr sd"
proof -
  have wf: "bft_wf b" and lc: "lc \<in> ran (certs (bft_storage b))"
    using rdy by (auto simp: order_ready_def get_certificate_def ran_def)
  have "open_ids b {} \<le> card (known_certificates b)"
    using card_image_le [OF known_certificates_finite(1)] by (simp add: open_ids_def)
  then have "length [lc] + open_ids b {} \<le> order_fuel b"
    using known_certificates_finite(2) [of b] by simp
  then have "\<exists>res. order_loop (order_fuel b) al b {} [lc] [] = Inr res"
    using order_loop_total [where Q = "\<lambda>c. c \<in> ran (certs (bft_storage b))" and al = al, OF wf
        order_ready_closed [OF rdy]] lc by simp
  then show ?thesis by (auto simp: order_dag_with_dfs_def)
qed

lemma subdag_set_retain:
  assumes "subdag_wf sd"
  shows "subdag_set (retain (\<lambda>r _. P r) sd) = {c \<in> subdag_set sd. P (cert_round c)}"
    and "subdag_wf (retain (\<lambda>r _. P r) sd)"
proof -
  have wf: "imap_wf sd" "btree_wf sd"
    and rnd: "\<And>r cs c. map_of sd r = Some cs \<Longrightarrow> c \<in> set cs \<Longrightarrow> cert_round c = r"
    using assms btree_wf_distinct by (auto simp: subdag_wf_def)
  show "subdag_set (retain (\<lambda>r _. P r) sd) = {c \<in> subdag_set sd. P (cert_round c)}"
    using rnd by (fastforce simp: subdag_set_def wf split: option.splits if_splits)
  show "subdag_wf (retain (\<lambda>r _. P r) sd)"
    using assms by (auto simp: subdag_wf_def wf split: option.splits if_splits)
qed

lemma order_dag_exact:
  assumes wf: "bft_wf b" and ids: "ids_identify (insert lc (known_certificates b))"
    and ok: "order_dag_with_dfs al b lc = Inr sd"
  shows "subdag_wf sd \<and> subdag_set sd = {c. (commit_edge al b)\<^sup>*\<^sup>* lc c \<and>
    dag_last_committed_round (bft_dag b) < u64_add (cert_round c) (st_max_gc_rounds (bft_storage b))}"
proof -
  obtain res where res: "order_loop (order_fuel b) al b {} [lc] [] = Inr res"
    and sd: "sd = retain (\<lambda>r _. dag_last_committed_round (bft_dag b) <
        u64_add r (st_max_gc_rounds (bft_storage b))) res"
    using ok by (auto simp: order_dag_with_dfs_def rbind_Inr_iff)
  have "order_inv al b lc {} [lc] []"
    by (simp add: order_inv_def subdag_wf_def subdag_set_def)
  note R = order_loop_reach [OF wf ids res this]
  show ?thesis
    using R by (simp add: sd subdag_set_retain)
qed

end
