(* ===== verification/StorageTransmissions.thy ===== *)
theory StorageTransmissions
  imports StorageInvariant
begin

text \<open>
  How the transmission references follow the certificates. Over any storage service that
  meets the contract, the references recorded for a transmission are certificates in
  storage that include it, through every operation and garbage collection. Over a strict
  service the converse holds as well: every transmission of a stored certificate is
  available. The properties instantiate this to the two services.
\<close>

definition cert_includes :: "'ts storage \<Rightarrow> transmission_id \<Rightarrow> field \<Rightarrow> bool" where
  "cert_includes s t i \<longleftrightarrow> (\<exists>c. certs s i = Some c \<and> t \<in> set (cert_transmission_ids c))"

definition known_refs :: "(transmission \<times> field set) option \<Rightarrow> field set" where
  "known_refs e = (case e of None \<Rightarrow> {} | Some (_, cs) \<Rightarrow> cs)"

definition aborted_refs :: "field set option \<Rightarrow> field set" where
  "aborted_refs e = (case e of None \<Rightarrow> {} | Some cs \<Rightarrow> cs)"

text \<open>\<open>refs_sound\<close>: no entry without a reference, and every reference is a stored certificate
  that includes the transmission. \<open>refs_complete\<close>: every such certificate is referenced.\<close>

definition refs_sound ::
  "('ts \<Rightarrow> transmission_id \<Rightarrow> (transmission \<times> field set) option) \<Rightarrow>
   ('ts \<Rightarrow> transmission_id \<Rightarrow> field set option) \<Rightarrow> 'ts storage \<Rightarrow> bool" where
  "refs_sound known aborted s \<longleftrightarrow>
     (\<forall>t e. known (st_transmissions s) t = Some e \<longrightarrow>
        snd e \<noteq> {} \<and> (\<forall>i \<in> snd e. cert_includes s t i)) \<and>
     (\<forall>t cs. aborted (st_transmissions s) t = Some cs \<longrightarrow>
        cs \<noteq> {} \<and> (\<forall>i \<in> cs. cert_includes s t i))"

definition refs_complete ::
  "('ts \<Rightarrow> transmission_id \<Rightarrow> (transmission \<times> field set) option) \<Rightarrow>
   ('ts \<Rightarrow> transmission_id \<Rightarrow> field set option) \<Rightarrow> 'ts storage \<Rightarrow> bool" where
  "refs_complete known aborted s \<longleftrightarrow>
     (\<forall>t i. cert_includes s t i \<longrightarrow>
        i \<in> known_refs (known (st_transmissions s) t) \<union> aborted_refs (aborted (st_transmissions s) t))"

lemma known_refs_spec:
  "known_refs (spec_remove_known i e) = known_refs e - {i}"
  "aborted_refs (spec_remove_aborted i a) = aborted_refs a - {i}"
  "aborted_refs (spec_insert_aborted i a) = insert i (aborted_refs a)"
  "known_refs (spec_insert_known i g e) = (if e = None \<and> g = None then {} else insert i (known_refs e))"
  by (auto simp: known_refs_def aborted_refs_def spec_effects split: option.splits)

lemma cert_includes_insert:
  "certs s (cert_id c) = None \<Longrightarrow> cert_includes (insert_certificate_atomic E s c ab m) t i \<longleftrightarrow>
     (if i = cert_id c then t \<in> set (cert_transmission_ids c) else cert_includes s t i)"
  by (auto simp: cert_includes_def)

lemma cert_includes_remove:
  "storage_wf s \<Longrightarrow> cert_includes (snd (remove_certificate E j s)) t i \<longleftrightarrow> cert_includes s t i \<and> i \<noteq> j"
  by (auto simp: cert_includes_def remove_certificate_certs)

lemma sync_transmissions_aborted:
  "snd (sync_transmissions E L s b u ts m ab) = ab' \<Longrightarrow> set ab' \<subseteq> set ab \<union> set ts"
  by (induction ts arbitrary: m ab)
    (fastforce split: if_splits option.splits sum.splits transmission_id.splits)+

lemma remove_ids_preserves:
  assumes "\<And>i s. storage_wf s \<Longrightarrow> P s \<Longrightarrow> P (snd (remove_certificate E i s))"
  shows "storage_wf s \<Longrightarrow> P s \<Longrightarrow> P (fold (\<lambda>i s. snd (remove_certificate E i s)) is s)"
  by (induction "is" arbitrary: s) (simp_all add: assms remove_certificate_wf)

lemma gc_preserves:
  assumes rm: "\<And>i s. storage_wf s \<Longrightarrow> P s \<Longrightarrow> P (snd (remove_certificate E i s))"
    and gc: "\<And>s g. P s \<Longrightarrow> P (s\<lparr>st_gc_round := g\<rparr>)" and s: "storage_wf s" "P s"
  shows "P (garbage_collect_certificates E n s)"
proof -
  have "storage_wf s \<Longrightarrow> P s \<Longrightarrow> P (fold (remove_round E) rs s)" for rs s
  proof (induction rs arbitrary: s)
    case (Cons r rs)
    then show ?case
      using remove_round_wf [of s E r] remove_ids_preserves [where P = P and E = E, OF rm, of s]
      by (simp add: remove_round_def)
  qed simp
  then show ?thesis
    using s by (simp add: garbage_collect_certificates_def Let_def gc del: upt_Suc)
qed

context storage_service
begin

lemma insert_refs:
  assumes E: "env_service E = V" and inv: "invar (st_transmissions s)" and new: "certs s (cert_id c) = None"
    and ab: "set ab \<subseteq> set (cert_transmission_ids c)" and snd: "refs_sound known aborted s"
  shows "refs_sound known aborted (insert_certificate_atomic E s c ab m)"
proof -
  let ?s = "insert_certificate_atomic E s c ab m"
  have ts: "st_transmissions ?s =
      ss_insert V (st_transmissions s) (cert_id c) (cert_transmission_ids c) ab m"
    by (simp add: insert_certificate_atomic_def E)
  have old: "\<not> cert_includes s t (cert_id c)" for t using new by (simp add: cert_includes_def)
  show ?thesis
    using snd ab old
    by (auto simp: refs_sound_def ts insert_known [OF inv] insert_aborted [OF inv] spec_effects
        cert_includes_insert [OF new] split: if_splits option.splits) blast+
qed

lemma remove_refs:
  assumes E: "env_service E = V" and inv: "invar (st_transmissions s)" and wf: "storage_wf s"
    and snd: "refs_sound known aborted s"
  shows "refs_sound known aborted (snd (remove_certificate E i s)) \<and>
    invar (st_transmissions (snd (remove_certificate E i s)))"
proof (cases "certs s i")
  case None
  then show ?thesis using snd inv by (simp add: remove_certificate_def get_certificate_def)
next
  case (Some c)
  let ?s = "snd (remove_certificate E i s)"
  have ts: "st_transmissions ?s = ss_remove V (st_transmissions s) i (cert_transmission_ids c)"
    using Some by (simp add: remove_certificate_def get_certificate_def E)
  have out: "t \<notin> set (cert_transmission_ids c) \<Longrightarrow> \<not> cert_includes s t i" for t
    using Some by (simp add: cert_includes_def)
  show ?thesis
    using snd out
    by (auto simp: refs_sound_def ts remove_known [OF inv] remove_aborted [OF inv] spec_effects
        cert_includes_remove [OF wf] invar_remove [OF inv] split: if_splits option.splits) blast+
qed

lemma gc_refs:
  assumes E: "env_service E = V" and wf: "storage_wf s"
    and s: "refs_sound known aborted s" "invar (st_transmissions s)"
  shows "refs_sound known aborted (garbage_collect_certificates E n s) \<and>
    invar (st_transmissions (garbage_collect_certificates E n s))"
proof (rule gc_preserves [where P = "\<lambda>s. refs_sound known aborted s \<and> invar (st_transmissions s)"])
  show "refs_sound known aborted (snd (remove_certificate E i s)) \<and>
      invar (st_transmissions (snd (remove_certificate E i s)))"
    if "storage_wf s" "refs_sound known aborted s \<and> invar (st_transmissions s)" for i s
    using remove_refs [OF E, of s i] that by blast
qed (use wf s in \<open>simp_all add: refs_sound_def cert_includes_def\<close>)

lemma refs_sound_cong:
  assumes "st_certificates s' = st_certificates s" "known (st_transmissions s') = known (st_transmissions s)"
    "aborted (st_transmissions s') = aborted (st_transmissions s)"
  shows "refs_sound known aborted s' \<longleftrightarrow> refs_sound known aborted s"
  using assms by (simp add: refs_sound_def cert_includes_def)

lemma insert_certificate_refs:
  assumes E: "env_service E = V" and ok: "insert_certificate E L now s c given ab = Inr s'"
    and ab: "set ab \<subseteq> set (cert_transmission_ids c)"
    and s: "refs_sound known aborted s" "invar (st_transmissions s)"
  shows "refs_sound known aborted s' \<and> invar (st_transmissions s')"
  using ok
proof (rule insert_certificate_ok)
  fix m
  assume chk: "check_certificate E L now s c given ab = Inr m"
    and s': "s' = insert_certificate_atomic E s c ab m"
  show ?thesis
    using insert_refs [OF E s(2) check_certificate_ok(1) [OF chk] ab s(1), of m] invar_insert [OF s(2)]
    unfolding s' by (simp add: insert_certificate_atomic_def E)
qed

lemma step_refs:
  assumes "storage_step E s s'" "env_service E = V" "storage_inv s"
    "refs_sound known aborted s" "invar (st_transmissions s)"
  shows "refs_sound known aborted s' \<and> invar (st_transmissions s')"
  using assms
proof (induction rule: storage_step.induct)
  case (step_insert L now s c given ab s')
  then show ?case using insert_certificate_refs by blast
next
  case (step_gc s n)
  then show ?case using gc_refs by (simp add: storage_inv_def)
next
  case (step_increment s L r)
  then show ?case
    by (auto simp: increment_to_next_round_def sync_round_with_block_def update_current_round_def Let_def
        refs_sound_def cert_includes_def split: sum.splits)
next
  case (step_height s h)
  then show ?case by (auto simp: sync_height_with_block_def refs_sound_def cert_includes_def)
next
  case (step_round s r)
  then show ?case
    by (auto simp: sync_round_with_block_def update_current_round_def Let_def refs_sound_def cert_includes_def)
next
  case (step_sync s L now b c u)
  obtain m ab where tr: "sync_transmissions E L s b u (cert_transmission_ids c) [] [] = (m, ab)"
    by fastforce
  have "set ab \<subseteq> set (cert_transmission_ids c)"
    using sync_transmissions_aborted [of E L s b u "cert_transmission_ids c" "[]" "[]" ab] tr by simp
  then show ?case
    using step_sync insert_certificate_refs [of E L now s c m ab]
    by (auto simp: sync_certificate_with_block_def tr split: sum.splits)
next
  case (step_read s t)
  then show ?case
    using get_frame [of "st_transmissions s" t] refs_sound_cong [of "snd (get_transmission E s t)" s]
    by (auto simp: get_transmission_def split: prod.splits)
qed

lemma reachable_refs:
  assumes "(storage_step E)\<^sup>*\<^sup>* s s'" "env_service E = V" "storage_inv s"
    "refs_sound known aborted s" "invar (st_transmissions s)"
  shows "storage_inv s' \<and> refs_sound known aborted s' \<and> invar (st_transmissions s')"
  using assms
proof (induction rule: rtranclp_induct)
  case (step s1 s2)
  then show ?case using step_refs [of E s1 s2] storage_step_inv [of E s1 s2] by blast
qed simp

lemma new_refs:
  assumes "storage_new E L ts g = Some s" "env_service E = V" "invar ts"
    "known ts = (\<lambda>_. None)" "aborted ts = (\<lambda>_. None)"
  shows "storage_inv s \<and> refs_sound known aborted s \<and> invar (st_transmissions s)"
proof -
  obtain r where r: "0 < r" "s = garbage_collect_certificates E r (empty_storage r g ts)"
    using storage_new_gc [OF assms(1)] by blast
  have "storage_wf (empty_storage r g ts)" using empty_storage_inv [OF r(1), of g ts] by (simp add: storage_inv_def)
  moreover have "refs_sound known aborted (empty_storage r g ts)"
    using assms(4,5) by (simp add: refs_sound_def)
  ultimately show ?thesis
    using storage_new_inv [OF assms(1)] gc_refs [OF assms(2), of "empty_storage r g ts" r] assms(3) r(2)
    by simp
qed

end

text \<open>Over a strict service every transmission of a stored certificate stays referenced.\<close>

context strict_storage_service
begin

lemma insert_complete:
  assumes E: "env_service E = V" and inv: "invar (st_transmissions s)" and new: "certs s (cert_id c) = None"
    and miss: "ss_find_missing V (st_transmissions s) (cert_header c) given ab = Inr m"
    and cpl: "refs_complete known aborted s"
  shows "refs_complete known aborted (insert_certificate_atomic E s c ab m)"
proof -
  let ?s = "insert_certificate_atomic E s c ab m" and ?ts = "st_transmissions s"
  have ts: "st_transmissions ?s = ss_insert V ?ts (cert_id c) (cert_transmission_ids c) ab m"
    by (simp add: insert_certificate_atomic_def E)
  have "cert_id c \<in> known_refs (known (st_transmissions ?s) t) \<union>
      aborted_refs (aborted (st_transmissions ?s) t)" if "t \<in> set (cert_transmission_ids c)" for t
    using that find_missing_strict [OF inv miss that]
    by (auto simp: ts insert_known [OF inv] insert_aborted [OF inv] known_refs_spec)
  moreover have "known_refs (known ?ts t) \<subseteq> known_refs (known (st_transmissions ?s) t)"
    "aborted_refs (aborted ?ts t) \<subseteq> aborted_refs (aborted (st_transmissions ?s) t)" for t
    by (auto simp: ts insert_known [OF inv] insert_aborted [OF inv] spec_effects known_refs_def
        aborted_refs_def split: option.splits if_splits)
  ultimately show ?thesis
    using cpl unfolding refs_complete_def cert_includes_insert [OF new] by (simp split: if_splits) blast
qed

lemma remove_complete:
  assumes E: "env_service E = V" and inv: "invar (st_transmissions s)" and wf: "storage_wf s"
    and cpl: "refs_complete known aborted s"
  shows "refs_complete known aborted (snd (remove_certificate E i s))"
proof (cases "certs s i")
  case None
  then show ?thesis using cpl by (simp add: remove_certificate_def get_certificate_def)
next
  case (Some c)
  have ts: "st_transmissions (snd (remove_certificate E i s)) =
      ss_remove V (st_transmissions s) i (cert_transmission_ids c)"
    using Some by (simp add: remove_certificate_def get_certificate_def E)
  show ?thesis
    using cpl unfolding refs_complete_def cert_includes_remove [OF wf] ts
    by (auto simp: remove_known [OF inv] remove_aborted [OF inv] known_refs_spec)
qed

lemma gc_complete:
  assumes E: "env_service E = V" and wf: "storage_wf s" and inv: "invar (st_transmissions s)"
    and snd: "refs_sound known aborted s" and cpl: "refs_complete known aborted s"
  shows "refs_complete known aborted (garbage_collect_certificates E n s)"
proof -
  let ?P = "\<lambda>s. refs_complete known aborted s \<and> refs_sound known aborted s \<and> invar (st_transmissions s)"
  have "?P (garbage_collect_certificates E n s)"
  proof (rule gc_preserves [where P = ?P])
    show "?P (snd (remove_certificate E i s))" if "storage_wf s" "?P s" for i s
      using remove_refs [OF E, of s i] remove_complete [OF E, of s i] that by blast
  qed (use wf inv snd cpl in \<open>simp_all add: refs_sound_def refs_complete_def cert_includes_def\<close>)
  then show ?thesis by blast
qed

lemma refs_complete_cong:
  assumes "st_certificates s' = st_certificates s" "known (st_transmissions s') = known (st_transmissions s)"
    "aborted (st_transmissions s') = aborted (st_transmissions s)"
  shows "refs_complete known aborted s' \<longleftrightarrow> refs_complete known aborted s"
  using assms by (simp add: refs_complete_def cert_includes_def)

lemma insert_certificate_complete:
  assumes E: "env_service E = V" and ok: "insert_certificate E L now s c given ab = Inr s'"
    and inv: "invar (st_transmissions s)" and cpl: "refs_complete known aborted s"
  shows "refs_complete known aborted s'"
  using ok
proof (rule insert_certificate_ok)
  fix m
  assume chk: "check_certificate E L now s c given ab = Inr m"
    and s': "s' = insert_certificate_atomic E s c ab m"
  note C = check_certificate_ok [OF chk]
  show ?thesis
    using insert_complete [OF E inv C(1) _ cpl] check_batch_header_ok(2) [OF C(3)] by (simp add: s' E)
qed

lemma step_complete:
  assumes "storage_step E s s'" "env_service E = V" "storage_inv s" "refs_sound known aborted s"
    "invar (st_transmissions s)" "refs_complete known aborted s"
  shows "refs_complete known aborted s'"
  using assms
proof (induction rule: storage_step.induct)
  case (step_insert L now s c given ab s')
  then show ?case using insert_certificate_complete by blast
next
  case (step_gc s n)
  then show ?case using gc_complete by (simp add: storage_inv_def)
next
  case (step_sync s L now b c u)
  then show ?case
    using sync_certificate_cases [of E L now b c u s] insert_certificate_complete by auto
next
  case (step_read s t)
  then show ?case
    using get_frame [of "st_transmissions s" t] refs_complete_cong [of "snd (get_transmission E s t)" s]
    by (auto simp: get_transmission_def split: prod.splits)
qed (auto simp: increment_to_next_round_def sync_height_with_block_def sync_round_with_block_def
    update_current_round_def Let_def refs_complete_def cert_includes_def split: sum.splits)

lemma reachable_available:
  assumes "(storage_step E)\<^sup>*\<^sup>* s s'" "env_service E = V" "storage_inv s" "refs_sound known aborted s"
    "invar (st_transmissions s)" "refs_complete known aborted s"
    and "certs s' i = Some c" "t \<in> set (cert_transmission_ids c)"
  shows "contains_transmission E s' t"
proof -
  have "refs_complete known aborted s' \<and> invar (st_transmissions s')"
    using assms(1-6)
  proof (induction rule: rtranclp_induct)
    case (step s1 s2)
    then show ?case
      using reachable_refs [of E s s1] step_complete [of E s1 s2] step_refs [of E s1 s2] by blast
  qed simp
  then have inv: "invar (st_transmissions s')"
    and "i \<in> known_refs (known (st_transmissions s') t) \<union> aborted_refs (aborted (st_transmissions s') t)"
    using assms(7,8) by (auto simp: refs_complete_def cert_includes_def)
  then show ?thesis
    by (auto simp: contains_transmission_def assms(2) contains_iff [OF inv] known_refs_def aborted_refs_def
        split: option.splits)
qed

end

end
