(* ===== verification/StorageProps.thy ===== *)
theory StorageProps
  imports StorageTransmissions
begin

text \<open>
  The properties of storage, over the lemmas of \<open>StorageInvariant\<close> and
  \<open>StorageTransmissions\<close>, and a concrete run of the in-memory storage on the sample
  network: three certificates in round 1 and a fourth in round 2 on top of them.
\<close>

section \<open>A concrete run\<close>

definition sample_env :: "memory_service env" where
  "sample_env = \<lparr>env_service = memory_vtable, env_network = sample_network, env_crypto = sample_crypto\<rparr>"

definition sample_core :: core_ledger where
  "sample_core = core_ledger_new sample_ledger False"

definition sample_t :: transmission_id where
  "sample_t = TransactionID 5 0"

definition sample_given :: transmissions where
  "sample_given = [(sample_t, Transaction (Object (sample_transaction 5)))]"

definition sample_s0 :: "memory_service storage" where
  "sample_s0 = empty_storage 1 1 mem_new"

definition sample_s1a :: "memory_service storage" where
  "sample_s1a = insert_certificate_atomic sample_env sample_s0 (sample_cert 1 1 [] []) [] []"

definition sample_s1b :: "memory_service storage" where
  "sample_s1b = insert_certificate_atomic sample_env sample_s1a (sample_cert 1 2 [] []) [] []"

definition sample_s1 :: "memory_service storage" where
  "sample_s1 = insert_certificate_atomic sample_env sample_s1b (sample_cert 1 3 [] []) [] []"

definition sample_c2 :: certificate where
  "sample_c2 = sample_cert 2 1 [sample_t] [11, 12, 13]"

definition sample_s2 :: "memory_service storage" where
  "sample_s2 = insert_certificate_atomic sample_env sample_s1 sample_c2 [] sample_given"

lemmas sample_store_defs = sample_env_def sample_core_def sample_t_def sample_given_def sample_s0_def
  sample_s1a_def sample_s1b_def sample_s1_def sample_c2_def sample_s2_def core_ledger_new_def memory_vtable_def mem_new_def sample_defs

lemmas insert_eval = insert_certificate_def check_certificate_def check_batch_header_def
  check_previous_round_def contains_certificate_def contains_certificate_in_round_from_def
  contains_batch_def contains_certificates_for_round_def get_certificate_def
  get_committee_lookback_for_round_def get_committee_for_round_def check_timestamp_for_liveness_def
  MAX_TIMESTAMP_DELTA_IN_SECS_def i64_add_def i64_wrap_def imap_or_default_def iset_insert_def
  mem_find_missing_def mem_insert_transmissions_def

lemma sample_new: "storage_new sample_env sample_core mem_new 1 = Some sample_s0"
  by (simp add: storage_new_def current_committee_def update_current_round_def
      garbage_collect_certificates_def sample_store_defs)

text \<open>Each insertion of the run succeeds in storage.\<close>

lemma sample_inserts:
  "insert_certificate sample_env sample_core 100 sample_s0 (sample_cert 1 1 [] []) [] [] = Inr sample_s1a"
  "insert_certificate sample_env sample_core 100 sample_s1a (sample_cert 1 2 [] []) [] [] = Inr sample_s1b"
  "insert_certificate sample_env sample_core 100 sample_s1b (sample_cert 1 3 [] []) [] [] = Inr sample_s1"
  "insert_certificate sample_env sample_core 100 sample_s1 sample_c2 sample_given [] = Inr sample_s2"
  by (simp_all add: insert_eval insert_certificate_atomic_def sample_store_defs)

lemma sample_run: "(storage_step sample_env)\<^sup>*\<^sup>* sample_s0 sample_s1" "storage_step sample_env sample_s1 sample_s2"
proof -
  have "storage_step sample_env sample_s0 sample_s1a" "storage_step sample_env sample_s1a sample_s1b"
    "storage_step sample_env sample_s1b sample_s1"
    by (rule step_insert [OF sample_inserts(1)] step_insert [OF sample_inserts(2)]
        step_insert [OF sample_inserts(3)]; simp)+
  then show "(storage_step sample_env)\<^sup>*\<^sup>* sample_s0 sample_s1"
    by (meson r_into_rtranclp rtranclp_trans)
  show "storage_step sample_env sample_s1 sample_s2"
    by (rule step_insert [OF sample_inserts(4)]) simp
qed

lemmas sample_reach2 = rtranclp.rtrancl_into_rtrancl [OF sample_run]

lemma sample_inv: "storage_inv sample_s1" "storage_inv sample_s2"
  using reachable_storage_inv [OF sample_run(1) storage_new_inv [OF sample_new]]
    reachable_storage_inv [OF sample_reach2 storage_new_inv [OF sample_new]] by auto

section \<open>Properties\<close>



text \<open>C8: storage never holds two certificates of one author for one round, and the lookup by
  round and author finds exactly the certificate that is there.\<close>

theorem storage_no_equivocation:
  assumes "storage_new E L ts g = Some s" "(storage_step E)\<^sup>*\<^sup>* s s'" "get_certificate s' i = Some c"
  shows "get_certificate_for_round_with_author s' (cert_round c) (cert_author c) = Some c \<and>
    (\<forall>j d. get_certificate s' j = Some d \<longrightarrow> cert_round d = cert_round c \<longrightarrow>
       cert_author d = cert_author c \<longrightarrow> j = i \<and> d = c)"
proof -
  have wf: "storage_wf s'"
    using reachable_storage_inv [OF assms(2) storage_new_inv [OF assms(1)]] by (simp add: storage_inv_def)
  have c: "certs s' i = Some c" using assms(3) by (simp add: get_certificate_def)
  have "d = c \<and> j = i"
    if "certs s' j = Some d" "cert_round d = cert_round c" "cert_author d = cert_author c" for j d
    using storage_wf_one_per_author [OF wf that(1) c that(2,3)] storage_wfD(4) [OF wf that(1)]
      storage_wfD(4) [OF wf c] by simp
  then show ?thesis
    using c by (auto simp: get_for_round_with_author_wf [OF wf] get_certificate_def)
qed

theorem storage_no_equivocation_witness:
  "get_certificate_for_round_with_author sample_s2 (cert_round sample_c2) (cert_author sample_c2) =
     Some sample_c2"
  by (rule storage_no_equivocation [OF sample_new sample_reach2, of 21, THEN conjunct1])
    (simp add: get_certificate_def sample_s2_def sample_c2_def sample_cert_def)

text \<open>C5: a certificate enters storage only if it is above the garbage collected round, new, from a
  member of its committee, signed by committee members that together with the author reach
  the quorum, and, unless its predecessors' round is collected, built on stored certificates
  of the previous round by distinct authors that reach the quorum of their committee. It is
  then found under its ID, and every other certificate is untouched.\<close>

theorem insert_certificate_quorum:
  assumes "insert_certificate E L now s c given ab = Inr s'"
  shows "st_gc_round s < cert_round c \<and> get_certificate s (cert_id c) = None \<and>
    (\<exists>com. get_committee_lookback_for_round (env_network E) L (cert_round c) = Inr com \<and>
       com_is_member com (cert_author c) \<and>
       (\<forall>sg \<in> set (cert_signatures c). com_is_member com (cr_to_address (env_crypto E) sg)) \<and>
       com_quorum_reached com (insert (cert_author c) (cr_to_address (env_crypto E) ` set (cert_signatures c)))) \<and>
    (cert_round c - 1 > st_gc_round s \<longrightarrow>
      (\<exists>com ds. get_committee_lookback_for_round (env_network E) L (cert_round c - 1) = Inr com \<and>
        map (get_certificate s) (cert_previous_ids c) = map Some ds \<and> distinct (map cert_author ds) \<and>
        (\<forall>d \<in> set ds. cert_round d = cert_round c - 1) \<and> com_quorum_reached com (cert_author ` set ds))) \<and>
    get_certificate s' = (get_certificate s)(cert_id c \<mapsto> c)"
  using assms
proof (rule insert_certificate_ok)
  fix m
  assume gc: "st_gc_round s < cert_round c" and chk: "check_certificate E L now s c given ab = Inr m"
    and s': "s' = insert_certificate_atomic E s c ab m"
  note C = check_certificate_ok [OF chk] and B = check_batch_header_ok [OF check_certificate_ok(3) [OF chk]]
  have signers: "\<exists>com. get_committee_lookback_for_round (env_network E) L (cert_round c) = Inr com \<and>
     com_is_member com (cert_author c) \<and>
     (\<forall>sg \<in> set (cert_signatures c). com_is_member com (cr_to_address (env_crypto E) sg)) \<and>
     com_quorum_reached com (insert (cert_author c) (cr_to_address (env_crypto E) ` set (cert_signatures c)))"
    using C(4) B(3) by (auto dest!: check_signers_ok)
  have previous: "\<exists>com ds. get_committee_lookback_for_round (env_network E) L (cert_round c - 1) = Inr com \<and>
     map (get_certificate s) (cert_previous_ids c) = map Some ds \<and> distinct (map cert_author ds) \<and>
     (\<forall>d \<in> set ds. cert_round d = cert_round c - 1) \<and> com_quorum_reached com (cert_author ` set ds)"
    if r: "cert_round c - 1 > st_gc_round s"
    using B(5) [OF r]
  proof (rule check_previous_round_ok)
    fix com A
    assume com: "get_committee_lookback_for_round (env_network E) L (bh_round (cert_header c) - 1) = Inr com"
      and prev: "check_previous s (cert_round c - 1) (cert_previous_ids c) {} = Inr A"
      and q: "com_quorum_reached com A"
    note P = check_previous_ok [OF prev]
    let ?ds = "map (\<lambda>i. the (certs s i)) (cert_previous_ids c)"
    have "A = cert_author ` set ?ds" using P by (auto simp: image_iff) force+
    moreover have "map (get_certificate s) (cert_previous_ids c) = map Some ?ds"
      using P by (auto simp: get_certificate_def)
    moreover have "\<forall>d \<in> set ?ds. cert_round d = cert_round c - 1" using P by auto
    moreover have "distinct (map cert_author ?ds)"
      using check_previous_authors [OF prev] by (simp add: comp_def)
    ultimately show ?thesis using com q by blast
  qed
  show ?thesis
    using gc C(1) signers previous by (simp add: s' get_certificate_def fun_eq_iff)
qed

theorem insert_certificate_quorum_witness:
  "\<exists>com ds. get_committee_lookback_for_round sample_network sample_core 1 = Inr com \<and>
     map (get_certificate sample_s1) [11, 12, 13] = map Some ds \<and> com_quorum_reached com (cert_author ` set ds)"
proof -
  have c2: "cert_round sample_c2 = 2" "cert_previous_ids sample_c2 = [11, 12, 13]"
    by (simp_all add: sample_c2_def sample_cert_def sample_header_def)
  have "st_gc_round sample_s1 = 0"
    by (simp add: sample_s1_def sample_s1b_def sample_s1a_def sample_s0_def)
  then show ?thesis
    using insert_certificate_quorum [OF sample_inserts(4), THEN conjunct2, THEN conjunct2, THEN conjunct2,
        THEN conjunct1, THEN mp]
    unfolding c2 by (simp add: sample_env_def del: map_eq_Cons_conv list.map) metis
qed

text \<open>C28: garbage collection moves the collected round forward to \<open>max_gc_rounds\<close> behind the given
  round, never back, and keeps exactly the certificates above it.\<close>

theorem garbage_collection_keeps_recent:
  assumes "storage_wf s"
  shows "st_gc_round (garbage_collect_certificates E n s) = max (st_gc_round s) (n - st_max_gc_rounds s) \<and>
    get_certificate (garbage_collect_certificates E n s) i =
      (case get_certificate s i of
         None \<Rightarrow> None
       | Some c \<Rightarrow> if cert_round c > max (st_gc_round s) (n - st_max_gc_rounds s) then Some c else None)"
  using gc_certs [OF assms, of E n]
  by (auto simp: get_certificate_def gc_target_def drop_rounds_def split: option.splits)

theorem garbage_collection_keeps_recent_witness:
  "get_certificate (garbage_collect_certificates sample_env 2 sample_s2) 11 = None \<and>
   get_certificate (garbage_collect_certificates sample_env 2 sample_s2) 21 = Some sample_c2"
  using garbage_collection_keeps_recent [of sample_s2 sample_env 2 11]
    garbage_collection_keeps_recent [of sample_s2 sample_env 2 21] sample_inv(2)
  by (simp add: storage_inv_def get_certificate_def sample_s2_def sample_s1_def sample_s1b_def sample_s1a_def sample_s0_def
      sample_c2_def sample_cert_def sample_header_def)

text \<open>The round trackers of a storage never go back: no operation lowers the current round or
  the garbage collected round.\<close>

theorem storage_rounds_monotone:
  assumes "storage_new E L ts g = Some s" "(storage_step E)\<^sup>*\<^sup>* s s1" "storage_step E s1 s2"
  shows "st_gc_round s1 \<le> st_gc_round s2 \<and> st_current_round s1 \<le> st_current_round s2"
  using storage_step_monotone [OF assms(3)] reachable_storage_inv [OF assms(2) storage_new_inv [OF assms(1)]]
  by blast

theorem storage_rounds_monotone_witness: "st_current_round sample_s1 \<le> st_current_round sample_s2"
  using storage_rounds_monotone [OF sample_new sample_run] by blast

text \<open>The pending certificates are exactly the stored certificates that the ledger does not
  report as included, in the order of their rounds.\<close>

theorem pending_certificates_exact:
  assumes "storage_wf s"
  shows "set (get_pending_certificates L s) =
      {c. \<exists>i. get_certificate s i = Some c \<and> \<not> unwrap_or False (ledger_contains_certificate L i)} \<and>
    sorted (map cert_round (get_pending_certificates L s))"
  using pending_certificates_wf [OF assms] by (simp add: get_certificate_def)

theorem pending_certificates_exact_witness: "sample_c2 \<in> set (get_pending_certificates sample_core sample_s2)"
  using pending_certificates_exact [of sample_s2 sample_core] sample_inv(2)
  by (auto simp: storage_inv_def get_certificate_def sample_s2_def sample_c2_def sample_cert_def
      ledger_contains_certificate_def unwrap_or_def sample_core_def core_ledger_new_def sample_ledger_def)

text \<open>C29: over the in-memory service every transmission of every stored certificate is available in
  storage, through any sequence of operations including garbage collection.\<close>

theorem stored_transmissions_available:
  assumes "env_service E = memory_vtable" "storage_new E L mem_new g = Some s" "(storage_step E)\<^sup>*\<^sup>* s s'"
    and "get_certificate s' i = Some c" "t \<in> set (cert_transmission_ids c)"
  shows "contains_transmission E s' t"
proof -
  have empty: "known_abs (ms_transmissions mem_new) = (\<lambda>_. None)" "aborted_abs (ms_aborted mem_new) = (\<lambda>_. None)"
    by (auto simp: mem_new_def known_abs_def aborted_abs_def)
  note new = mem.new_refs [OF assms(2,1) mem_invar_new empty]
  obtain r where "0 < r" "s = garbage_collect_certificates E r (empty_storage r g mem_new)"
    using storage_new_gc [OF assms(2)] by blast
  then have "certs s i = None" for i
    using gc_certs(2) [of "empty_storage r g mem_new" E r] empty_storage_inv [of r g mem_new]
    by (simp add: storage_inv_def drop_rounds_def)
  then have "refs_complete (\<lambda>s. known_abs (ms_transmissions s)) (\<lambda>s. aborted_abs (ms_aborted s)) s"
    by (simp add: refs_complete_def cert_includes_def)
  then show ?thesis
    using mem_strict.reachable_available [OF assms(3,1)] new assms(4,5) by (auto simp: get_certificate_def)
qed

theorem stored_transmissions_available_witness: "contains_transmission sample_env sample_s2 sample_t"
  by (rule stored_transmissions_available [OF _ sample_new sample_reach2, of 21 sample_c2])
    (simp_all add: sample_env_def get_certificate_def sample_s2_def sample_c2_def sample_cert_def sample_header_def)

text \<open>Over the persistent service, without database faults, every reference recorded for a
  transmission is to a certificate that is in storage and includes it, and no entry is left
  without a reference: garbage collection leaves no orphan behind.\<close>

theorem persistent_references_sound:
  assumes "env_service E = persistent_vtable no_faults" "storage_new E L ts g = Some s"
    and "pers_invar ts" "ps_transmissions ts = []" "ps_aborted ts = []" "(storage_step E)\<^sup>*\<^sup>* s s'"
    and "map_of (ps_transmissions (st_transmissions s')) t = Some (x, is)"
  shows "is \<noteq> [] \<and> (\<forall>i \<in> set is. \<exists>c. get_certificate s' i = Some c \<and> t \<in> set (cert_transmission_ids c))"
proof -
  have empty: "known_abs (ms_transmissions (pers_db ts)) = (\<lambda>_. None)"
    "aborted_abs (ms_aborted (pers_db ts)) = (\<lambda>_. None)"
    using assms(4,5) by (auto simp: known_abs_def aborted_abs_def)
  note new = pers.new_refs [OF assms(2,1,3) empty]
  have "refs_sound (\<lambda>s. known_abs (ms_transmissions (pers_db s))) (\<lambda>s. aborted_abs (ms_aborted (pers_db s))) s'"
    using pers.reachable_refs [OF assms(6,1)] new by blast
  then show ?thesis
    using assms(7) by (auto simp: refs_sound_def known_abs_def cert_includes_def get_certificate_def)
qed

text \<open>The same run over the persistent service, freshly opened on an empty database.\<close>

definition sample_pers :: persistent_service where
  "sample_pers = \<lparr>ps_transmissions = [], ps_aborted = [], ps_cache = [], ps_cache_aborted = [], ps_capacity = 2500\<rparr>"

definition sample_penv :: "persistent_service env" where
  "sample_penv = \<lparr>env_service = persistent_vtable no_faults, env_network = sample_network, env_crypto = sample_crypto\<rparr>"

definition sample_p1 :: "persistent_service storage" where
  "sample_p1 = insert_certificate_atomic sample_penv (empty_storage 1 1 sample_pers)
     (sample_cert 1 1 [sample_t] []) [] sample_given"

lemma sample_p_new: "storage_new sample_penv sample_core sample_pers 1 = Some (empty_storage 1 1 sample_pers)"
  by (simp add: storage_new_def current_committee_def update_current_round_def
      garbage_collect_certificates_def sample_store_defs)

lemma sample_p_insert:
  "insert_certificate sample_penv sample_core 100 (empty_storage 1 1 sample_pers)
     (sample_cert 1 1 [sample_t] []) sample_given [] = Inr sample_p1"
  by (simp add: insert_eval insert_certificate_atomic_def sample_store_defs sample_penv_def sample_p1_def
      persistent_vtable_def pers_find_missing_def pers_contains_transmission_def sample_pers_def)

theorem persistent_references_sound_witness:
  "\<exists>c. get_certificate sample_p1 11 = Some c \<and> sample_t \<in> set (cert_transmission_ids c)"
proof -
  have run: "(storage_step sample_penv)\<^sup>*\<^sup>* (empty_storage 1 1 sample_pers) sample_p1"
    by (rule r_into_rtranclp, rule step_insert [OF sample_p_insert]) simp
  have inv: "pers_invar sample_pers"
    by (simp add: sample_pers_def pers_invar_def pers_db_def mem_invar_def known_wf_def aborted_wf_def
        cache_coherent_def)
  have ref: "map_of (ps_transmissions (st_transmissions sample_p1)) sample_t =
      Some (Transaction (Object (sample_transaction 5)), [11])"
    by (simp add: sample_p1_def insert_certificate_atomic_def sample_penv_def persistent_vtable_def
        pers_insert_transmissions_def sample_pers_def sample_cert_def sample_header_def sample_given_def sample_t_def)
  show ?thesis
    using persistent_references_sound [OF _ sample_p_new inv _ _ run ref]
    by (simp add: sample_penv_def sample_pers_def)
qed

end
