(* ===== verification/BftProps.thy ===== *)
theory BftProps
  imports BftOrder StorageProps
begin

text \<open>
  The properties of the BFT: links are paths, ordering is exact and total, transmissions of a
  sub-DAG are collected once each, anchors are committed as a linked chain and only when
  available, and a round is left only with a quorum.
\<close>

section \<open>Collected transmissions\<close>

definition collected_ok :: "core_ledger \<Rightarrow> transmission_id set \<Rightarrow> collected \<Rightarrow> bool" where
  "collected_ok L T acc \<longleftrightarrow> imap_wf (co_transmissions acc) \<and>
     (\<forall>t \<in> fst ` set (co_transmissions acc). t \<in> T \<and> t \<noteq> RatificationID \<and>
        ledger_contains_transmission L t = Inr False \<and> already_seen t acc) \<and>
     (\<forall>i ck ck'. SolutionID i ck \<in> fst ` set (co_transmissions acc) \<longrightarrow>
        SolutionID i ck' \<in> fst ` set (co_transmissions acc) \<longrightarrow> ck = ck') \<and>
     (\<forall>i ck ck'. TransactionID i ck \<in> fst ` set (co_transmissions acc) \<longrightarrow>
        TransactionID i ck' \<in> fst ` set (co_transmissions acc) \<longrightarrow> ck = ck')"

lemma already_seen_mark: "already_seen t (mark_seen t acc) \<longleftrightarrow> t \<noteq> RatificationID"
  by (cases t) auto

lemma already_seen_mono:
  "already_seen t acc \<Longrightarrow> already_seen t (mark_seen u acc)"
  by (cases t; cases u) auto

lemma already_seen_update [simp]: "already_seen t (a\<lparr>co_transmissions := m\<rparr>) = already_seen t a"
  by (cases t) auto

lemma keys_update [simp]: "fst ` set (AList.update k v m) = insert k (fst ` set m)"
  by (simp add: dom_update)

lemma collected_ok_add:
  assumes ok: "collected_ok L T acc" and t: "t \<in> T" "t \<noteq> RatificationID" "\<not> already_seen t acc"
    "ledger_contains_transmission L t = Inr False"
  shows "collected_ok L T ((mark_seen t acc)\<lparr>co_transmissions := AList.update t x (co_transmissions acc)\<rparr>)"
proof -
  define K where "K = fst ` set (co_transmissions acc)"
  let ?acc = "(mark_seen t acc)\<lparr>co_transmissions := AList.update t x (co_transmissions acc)\<rparr>"
  have K: "fst ` set (co_transmissions ?acc) = insert t K" by (simp add: K_def)
  have old: "imap_wf (co_transmissions acc)"
    "\<And>u. u \<in> K \<Longrightarrow> u \<in> T \<and> u \<noteq> RatificationID \<and> ledger_contains_transmission L u = Inr False \<and> already_seen u acc"
    "\<And>i ck ck'. SolutionID i ck \<in> K \<Longrightarrow> SolutionID i ck' \<in> K \<Longrightarrow> ck = ck'"
    "\<And>i ck ck'. TransactionID i ck \<in> K \<Longrightarrow> TransactionID i ck' \<in> K \<Longrightarrow> ck = ck'"
    using ok unfolding collected_ok_def K_def by blast+
  have new: "SolutionID i ck \<in> K \<Longrightarrow> t \<noteq> SolutionID i ck'" "TransactionID i ck \<in> K \<Longrightarrow> t \<noteq> TransactionID i ck'"
    for i ck ck'
    using t(3) old(2) [of "SolutionID i ck"] old(2) [of "TransactionID i ck"] by auto
  have "already_seen u ?acc" if "u \<in> insert t K" for u
    using that t(2) old(2) already_seen_mono [of u acc t] by (auto simp: already_seen_mark)
  then have "\<forall>u \<in> insert t K. u \<in> T \<and> u \<noteq> RatificationID \<and>
      ledger_contains_transmission L u = Inr False \<and> already_seen u ?acc"
    using t old(2) by blast
  moreover have "SolutionID i ck \<in> insert t K \<Longrightarrow> SolutionID i ck' \<in> insert t K \<Longrightarrow> ck = ck'"
    "TransactionID i ck \<in> insert t K \<Longrightarrow> TransactionID i ck' \<in> insert t K \<Longrightarrow> ck = ck'" for i ck ck'
    using new old(3,4) by (metis insert_iff transmission_id.inject)+
  moreover have "imap_wf (co_transmissions ?acc)" using old(1) by simp
  ultimately show ?thesis
    unfolding collected_ok_def K by blast
qed

lemma collect_transmissions_ok:
  assumes "collect_transmissions E L ts acc s = (Inr acc', s')" "collected_ok L T acc" "set ts \<subseteq> T"
  shows "collected_ok L T acc' \<and> (\<forall>t. already_seen t acc \<longrightarrow> already_seen t acc') \<and>
    (\<forall>t \<in> set ts. ledger_contains_transmission L t = Inr False \<longrightarrow> already_seen t acc')"
  using assms
proof (induction ts arbitrary: acc s)
  case (Cons t ts)
  have led: "ledger_contains_transmission L t = Inr False \<longleftrightarrow> \<not> unwrap_or True (ledger_contains_transmission L t)"
    by (auto simp: unwrap_or_def split: sum.splits)
  have seen: "t \<in> fst ` set (co_transmissions acc) \<Longrightarrow> already_seen t acc"
    using Cons.prems(2) unfolding collected_ok_def by blast
  have T: "set ts \<subseteq> T" "t \<in> T" using Cons.prems(3) by auto
  have rat: "t \<noteq> RatificationID" using Cons.prems(1) by auto
  show ?case
  proof (cases "already_seen t acc \<or> imap_contains_key t (co_transmissions acc) \<or>
      unwrap_or True (ledger_contains_transmission L t)")
    case True
    then have "collect_transmissions E L ts acc s = (Inr acc', s')"
      using Cons.prems(1) by (auto split: if_splits)
    from Cons.IH [OF this Cons.prems(2) T(1)] show ?thesis
      using True seen led by auto
  next
    case False
    then obtain x s1 where g: "get_transmission E s t = (Some x, s1)"
      using Cons.prems(1) rat by (auto split: prod.splits option.splits)
    let ?acc = "(mark_seen t acc)\<lparr>co_transmissions := AList.update t x (co_transmissions acc)\<rparr>"
    have ok: "collected_ok L T ?acc"
      using collected_ok_add [OF Cons.prems(2) T(2) rat] False led by simp
    have "collect_transmissions E L ts ?acc s1 = (Inr acc', s')"
      using Cons.prems(1) False g rat by simp
    from Cons.IH [OF this ok T(1)] show ?thesis
      using rat already_seen_mono [of _ acc t] by (auto simp: already_seen_mark)
  qed
qed auto

section \<open>Anchors\<close>

lemma elect_leader_frame [simp]:
  "bft_dag (snd (elect_leader r b)) = bft_dag b" "bft_storage (snd (elect_leader r b)) = bft_storage b"
  "bft_address (snd (elect_leader r b)) = bft_address b"
  "bft_leader_certificate (snd (elect_leader r b)) = bft_leader_certificate b"
  "cl_ledger (bft_ledger (snd (elect_leader r b))) = cl_ledger (bft_ledger b)"
  by (auto simp: elect_leader_def update_latest_leader_def split: option.splits)

lemma elect_leader_pair:
  "elect_leader r b = (a, b1) \<Longrightarrow> bft_dag b1 = bft_dag b \<and> bft_storage b1 = bft_storage b \<and>
     cl_ledger (bft_ledger b1) = cl_ledger (bft_ledger b)"
  using elect_leader_frame [of r b] by simp

lemma set_step_by2: "set (step_by2 xs) \<subseteq> set xs"
  by (induction xs rule: step_by2.induct) auto

lemma sorted_wrt_step_by2: "sorted_wrt P xs \<Longrightarrow> sorted_wrt P (step_by2 xs)"
proof (induction xs rule: step_by2.induct)
  case (3 x y xs)
  then show ?case using set_step_by2 [of xs] by auto
qed simp_all

lemma step_by2_rev_upt: "r \<in> set (step_by2 (rev [a..<Suc n])) \<Longrightarrow> a \<le> r \<and> r \<le> n \<and> even (n - r)"
proof (induction n rule: less_induct)
  case (less n)
  show ?case
  proof (cases "Suc a \<le> n")
    case True
    then obtain m where n: "n = Suc m" "a \<le> m" by (metis Suc_le_D Suc_le_mono)
    then have eq: "step_by2 (rev [a..<Suc n]) = n # step_by2 (rev [a..<m])" by simp
    show ?thesis
    proof (cases "r = n")
      case False
      then have r: "r \<in> set (step_by2 (rev [a..<m]))" using less.prems eq by simp
      then obtain k where k: "m = Suc k" using set_step_by2 [of "rev [a..<m]"] by (cases m) auto
      then have "a \<le> r \<and> r \<le> k \<and> even (k - r)" using less.IH [of k] r n by auto
      then show ?thesis using n k by auto
    qed (use n in simp)
  next
    case False
    then show ?thesis using less.prems by (cases "a \<le> n") auto
  qed
qed

definition anchor_chain :: "dag \<Rightarrow> certificate list \<Rightarrow> bool" where
  "anchor_chain d = sorted_wrt (\<lambda>c p. cert_round p < cert_round c \<and> (dag_step d)\<^sup>*\<^sup>* c p)"

lemma collect_leaders_chain:
  assumes "dag_wf (bft_dag b)" "sorted_wrt (>) rounds" "\<forall>r \<in> set rounds. r < cert_round cur"
    and "collect_leaders rounds cur acc b = (Inr ls, b')" "anchor_chain (bft_dag b) acc"
    and "\<forall>c \<in> set acc. c = cur \<or> cert_round cur < cert_round c \<and> (dag_step (bft_dag b))\<^sup>*\<^sup>* c cur"
  shows "bft_dag b' = bft_dag b \<and> bft_storage b' = bft_storage b \<and> anchor_chain (bft_dag b) ls \<and>
    (\<exists>ls'. ls = acc @ ls' \<and> (\<forall>c \<in> set ls'. cert_round c \<in> set rounds))"
  using assms
proof (induction rounds arbitrary: cur acc b)
  case (Cons round rounds)
  obtain a b1 where el: "elect_leader round b = (a, b1)" by fastforce
  then have b1: "bft_dag b1 = bft_dag b" "bft_storage b1 = bft_storage b"
    using elect_leader_frame [of round b] by simp_all
  have wf: "dag_wf (bft_dag b1)" using Cons.prems(1) b1 by simp
  have rounds: "sorted_wrt (>) rounds" "\<forall>r \<in> set rounds. r < cert_round cur" "round < cert_round cur"
    "\<forall>r \<in> set rounds. r < round"
    using Cons.prems(2,3) by auto
  have skip: ?case if rest: "collect_leaders rounds cur acc b1 = (Inr ls, b')"
    using Cons.IH [OF wf rounds(1,2) rest] Cons.prems(5,6) b1 by auto
  show ?case
  proof (cases "vertex (bft_dag b1) round a")
    case None
    then show ?thesis using skip Cons.prems(4) el by simp
  next
    case (Some p)
    have pr: "cert_round p = round" using vertex_round_author [OF wf Some] by simp
    show ?thesis
    proof (cases "is_linked (bft_dag b1) p cur")
      case (Inr v)
      show ?thesis
      proof (cases v)
        case True
        have path: "(dag_step (bft_dag b1))\<^sup>*\<^sup>* cur p"
          using is_linked_iff_path [OF wf _ Inr] True pr rounds(3) by simp
        have acc: "cert_round p < cert_round c \<and> (dag_step (bft_dag b1))\<^sup>*\<^sup>* c p" if "c \<in> set acc" for c
          using Cons.prems(6) that path pr rounds(3) b1(1) by (auto intro: rtranclp_trans)
        have chain: "anchor_chain (bft_dag b1) (acc @ [p])"
          using Cons.prems(5) acc by (simp add: anchor_chain_def sorted_wrt_append b1(1))
        have rest: "collect_leaders rounds p (acc @ [p]) b1 = (Inr ls, b')"
          using Cons.prems(4) el Some Inr True by simp
        from Cons.IH [OF wf rounds(1) _ rest chain] show ?thesis
          using acc rounds(4) pr b1 by auto
      qed (use skip Cons.prems(4) el Some Inr in simp)
    qed (use Cons.prems(4) el Some in simp)
  qed
qed auto

section \<open>Stakes and readiness\<close>

abbreviation stake_sum :: "committee \<Rightarrow> certificate list \<Rightarrow> nat" where
  "stake_sum com cs \<equiv> sum_list (map (\<lambda>c. com_stake com (cert_author c)) cs)"

lemma saturating_chain:
  "w < 2 ^ 64 \<Longrightarrow> min (u64_saturating_add w x + y) (2 ^ 64 - 1) = min (w + x + y) (2 ^ 64 - 1)"
  by (auto simp: u64_saturating_add_def min_def)

lemma compute_stake_loop_sum:
  "w < 2 ^ 64 \<Longrightarrow> wo < 2 ^ 64 \<Longrightarrow> compute_stake_loop i com cs (w, wo) =
     (min (w + stake_sum com (filter (\<lambda>c. i \<in> set (cert_previous_ids c)) cs)) (2 ^ 64 - 1),
      min (wo + stake_sum com (filter (\<lambda>c. i \<notin> set (cert_previous_ids c)) cs)) (2 ^ 64 - 1))"
proof (induction cs arbitrary: w wo)
  case (Cons c cs)
  then show ?case
    using u64_saturating_add_bound saturating_chain by (simp add: Let_def add.assoc)
qed simp

lemma update_even_ready:
  assumes "update_leader_certificate_to_even_round N now r b = (True, b')"
  shows "r = st_current_round (bft_storage b) \<and> bft_storage b' = bft_storage b \<and>
    bft_dag b' = bft_dag b \<and> cl_ledger (bft_ledger b') = cl_ledger (bft_ledger b) \<and>
    (\<exists>com. get_committee_lookback_for_round N (bft_ledger b) r = Inr com \<and>
       com_quorum_reached com (cert_author ` set (get_certificates_for_round (bft_storage b) r)))"
  using assms
  by (auto simp: update_leader_certificate_to_even_round_def is_even_round_ready_for_next_round_def Let_def
      split: if_splits sum.splits prod.splits dest!: elect_leader_pair)

lemma odd_ready:
  assumes "is_leader_quorum_or_nonleaders_available N now r b"
  shows "r = st_current_round (bft_storage b) \<and>
    (\<exists>com. get_committee_lookback_for_round N (bft_ledger b) r = Inr com \<and>
       com_quorum_reached com (cert_author ` set (get_certificates_for_round (bft_storage b) r)))"
  using assms
  by (auto simp: is_leader_quorum_or_nonleaders_available_def Let_def split: if_splits sum.splits)

lemma update_to_next_round_cases:
  assumes "update_to_next_round N now r b = (True, b')"
  obtains b1 n s where
    "if r mod 2 = 0 then update_leader_certificate_to_even_round N now r b = (True, b1)
     else is_leader_quorum_or_nonleaders_available N now r b \<and> b1 = b"
    "increment_to_next_round (bft_ledger b1) r (bft_storage b1) = (Inr n, s)" "bft_storage b' = s"
    "bft_dag b' = bft_dag b1"
  using assms
  by (auto simp: update_to_next_round_def Let_def split: if_splits prod.splits sum.splits)

lemma update_dag_committed:
  assumes "update_dag P al sy c b = (r, b')"
    and "dag_last_committed_round (bft_dag b') \<noteq> dag_last_committed_round (bft_dag b)"
  shows "\<exists>a b1 lc m com. elect_leader (cert_round c - 1) (b\<lparr>bft_dag := dag_insert c (bft_dag b)\<rparr>) = (a, b1) \<and>
    vertex (dag_insert c (bft_dag b)) (cert_round c - 1) a = Some lc \<and>
    dag_get_certificates_for_round (dag_insert c (bft_dag b)) (cert_round c) = Some m \<and>
    get_committee_lookback_for_round (env_network (bp_env P)) (bft_ledger b1) (cert_round c) = Inr com \<and>
    com_availability_reached com
      (cert_author ` set (filter (\<lambda>x. cert_id lc \<in> set (cert_previous_ids x)) (map snd m)))"
proof -
  obtain a b1 where el: "elect_leader (cert_round c - 1) (b\<lparr>bft_dag := dag_insert c (bft_dag b)\<rparr>) = (a, b1)"
    by fastforce
  note fr = elect_leader_pair [OF el, simplified]
  show ?thesis
    using assms el fr
    by (auto simp: update_dag_def Let_def split: if_splits sum.splits option.splits)
qed

section \<open>A concrete BFT\<close>

definition sample_bft :: "memory_service bft" where
  "sample_bft = (bft_new 1 sample_s2 sample_core (primary_new False None))\<lparr>bft_dag :=
     dag_insert sample_c2 (dag_insert (sample_cert 1 3 [] []) (dag_insert (sample_cert 1 2 [] [])
       (dag_insert (sample_cert 1 1 [] []) dag_new)))\<rparr>"

lemma sample_bft_fields [simp]:
  "bft_storage sample_bft = sample_s2" "bft_ledger sample_bft = sample_core"
  by (simp_all add: sample_bft_def bft_new_def)

lemma sample_bft_wf: "bft_wf sample_bft"
  using sample_inv(2) by (simp add: bft_wf_def sample_bft_def bft_new_def dag_wf_insert dag_wf_new)

lemma sample_graph:
  "dag_graph (bft_dag sample_bft) =
     [(1, [(1, sample_cert 1 1 [] []), (2, sample_cert 1 2 [] []), (3, sample_cert 1 3 [] [])]),
      (2, [(1, sample_c2)])]"
  "dag_recent_committed_ids (bft_dag sample_bft) = []" "dag_last_committed_round (bft_dag sample_bft) = 0"
  by (simp_all add: sample_bft_def dag_insert_def dag_new_def is_recently_committed_def btree_or_default_def
      sample_c2_def sample_cert_def sample_header_def)

lemma sample_certs:
  "st_certificates sample_s2 = [(11, sample_cert 1 1 [] []), (12, sample_cert 1 2 [] []),
     (13, sample_cert 1 3 [] []), (21, sample_c2)]" "st_max_gc_rounds sample_s2 = 1" "st_gc_round sample_s2 = 0"
  by (simp_all add: sample_s2_def sample_s1_def sample_s1b_def sample_s1a_def sample_s0_def
      insert_certificate_atomic_def sample_c2_def sample_cert_def)

lemma sample_known:
  "known_certificates sample_bft \<subseteq>
     {sample_cert 1 1 [] [], sample_cert 1 2 [] [], sample_cert 1 3 [] [], sample_c2}"
  by (auto simp: known_certificates_def vertex_iff sample_graph sample_certs ran_def split: if_splits)

lemma sample_ids: "ids_identify (insert sample_c2 (known_certificates sample_bft))"
proof -
  let ?A = "{sample_cert 1 1 [] [], sample_cert 1 2 [] [], sample_cert 1 3 [] [], sample_c2}"
  have "ids_identify ?A" by (simp add: ids_identify_def sample_c2_def sample_cert_def)
  moreover have "insert sample_c2 (known_certificates sample_bft) \<subseteq> ?A" using sample_known by blast
  ultimately show ?thesis unfolding ids_identify_def by blast
qed

lemma sample_ready: "order_ready sample_bft sample_c2"
proof -
  have ids: "ids_identify (known_certificates sample_bft)"
    using sample_ids by (simp add: ids_identify_def)
  have "(cert_round c \<le> 1 \<longrightarrow> cert_previous_ids c = []) \<and> cert_round c + 1 < 2 ^ 64"
    if "c \<in> known_certificates sample_bft" for c
    using that sample_known by (auto simp: sample_c2_def sample_cert_def sample_header_def)
  then show ?thesis
    using sample_bft_wf ids
    by (simp add: order_ready_def sample_certs get_certificate_def sample_c2_def sample_cert_def)
qed

section \<open>Properties\<close>

text \<open>C12: when \<open>is_linked\<close> answers, it answers whether the DAG has a path from the current
  certificate down to the previous one, each step going to a certificate of the round just
  below that is declared as a predecessor.\<close>

theorem is_linked_decides_path:
  assumes "dag_wf d" "cert_round previous \<le> cert_round current" "is_linked d previous current = Inr v"
  shows "v \<longleftrightarrow> (dag_step d)\<^sup>*\<^sup>* current previous"
  by (rule is_linked_iff_path [OF assms])

theorem is_linked_decides_path_witness:
  "(dag_step (bft_dag sample_bft))\<^sup>*\<^sup>* sample_c2 (sample_cert 1 2 [] [])"
proof -
  have "is_linked (bft_dag sample_bft) (sample_cert 1 2 [] []) sample_c2 = Inr True"
    by (simp add: is_linked_def dag_get_certificates_for_round_def sample_graph sample_c2_def
        sample_cert_def sample_header_def upt_rec [of "Suc 0" 2] upt_rec [of 2 2])
  from is_linked_decides_path [OF bft_wfD(1) [OF sample_bft_wf] _ this] show ?thesis
    by (simp add: sample_c2_def sample_cert_def sample_header_def)
qed

text \<open>C3: the sub-DAG that the depth-first search returns for a leader consists exactly of the
  certificates that the leader reaches over declared predecessors that are neither committed,
  nor in the ledger (when it may be consulted), nor behind the garbage collection window, and
  that are themselves inside the window; they are grouped by their round in increasing order.\<close>

theorem order_dag_returns_reachable:
  assumes "bft_wf b" "ids_identify (insert lc (known_certificates b))" "order_dag_with_dfs al b lc = Inr sd"
  shows "subdag_wf sd \<and> subdag_set sd = {c. (commit_edge al b)\<^sup>*\<^sup>* lc c \<and>
    dag_last_committed_round (bft_dag b) < u64_add (cert_round c) (st_max_gc_rounds (bft_storage b))}"
  by (rule order_dag_exact [OF assms])

theorem order_dag_returns_reachable_witness:
  "\<exists>sd. order_dag_with_dfs True sample_bft sample_c2 = Inr sd \<and> sample_c2 \<in> subdag_set sd \<and>
     sample_cert 1 1 [] [] \<in> subdag_set sd"
proof -
  obtain sd where sd: "order_dag_with_dfs True sample_bft sample_c2 = Inr sd"
    using order_dag_total [OF sample_ready] by blast
  have edge: "commit_edge True sample_bft sample_c2 (sample_cert 1 1 [] [])"
    unfolding commit_edge_def
    by (rule conjI, simp add: sample_graph sample_certs sample_c2_def sample_cert_def sample_header_def,
        rule bexI [of _ 11])
      (simp_all add: skip_previous_def is_recently_committed_def sample_graph find_previous_def
        dag_get_certificate_for_round_with_id_def ledger_contains_certificate_def unwrap_or_def
        sample_core_def core_ledger_new_def sample_ledger_def sample_c2_def sample_cert_def sample_header_def)
  show ?thesis
    using order_dag_returns_reachable [OF sample_bft_wf sample_ids sd] sd edge
    by (auto simp: sample_graph sample_certs sample_c2_def sample_cert_def sample_header_def)
qed

text \<open>C13: ordering always succeeds for a stored leader certificate: when storage is causally closed
  and not collected beyond what the DAG has committed, no predecessor is missing, and the
  search ends within the fuel of the model.\<close>

theorem order_dag_succeeds:
  assumes "order_ready b lc"
  shows "\<exists>sd. order_dag_with_dfs al b lc = Inr sd"
  by (rule order_dag_total [OF assms])

theorem order_dag_succeeds_witness: "\<exists>sd. order_dag_with_dfs False sample_bft sample_c2 = Inr sd"
  by (rule order_dag_succeeds [OF sample_ready])

text \<open>The transmissions handed to consensus for a sub-DAG are each declared by one of its
  certificates and not yet in the ledger, no two share a solution ID or a transaction ID, and
  every declared transmission that the ledger does not have is represented.\<close>

theorem subdag_transmissions_unique:
  assumes "collect_transmissions E L ts co_empty s = (Inr acc, s')"
  shows "imap_wf (co_transmissions acc) \<and>
    (\<forall>t \<in> fst ` set (co_transmissions acc). t \<in> set ts \<and> ledger_contains_transmission L t = Inr False) \<and>
    (\<forall>i ck ck'. SolutionID i ck \<in> fst ` set (co_transmissions acc) \<longrightarrow>
       SolutionID i ck' \<in> fst ` set (co_transmissions acc) \<longrightarrow> ck = ck') \<and>
    (\<forall>i ck ck'. TransactionID i ck \<in> fst ` set (co_transmissions acc) \<longrightarrow>
       TransactionID i ck' \<in> fst ` set (co_transmissions acc) \<longrightarrow> ck = ck') \<and>
    (\<forall>t \<in> set ts. ledger_contains_transmission L t = Inr False \<longrightarrow> already_seen t acc)"
proof -
  have "collected_ok L (set ts) co_empty" by (simp add: collected_ok_def co_empty_def)
  from collect_transmissions_ok [OF assms this subset_refl] show ?thesis
    unfolding collected_ok_def by blast
qed

theorem subdag_transmissions_unique_witness:
  "ledger_contains_transmission sample_core sample_t = Inr False \<and>
     already_seen sample_t \<lparr>co_transmissions = sample_given, co_seen_solution_ids = [], co_seen_transaction_ids = [5]\<rparr>"
proof -
  have "collect_transmissions sample_env sample_core [sample_t] co_empty sample_s2 =
      (Inr \<lparr>co_transmissions = sample_given, co_seen_solution_ids = [], co_seen_transaction_ids = [5]\<rparr>, sample_s2)"
    by (simp add: co_empty_def sample_t_def unwrap_or_def get_transmission_def mem_get_transmission_def
        sample_s2_def sample_env_def memory_vtable_def insert_certificate_atomic_def mem_insert_transmissions_def
        sample_s1_def sample_s1b_def sample_s1a_def sample_s0_def mem_new_def sample_given_def sample_c2_def
        sample_cert_def sample_header_def sample_core_def core_ledger_new_def sample_ledger_def iset_insert_def)
  from subdag_transmissions_unique [OF this] show ?thesis by (simp add: sample_given_def sample_t_def)
qed

text \<open>C4: the anchors that one commit collects start with the new leader certificate and form a
  chain in the DAG: each is linked by a path to every later one, at strictly decreasing
  rounds, all above the last committed round and in step with the leader's parity.\<close>

theorem committed_anchors_chain:
  assumes "dag_wf (bft_dag b)" "dag_last_committed_round (bft_dag b) + 2 < 2 ^ 64"
    and "dag_last_committed_round (bft_dag b) < cert_round lc"
    and "collect_leaders (step_by2 (rev [u64_add (dag_last_committed_round (bft_dag b)) 2..<Suc (cert_round lc - 2)]))
      lc [lc] b = (Inr leaders, b')"
  shows "anchor_chain (bft_dag b) leaders \<and> hd leaders = lc \<and>
    (\<forall>c \<in> set leaders. dag_last_committed_round (bft_dag b) < cert_round c \<and> even (cert_round lc - cert_round c))"
proof -
  let ?rs = "step_by2 (rev [u64_add (dag_last_committed_round (bft_dag b)) 2..<Suc (cert_round lc - 2)])"
  have rs: "dag_last_committed_round (bft_dag b) + 2 \<le> r \<and> r \<le> cert_round lc - 2 \<and> even (cert_round lc - 2 - r)"
    if "r \<in> set ?rs" for r
    using step_by2_rev_upt [OF that] assms(2) by simp
  have dec: "sorted_wrt (>) ?rs"
    by (intro sorted_wrt_step_by2) (simp add: sorted_wrt_rev del: upt_Suc)
  have below: "r < cert_round lc" if "r \<in> set ?rs" for r using rs [OF that] by linarith
  obtain ls where ls: "anchor_chain (bft_dag b) leaders" "leaders = [lc] @ ls" "\<forall>c \<in> set ls. cert_round c \<in> set ?rs"
    using collect_leaders_chain [OF assms(1) dec ballI [OF below] assms(4)] by (auto simp: anchor_chain_def)
  have "dag_last_committed_round (bft_dag b) < r \<and> even (cert_round lc - r)" if "r \<in> set ?rs" for r
  proof -
    have "cert_round lc - r = cert_round lc - 2 - r + 2" using rs [OF that] by linarith
    then show ?thesis using rs [OF that] by simp
  qed
  then have "\<forall>c \<in> set ls. dag_last_committed_round (bft_dag b) < cert_round c \<and> even (cert_round lc - cert_round c)"
    using ls(3) by blast
  then show ?thesis
    using ls(1,2) assms(3) by simp
qed

theorem committed_anchors_chain_witness: "anchor_chain (bft_dag sample_bft) [sample_c2]"
  by (rule committed_anchors_chain [THEN conjunct1, of sample_bft sample_c2 _ sample_bft])
    (use sample_bft_wf in \<open>simp_all add: bft_wf_def sample_graph sample_c2_def sample_cert_def sample_header_def\<close>)

text \<open>C7: the last committed round moves only when the certificates of the round above the leader's
  that declare the leader's certificate reach the availability threshold of their committee.\<close>

theorem commit_needs_availability:
  assumes "update_dag P al sy c b = (r, b')"
    and "dag_last_committed_round (bft_dag b') \<noteq> dag_last_committed_round (bft_dag b)"
  shows "\<exists>a b1 lc m com. elect_leader (cert_round c - 1) (b\<lparr>bft_dag := dag_insert c (bft_dag b)\<rparr>) = (a, b1) \<and>
    dag_get_certificate_for_round_with_author (dag_insert c (bft_dag b)) (cert_round c - 1) a = Some lc \<and>
    dag_get_certificates_for_round (dag_insert c (bft_dag b)) (cert_round c) = Some m \<and>
    get_committee_lookback_for_round (env_network (bp_env P)) (bft_ledger b1) (cert_round c) = Inr com \<and>
    com_availability_reached com
      (cert_author ` set (filter (\<lambda>x. cert_id lc \<in> set (cert_previous_ids x)) (map snd m)))"
  by (rule update_dag_committed [OF assms])

definition sample_params :: "memory_service bft_params" where
  "sample_params = \<lparr>bp_env = sample_env, bp_subdag_from = (\<lambda>_. True), bp_anchor_round = (\<lambda>sd. fst (last sd)),
     bp_consensus = (\<lambda>b _ _. (Advanced, bft_ledger b, bft_primary b, bft_inbound b))\<rparr>"

definition sample_bft3 :: "memory_service bft" where
  "sample_bft3 = (bft_new 1 sample_s0 sample_core (primary_new False None))\<lparr>bft_dag :=
     \<lparr>dag_graph = [(2, [(1, sample_cert 2 1 [] [])]), (3, [(1, sample_cert 3 1 [] [21])])],
      dag_recent_committed_ids = [], dag_last_committed_round = 0\<rparr>\<rparr>"

lemma sample_commit:
  "dag_last_committed_round (bft_dag (snd (update_dag sample_params True True (sample_cert 3 2 [] [21]) sample_bft3))) = 2"
  by (simp add: update_dag_def sample_bft3_def bft_new_def sample_params_def sample_env_def sample_core_def
    core_ledger_new_def get_committee_lookback_for_round_def get_committee_for_round_def sample_ledger_def
    elect_leader_def latest_leader_def update_latest_leader_def dag_insert_def is_recently_committed_def
    sample_cert_def sample_header_def btree_or_default_def dag_get_certificate_for_round_with_author_def
    dag_get_certificates_for_round_def sample_committee_def commit_leader_certificate_def
    order_dag_with_dfs_def order_fuel_def sample_s0_def commit_subdag_def subdag_certificates_def retain_def
    u64_add_def garbage_collect_certificates_def iset_insert_def)

theorem commit_needs_availability_witness:
  "\<exists>a b1 lc. elect_leader 2 (sample_bft3\<lparr>bft_dag := dag_insert (sample_cert 3 2 [] [21]) (bft_dag sample_bft3)\<rparr>) = (a, b1) \<and>
     dag_get_certificate_for_round_with_author (dag_insert (sample_cert 3 2 [] [21]) (bft_dag sample_bft3)) 2 a = Some lc"
proof -
  have neq: "dag_last_committed_round (bft_dag (snd (update_dag sample_params True True (sample_cert 3 2 [] [21])
      sample_bft3))) \<noteq> dag_last_committed_round (bft_dag sample_bft3)"
    unfolding sample_commit by (simp add: sample_bft3_def)
  have rnd: "cert_round (sample_cert 3 2 [] [21]) - 1 = 2" by (simp add: sample_cert_def sample_header_def)
  from commit_needs_availability [OF surjective_pairing neq, unfolded rnd] show ?thesis by blast
qed

text \<open>C14: the BFT reports a round as finished only when storage is at that round and the authors of
  its certificates reach the quorum of the committee of the round. Storage is then at the
  next round, or, if the current committee starts later than that, at least at the round of
  the latest block.\<close>

theorem round_advances_with_quorum:
  assumes "update_to_next_round N now r b = (True, b')" "r + 1 < 2 ^ 64"
  shows "r = st_current_round (bft_storage b) \<and>
    (\<exists>com. get_committee_lookback_for_round N (bft_ledger b) r = Inr com \<and>
       com_quorum_reached com (cert_author ` set (get_certificates_for_round (bft_storage b) r))) \<and>
    (\<exists>com. current_committee (bft_ledger b) = Inr com \<and>
       (if com_starting_round com \<le> r + 1 then st_current_round (bft_storage b') = r + 1
        else st_current_round (bft_storage b') = max r (max (latest_round (bft_ledger b)) 1)))"
  using assms(1)
proof (rule update_to_next_round_cases)
  fix b1 n s
  assume rdy: "if r mod 2 = 0 then update_leader_certificate_to_even_round N now r b = (True, b1)
       else is_leader_quorum_or_nonleaders_available N now r b \<and> b1 = b"
    and inc: "increment_to_next_round (bft_ledger b1) r (bft_storage b1) = (Inr n, s)"
    and s: "bft_storage b' = s"
  have same: "bft_storage b1 = bft_storage b" "cl_ledger (bft_ledger b1) = cl_ledger (bft_ledger b)"
    and q: "r = st_current_round (bft_storage b) \<and>
      (\<exists>com. get_committee_lookback_for_round N (bft_ledger b) r = Inr com \<and>
         com_quorum_reached com (cert_author ` set (get_certificates_for_round (bft_storage b) r)))"
    using rdy update_even_ready [of N now r b b1] odd_ready [of N now r b] by (auto split: if_splits)
  have led: "current_committee (bft_ledger b1) = current_committee (bft_ledger b)"
    "latest_round (bft_ledger b1) = latest_round (bft_ledger b)"
    using same(2) by (simp_all add: current_committee_def latest_round_def)
  obtain com where com: "current_committee (bft_ledger b) = Inr com"
    using inc assms(2) q led same(1)
    by (cases "current_committee (bft_ledger b)") (simp_all add: increment_to_next_round_def)
  have "if com_starting_round com \<le> r + 1 then st_current_round s = r + 1
      else st_current_round s = max r (max (latest_round (bft_ledger b)) 1)"
    using inc assms(2) q
    by (auto simp: increment_to_next_round_def com led same(1) update_current_round_def
        sync_round_with_block_def Let_def max_def split: if_splits)
  then show ?thesis unfolding s using q com by blast
qed

definition sample_bft1 :: "memory_service bft" where
  "sample_bft1 = bft_new 1 sample_s1 sample_core (primary_new False None)"

lemma sample_round_done:
  "fst (update_to_next_round sample_network 100 1 sample_bft1)"
  by (simp add: update_to_next_round_def sample_bft1_def bft_new_def sample_s1_def sample_s1b_def sample_s1a_def
      sample_s0_def insert_certificate_atomic_def imap_or_default_def iset_insert_def
      is_leader_quorum_or_nonleaders_available_def get_certificates_for_round_def iset_collect_def
      List.map_filter_def get_committee_lookback_for_round_def get_committee_for_round_def sample_core_def
      core_ledger_new_def sample_ledger_def sample_committee_def sample_cert_def sample_header_def
      increment_to_next_round_def current_committee_def update_current_round_def u64_add_def)

theorem round_advances_with_quorum_witness:
  "\<exists>com. get_committee_lookback_for_round sample_network (bft_ledger sample_bft1) 1 = Inr com \<and>
     com_quorum_reached com (cert_author ` set (get_certificates_for_round (bft_storage sample_bft1) 1))"
proof -
  obtain b' where "update_to_next_round sample_network 100 1 sample_bft1 = (True, b')"
    using sample_round_done by (metis (full_types) prod.collapse)
  from round_advances_with_quorum [OF this] show ?thesis by auto
qed

text \<open>The stake counted for and against the leader is the exact sum of the stakes of the
  certificate authors that do and do not declare it, capped at the largest \<open>u64\<close> value.\<close>

theorem leader_stake_sums:
  "compute_stake_for_leader_certificate i cs com =
     (min (stake_sum com (filter (\<lambda>c. i \<in> set (cert_previous_ids c)) cs)) (2 ^ 64 - 1),
      min (stake_sum com (filter (\<lambda>c. i \<notin> set (cert_previous_ids c)) cs)) (2 ^ 64 - 1))"
  using compute_stake_loop_sum [of 0 0 i com cs]
  by (cases cs) (simp_all add: compute_stake_for_leader_certificate_def)

end
