(* ===== verification/NodeRelation.thy ===== *)
theory NodeRelation
  imports PrimaryRun BftProps
begin

text \<open>
  A contract for relations between the states of a node. The locale \<open>node_relation\<close> asks that a reflexive
  and transitive relation allows each elementary update of the state (a storage step, a change of
  the DAG, which only receives stored certificates, of the leader, of the workers, the effect of the consensus handler, and so on); its
  lemmas show that then every operation of the BFT and of the primary stays inside the
  relation, whatever branch it takes. The interpretations give the properties that hold
  over the whole run of a node: the storage and DAG invariants, the lock of the proposals and
  the height of the ledger.
\<close>

locale node_relation =
  fixes P :: "'ts primary_params"
    and R :: "'ts bft \<Rightarrow> 'ts bft \<Rightarrow> bool"
  assumes R_refl: "R b b"
    and R_trans: "R b1 b2 \<Longrightarrow> R b2 b3 \<Longrightarrow> R b1 b3"
    and R_storage: "storage_step (pp_env P) (bft_storage b) s \<Longrightarrow> R b (b\<lparr>bft_storage := s\<rparr>)"
    and R_dag_insert: "get_certificate (bft_storage b) (cert_id c) = Some c \<Longrightarrow>
      R b (b\<lparr>bft_dag := dag_insert c (bft_dag b)\<rparr>)"
    and R_dag_commit: "R b (b\<lparr>bft_dag := dag_commit c g (bft_dag b)\<rparr>)"
    and R_leader: "R b (b\<lparr>bft_ledger := update_latest_leader (bft_ledger b) r a\<rparr>)"
    and R_leader_certificate: "R b (b\<lparr>bft_leader_certificate := lc\<rparr>)"
    and R_timer: "R b (b\<lparr>bft_leader_certificate_timer := now\<rparr>)"
    and R_consensus: "bp_consensus (pp_bft P) b sd ts = (reply, L, p, q) \<Longrightarrow>
      R b (b\<lparr>bft_ledger := L, bft_primary := p, bft_inbound := q\<rparr>)"
    and R_workers: "R b (set_workers ws b)"
    and R_inbound: "R b (b\<lparr>bft_inbound := q\<rparr>)"
    and R_proposed: "R b (b\<lparr>bft_primary := (bft_primary b)\<lparr>pm_proposed_batch := pb\<rparr>\<rparr>)"
    and R_lock: "pm_propose_lock (bft_primary b) < round \<Longrightarrow>
      R b (b\<lparr>bft_primary := (bft_primary b)\<lparr>pm_propose_lock := round\<rparr>\<rparr>)"
    and R_timestamp: "R b (b\<lparr>bft_primary := (bft_primary b)\<lparr>pm_latest_proposed_batch_timestamp := now\<rparr>\<rparr>)"
    and R_signed: "R b (b\<lparr>bft_primary := (bft_primary b)\<lparr>pm_signed_proposals := sp\<rparr>\<rparr>)"
begin

section \<open>Storage and rounds\<close>

lemma R_storage_steps:
  "(storage_step (pp_env P))\<^sup>*\<^sup>* (bft_storage b) s \<Longrightarrow> R b (b\<lparr>bft_storage := s\<rparr>)"
proof (induction rule: rtranclp_induct)
  case (step s s')
  have "R (b\<lparr>bft_storage := s\<rparr>) (b\<lparr>bft_storage := s, bft_storage := s'\<rparr>)"
    by (rule R_storage) (simp add: step.hyps)
  then show ?case using R_trans [OF step.IH] by simp
qed (simp add: R_refl)

lemma R_increment:
  assumes "increment_to_next_round L r (bft_storage b) = (x, s)"
  shows "R b (b\<lparr>bft_storage := s\<rparr>)"
  using R_storage [OF step_increment [of _ _ L r], of b] assms by simp

lemma R_insert:
  assumes "insert_certificate (pp_env P) L now (bft_storage b) c given [] = Inr s"
  shows "R b (b\<lparr>bft_storage := s\<rparr>)"
  by (rule R_storage, rule step_insert [OF assms]) simp

lemma R_insert_then:
  assumes "insert_certificate (pp_env P) L now (bft_storage b) c given [] = Inr s"
    and "get_certificate s (cert_id c) = Some c \<Longrightarrow> R (b\<lparr>bft_storage := s\<rparr>) b'"
  shows "R b b'"
  by (rule R_trans [OF R_insert [OF assms(1)] assms(2) [OF insert_certificate_stored [OF assms(1)]]])

lemma R_elect_leader: "elect_leader r b = (a, b') \<Longrightarrow> R b b'"
  using R_leader [of b r "bft_address b"] R_refl [of b]
  by (auto simp: elect_leader_def split: option.splits if_splits)

lemma R_even_round:
  assumes "update_leader_certificate_to_even_round N now r b = (x, b')"
  shows "R b b'"
proof -
  obtain a b1 where e: "elect_leader (st_current_round (bft_storage b)) b = (a, b1)" by fastforce
  show ?thesis
    using assms e R_trans [OF R_elect_leader [OF e] R_leader_certificate] R_refl R_leader_certificate
    by (auto simp: update_leader_certificate_to_even_round_def Let_def split: if_splits sum.splits prod.splits)
qed

lemma R_update_to_next_round:
  assumes "update_to_next_round N now r b = (x, b')"
  shows "R b b'"
proof -
  obtain ready b1 where e: "(if r mod 2 = 0 then update_leader_certificate_to_even_round N now r b
      else (is_leader_quorum_or_nonleaders_available N now r b, b)) = (ready, b1)" by fastforce
  have r1: "R b b1" using e R_even_round R_refl by (auto split: if_splits)
  obtain y s where i: "increment_to_next_round (bft_ledger b1) r (bft_storage b1) = (y, s)" by fastforce
  have r2: "R b (b1\<lparr>bft_storage := s\<rparr>)" by (rule R_trans [OF r1 R_increment [OF i]])
  show ?thesis
    using assms r1 r2 R_trans [OF r2 R_timer [of _ now]] i R_refl
    by (auto simp: update_to_next_round_def e Let_def split: if_splits sum.splits)
qed

section \<open>Committing\<close>

lemma R_collect_leaders: "collect_leaders rounds cur ls b = (x, b') \<Longrightarrow> R b b'"
proof (induction rounds arbitrary: cur ls b)
  case (Cons round rounds)
  obtain a b1 where e: "elect_leader round b = (a, b1)" by fastforce
  note r1 = R_elect_leader [OF e]
  show ?case
    using Cons.prems Cons.IH R_trans [OF r1] r1
    by (auto simp: e Let_def split: option.splits sum.splits bool.splits)
qed (simp add: R_refl)

lemma collect_transmissions_steps:
  "collect_transmissions E L ts acc s = (x, s') \<Longrightarrow> (storage_step E)\<^sup>*\<^sup>* s s'"
proof (induction ts arbitrary: acc s)
  case (Cons t ts)
  obtain y s1 where g: "get_transmission E s t = (y, s1)" by fastforce
  have st: "storage_step E s s1" using step_read [of E s t] g by simp
  show ?case
    using Cons.prems Cons.IH g converse_rtranclp_into_rtranclp [of "storage_step E", OF st] r_into_rtranclp [of "storage_step E", OF st]
    by (auto split: if_splits option.splits)
qed auto

lemma R_trigger_consensus:
  assumes "trigger_consensus (pp_bft P) lr sd b = (x, b')"
  shows "R b b'"
proof -
  obtain y s where c: "collect_transmissions (pp_env P) (bft_ledger b)
      (concat (map cert_transmission_ids (subdag_certificates sd))) co_empty (bft_storage b) = (y, s)" by fastforce
  have r1: "R b (b\<lparr>bft_storage := s\<rparr>)" by (rule R_storage_steps [OF collect_transmissions_steps [OF c]])
  note r2 = R_trans [OF r1 R_consensus]
  show ?thesis
    using assms r1 r2 by (auto simp: trigger_consensus_def c Let_def split: sum.splits if_splits prod.splits)
qed

lemma R_commit_fold: "R b (b\<lparr>bft_dag := fold (\<lambda>c d. dag_commit c g d) cs (bft_dag b)\<rparr>)"
proof (induction cs arbitrary: b)
  case (Cons c cs)
  show ?case using R_trans [OF R_dag_commit [of b c g] Cons [of "b\<lparr>bft_dag := dag_commit c g (bft_dag b)\<rparr>"]] by simp
qed (simp add: R_refl)

lemma R_commit_leaders: "commit_leaders (pp_bft P) al sy lcs b = (x, b') \<Longrightarrow> R b b'"
proof (induction lcs arbitrary: b)
  case (Cons lc lcs)
  show ?case
  proof (cases "order_dag_with_dfs al b lc")
    case (Inr sd)
    obtain y b1 where t: "(if sy then (Inr True, b) else trigger_consensus (pp_bft P) (cert_round lc) sd b) = (y, b1)"
      by fastforce
    have r1: "R b b1" using t R_trigger_consensus R_refl by (auto split: if_splits)
    have r2: "R b (commit_subdag sd b1)" unfolding commit_subdag_def by (rule R_trans [OF r1 R_commit_fold])
    show ?thesis
      using Cons.prems Inr r1 R_trans [OF r2 Cons.IH] by (auto simp: t split: sum.splits bool.splits)
  qed (use Cons.prems R_refl in auto)
qed (simp add: R_refl)

lemma R_commit_leader_certificate:
  assumes "commit_leader_certificate (pp_bft P) al sy lc b = (x, b')"
  shows "R b b'"
proof -
  obtain y b1 where c: "collect_leaders
      (step_by2 (rev [u64_add (dag_last_committed_round (bft_dag b)) 2..<Suc (cert_round lc - 2)])) lc [lc] b = (y, b1)"
    by fastforce
  have r1: "R b b1" by (rule R_collect_leaders [OF c])
  show ?thesis
  proof (cases y)
    case (Inr ls)
    obtain z b2 where l: "commit_leaders (pp_bft P) al sy (rev ls) b1 = (z, b2)" by fastforce
    have r2: "R b b2" by (rule R_trans [OF r1 R_commit_leaders [OF l]])
    show ?thesis
      using assms r2 R_trans [OF r2 R_storage [OF step_gc]]
      by (auto simp: commit_leader_certificate_def c Inr l Let_def simp del: upt_Suc split: sum.splits bool.splits)
  qed (use assms r1 in \<open>auto simp: commit_leader_certificate_def c Let_def simp del: upt_Suc\<close>)
qed

lemma R_update_dag:
  assumes "update_dag (pp_bft P) al sy c b = (x, b')" "get_certificate (bft_storage b) (cert_id c) = Some c"
  shows "R b b'"
proof -
  let ?b = "b\<lparr>bft_dag := dag_insert c (bft_dag b)\<rparr>"
  obtain a b1 where e: "elect_leader (cert_round c - 1) ?b = (a, b1)" by fastforce
  have r0: "R b ?b" by (rule R_dag_insert [OF assms(2)])
  have r1: "R b b1" by (rule R_trans [OF r0 R_elect_leader [OF e]])
  show ?thesis
    using assms(1) r0 r1 R_trans [OF r1 R_commit_leader_certificate]
    by (auto simp: update_dag_def e Let_def simp del: One_nat_def split: if_splits sum.splits option.splits)
qed

section \<open>The primary\<close>

lemma R_send_round: "send_primary_round_to_bft P now r b = (x, b') \<Longrightarrow> R b b'"
  using R_update_to_next_round R_refl
  by (auto simp: send_primary_round_to_bft_def split: link.splits prod.splits)

lemma R_send_certificate:
  "send_certificate P c b = (x, b') \<Longrightarrow> get_certificate (bft_storage b) (cert_id c) = Some c \<Longrightarrow> R b b'"
  using R_update_dag R_refl
  by (auto simp: send_certificate_def send_primary_certificate_to_bft_def split: link.splits prod.splits if_splits)

lemma R_fast_forward: "fast_forward fuel target r b = (x, b') \<Longrightarrow> R b b'"
proof (induction fuel arbitrary: r b)
  case (Suc fuel)
  obtain y s where i: "increment_to_next_round (bft_ledger b) r (bft_storage b) = (y, s)" by fastforce
  note r1 = R_increment [OF i]
  have r2: "R b (b\<lparr>bft_storage := s, bft_primary := (bft_primary b)\<lparr>pm_proposed_batch := None\<rparr>\<rparr>)"
    using R_trans [OF r1 R_proposed [of "b\<lparr>bft_storage := s\<rparr>" None]] by simp
  show ?case
    using Suc.prems r1 R_trans [OF r2 Suc.IH] R_refl by (auto simp: i split: if_splits sum.splits)
qed (auto simp: R_refl split: if_splits)

lemma R_advance_round:
  assumes "advance_round P now nr b = (x, b')"
  shows "R b b'"
proof -
  obtain y b1 where f: "(if u64_add (st_current_round (bft_storage b)) (st_max_gc_rounds (bft_storage b)) \<ge> nr
      then fast_forward (fast_forward_fuel nr) (nr - 1) (st_current_round (bft_storage b)) b else (Inr (), b)) = (y, b1)"
    by fastforce
  have r1: "R b b1" using f R_fast_forward R_refl by (auto split: if_splits)
  obtain z s where i: "increment_to_next_round (bft_ledger b1) (st_current_round (bft_storage b1)) (bft_storage b1) = (z, s)"
    by fastforce
  have r2: "R b (b1\<lparr>bft_storage := s\<rparr>)" by (rule R_trans [OF r1 R_increment [OF i]])
  show ?thesis
    using assms r1 r2 R_trans [OF r1 R_send_round]
    by (auto simp: advance_round_def f i Let_def split: sum.splits if_splits)
qed

lemma R_try_increment_lite: "try_increment_to_the_next_round_lite P now nr b = (x, b') \<Longrightarrow> R b b'"
  using R_advance_round by (auto simp: try_increment_to_the_next_round_lite_def split: prod.splits sum.splits)

lemma R_store_and_broadcast:
  assumes "store_and_broadcast_certificate_lite P now p com b = (x, b')"
  shows "R b b'"
proof -
  have send: "R b b'" if "insert_certificate (pp_env P) L now (bft_storage b) c ts [] = Inr s"
    "send_certificate P c (b\<lparr>bft_storage := s\<rparr>) = (x, b')" for L c ts s x b'
    by (rule R_insert_then [OF that(1)]) (rule R_send_certificate [OF that(2)], simp)
  show ?thesis
    using assms R_refl send R_trans [OF send R_try_increment_lite]
    by (auto simp: store_and_broadcast_certificate_lite_def split: sum.splits prod.splits)
qed

lemma R_reinsert: "reinsert_transmissions_into_workers P ts b = (x, b') \<Longrightarrow> R b b'"
  using R_workers by (auto simp: reinsert_transmissions_into_workers_def Let_def split: prod.splits)

lemma R_complete_batch:
  assumes "complete_batch_lite P now others h p com b = (x, b')"
  shows "R b b'"
  using assms R_refl R_store_and_broadcast R_trans [OF R_store_and_broadcast R_reinsert]
  by (auto simp: complete_batch_lite_def split: sum.splits prod.splits)

lemma R_propose_transmissions:
  assumes "propose_transmissions P now others cm round com prev ts b = (x, b')"
    and "pm_propose_lock (bft_primary b) < round"
  shows "R b b'"
proof -
  let ?b1 = "b\<lparr>bft_primary := (bft_primary b)\<lparr>pm_propose_lock := round\<rparr>\<rparr>"
  have r1: "R b ?b1" by (rule R_lock [OF assms(2)])
  show ?thesis
  proof (cases "new_proposal P (bft_address b) round now com ts prev")
    case (Inl e)
    obtain y b2 where "reinsert_transmissions_into_workers P ts ?b1 = (y, b2)" by fastforce
    then show ?thesis
      using assms(1) Inl R_trans [OF r1 R_reinsert] by (auto simp: propose_transmissions_def Let_def)
  next
    case (Inr hp)
    obtain h p where hp: "hp = (h, p)" by (cases hp)
    let ?b2 = "?b1\<lparr>bft_primary := (bft_primary ?b1)\<lparr>pm_latest_proposed_batch_timestamp := pr_timestamp p\<rparr>\<rparr>"
    have r2: "R b ?b2" by (rule R_trans [OF r1 R_timestamp])
    show ?thesis
      using assms(1) Inr hp r2 R_trans [OF r2 R_complete_batch]
      by (auto simp: propose_transmissions_def Let_def split: if_splits sum.splits prod.splits)
  qed
qed

lemma R_propose_batch_lite:
  assumes "propose_batch_lite P now others cm b = (x, b')"
  shows "R b b'"
proof -
  have lock: "pm_propose_lock (bft_primary (set_workers ws b)) = pm_propose_lock (bft_primary b)" for ws
    by (simp add: set_workers_def)
  show ?thesis
    using assms R_refl R_send_round R_workers R_trans [OF R_workers R_propose_transmissions] lock
    by (auto simp: propose_batch_lite_def Let_def not_less split: if_splits sum.splits prod.splits bool.splits)
qed

lemma R_fake_proposal:
  assumes "fake_proposal P now author others round b = (x, b')"
  shows "R b b'"
proof -
  have send: "R b b'" if "insert_certificate (pp_env P) (bft_ledger b) now (bft_storage b) c ts [] = Inr s"
    "send_certificate P c (b\<lparr>bft_storage := s, bft_primary := (bft_primary b)\<lparr>pm_signed_proposals := sp\<rparr>\<rparr>) = (x, b')"
    for c ts s sp x b'
  proof (rule R_insert_then [OF that(1)])
    assume st: "get_certificate s (cert_id c) = Some c"
    show "R (b\<lparr>bft_storage := s\<rparr>) b'"
      using R_trans [OF R_signed [of "b\<lparr>bft_storage := s\<rparr>" sp]] R_send_certificate [OF that(2)] st by simp
  qed
  show ?thesis
    using assms R_refl R_insert send
    by (auto simp: fake_proposal_def Let_def split: sum.splits option.splits prod.splits)
qed

lemma R_fake_proposals: "fake_proposals P now accs round vids b = (x, b') \<Longrightarrow> R b b'"
proof (induction vids arbitrary: b)
  case (Cons vid vids)
  then show ?case
    using R_fake_proposal R_trans [OF R_fake_proposal] by (auto split: prod.splits sum.splits)
qed (simp add: R_refl)

lemma R_propose_batch: "propose_batch P now cm b = (x, b') \<Longrightarrow> R b b'"
  using R_refl R_propose_batch_lite R_trans [OF R_propose_batch_lite R_fake_proposals]
  by (auto simp: propose_batch_def split: sum.splits prod.splits if_splits)

lemma R_try_increment: "try_increment_to_the_next_round P now nr b = (x, b') \<Longrightarrow> R b b'"
  using R_advance_round R_trans [OF R_advance_round R_propose_batch]
  by (auto simp: try_increment_to_the_next_round_def split: prod.splits sum.splits if_splits)

end

end
