(* ===== verification/Consensus.thy ===== *)
theory Consensus
  imports PrimaryRun
begin

text \<open>
  Consensus (\<open>node/consensus/src/lib.rs\<close>): the inbound queues of solutions and transactions,
  the transfer from the queues to the workers, and the handler of a committed sub-DAG,
  which makes the next block. The handler is what the BFT calls through the consensus
  channel, so \<open>node_params\<close> closes the loop: primary, BFT and consensus run on one state.
  The block that snarkVM prepares from a sub-DAG, the acceptance of a block and the byte
  formats are parameters. The messages to the primary are handled at once, as its handlers do
  while the node runs.
\<close>

section \<open>Parameters\<close>

definition CAPACITY_FOR_DEPLOYMENTS :: nat where
  "CAPACITY_FOR_DEPLOYMENTS = 1024"

definition CAPACITY_FOR_EXECUTIONS :: nat where
  "CAPACITY_FOR_EXECUTIONS = 1024"

definition CAPACITY_FOR_SOLUTIONS :: nat where
  "CAPACITY_FOR_SOLUTIONS = 1024"

definition CAPACITY_FOR_SEEN :: nat where
  "CAPACITY_FOR_SEEN = 65536"

definition MAX_DEPLOYMENTS_PER_INTERVAL :: nat where
  "MAX_DEPLOYMENTS_PER_INTERVAL = 1"

record 'ts consensus_params =
  cn_primary :: "'ts primary_params"
  cn_solution_bytes :: "solution \<Rightarrow> bytes option"
  cn_transaction_bytes :: "transaction \<Rightarrow> bytes option"
  cn_prepare :: "snark_ledger \<Rightarrow> subdag \<Rightarrow> transmissions \<Rightarrow> block option"
  cn_advance :: "snark_ledger \<Rightarrow> block \<Rightarrow> snark_ledger option"

abbreviation cn_network :: "'ts consensus_params \<Rightarrow> network" where
  "cn_network C \<equiv> pp_network (cn_primary C)"

abbreviation cn_crypto :: "'ts consensus_params \<Rightarrow> crypto" where
  "cn_crypto C \<equiv> pp_crypto (cn_primary C)"

datatype consensus_error =
    BytesFailed
  | ExistsInLedger
  | ExistsInMemoryPool
  | FeeRejected
  | ConsensusLedgerError ledger_error
  | PairMismatch
  | CallbackDropped
  | PrimaryRejected worker_error

section \<open>Observers\<close>

definition inbound_solutions :: "'ts bft \<Rightarrow> (solution_id \<times> solution data) list" where
  "inbound_solutions b = map (\<lambda>(i, x). (i, Object x)) (in_solutions_queue (bft_inbound b))"

definition inbound_transactions :: "'ts bft \<Rightarrow> (transaction_id \<times> transaction data) list" where
  "inbound_transactions b =
     map (\<lambda>(i, x). (i, Object x)) (in_deployments (bft_inbound b) @ in_executions (bft_inbound b))"

definition inbound_transmissions :: "crypto \<Rightarrow> 'ts bft \<Rightarrow> (transmission_id \<times> transmission) list" where
  "inbound_transmissions K b =
     map (\<lambda>(i, d). (TransactionID i (case cr_transaction_checksum K d of None \<Rightarrow> 0 | Some ck \<Rightarrow> ck), Transaction d))
       (inbound_transactions b) @
     map (\<lambda>(i, d). (SolutionID i (case cr_solution_checksum K d of None \<Rightarrow> 0 | Some ck \<Rightarrow> ck), Solution d))
       (inbound_solutions b)"

definition inbound_transmission_ids :: "crypto \<Rightarrow> 'ts bft \<Rightarrow> transmission_id list" where
  "inbound_transmission_ids K b = map fst (inbound_transmissions K b)"

definition unconfirmed_transmission_ids :: "crypto \<Rightarrow> 'ts bft \<Rightarrow> transmission_id list" where
  "unconfirmed_transmission_ids K b = worker_transmission_ids b @ inbound_transmission_ids K b"

definition unconfirmed_transmissions :: "crypto \<Rightarrow> 'ts bft \<Rightarrow> (transmission_id \<times> transmission) list" where
  "unconfirmed_transmissions K b = worker_transmissions b @ inbound_transmissions K b"

definition unconfirmed_solutions :: "'ts bft \<Rightarrow> (solution_id \<times> solution data) list" where
  "unconfirmed_solutions b = worker_solutions b @ inbound_solutions b"

definition unconfirmed_transactions :: "'ts bft \<Rightarrow> (transaction_id \<times> transaction data) list" where
  "unconfirmed_transactions b = worker_transactions b @ inbound_transactions b"

section \<open>From the queues to the workers\<close>

text \<open>\<open>pop_lru\<close> repeated, oldest first.\<close>

fun pop_values :: "nat \<Rightarrow> ('k, 'v) imap \<Rightarrow> 'v list \<times> ('k, 'v) imap" where
  "pop_values 0 c = ([], c)"
| "pop_values (Suc n) c =
     (case lru_pop c of
        (None, c') \<Rightarrow> pop_values n c'
      | (Some (_, v), c') \<Rightarrow> (let (vs, c'') = pop_values n c' in (v # vs, c'')))"

definition send_unconfirmed_solution :: "'ts primary_params \<Rightarrow> 'ts bft \<Rightarrow> solution \<Rightarrow> 'ts bft" where
  "send_unconfirmed_solution P b x = snd (process_unconfirmed_solution P (sol_id x) (Object x) b)"

definition send_unconfirmed_transaction :: "'ts primary_params \<Rightarrow> 'ts bft \<Rightarrow> transaction \<Rightarrow> 'ts bft" where
  "send_unconfirmed_transaction P b x = snd (process_unconfirmed_transaction P (tx_id x) (Object x) b)"

text \<open>A transmission that the primary refuses is logged and dropped.\<close>

definition process_unconfirmed_solutions :: "'ts consensus_params \<Rightarrow> 'ts bft \<Rightarrow> 'ts bft" where
  "process_unconfirmed_solutions C b =
     (let N = cn_network C; num_solutions = num_unconfirmed_solutions b in
      if num_solutions \<ge> net_max_solutions N \<or>
         num_unconfirmed_transmissions b \<ge> MAX_TRANSMISSIONS_TOLERANCE N then b
      else let capacity = net_max_solutions N - num_solutions;
               queue = in_solutions_queue (bft_inbound b);
               (xs, queue') = pop_values (min (length queue) capacity) queue
           in foldl (send_unconfirmed_solution (cn_primary C))
                (b\<lparr>bft_inbound := (bft_inbound b)\<lparr>in_solutions_queue := queue'\<rparr>\<rparr>) xs)"

fun interleave :: "'a list \<Rightarrow> 'a list \<Rightarrow> 'a list" where
  "interleave [] ys = ys"
| "interleave (x # xs) [] = x # xs"
| "interleave (x # xs) (y # ys) = x # y # interleave xs ys"

fun select_transactions ::
  "bool list \<Rightarrow> (transaction_id, transaction) imap \<Rightarrow> (transaction_id, transaction) imap \<Rightarrow>
   transaction list \<times> (transaction_id, transaction) imap \<times> (transaction_id, transaction) imap" where
  "select_transactions [] ds es = ([], ds, es)"
| "select_transactions (select_deployment # sel) ds es =
     (if select_deployment
      then (let (x, ds') = lru_pop ds; (xs, ds'', es'') = select_transactions sel ds' es
            in (case x of None \<Rightarrow> xs | Some (_, tx) \<Rightarrow> tx # xs, ds'', es''))
      else (let (x, es') = lru_pop es; (xs, ds'', es'') = select_transactions sel ds es'
            in (case x of None \<Rightarrow> xs | Some (_, tx) \<Rightarrow> tx # xs, ds'', es'')))"

definition process_unconfirmed_transactions :: "'ts consensus_params \<Rightarrow> 'ts bft \<Rightarrow> 'ts bft" where
  "process_unconfirmed_transactions C b =
     (let N = cn_network C; num_transmissions = num_unconfirmed_transmissions b in
      if num_transmissions \<ge> MAX_TRANSMISSIONS_TOLERANCE N then b
      else let capacity = MAX_TRANSMISSIONS_TOLERANCE N - num_transmissions;
               q = bft_inbound b;
               num_deployments = min (min (length (in_deployments q)) capacity) MAX_DEPLOYMENTS_PER_INTERVAL;
               num_executions = min (length (in_executions q)) (capacity - num_deployments);
               (xs, ds, es) = select_transactions
                 (interleave (replicate num_deployments True) (replicate num_executions False))
                 (in_deployments q) (in_executions q)
           in foldl (send_unconfirmed_transaction (cn_primary C))
                (b\<lparr>bft_inbound := q\<lparr>in_deployments := ds, in_executions := es\<rparr>\<rparr>) xs)"

section \<open>Into the queues\<close>

definition add_unconfirmed_solution ::
  "'ts consensus_params \<Rightarrow> solution \<Rightarrow> 'ts bft \<Rightarrow> (consensus_error, unit) result \<times> 'ts bft" where
  "add_unconfirmed_solution C x b =
     (case Option.bind (cn_solution_bytes C x) (\<lambda>bs. cr_solution_checksum (cn_crypto C) (Buffer bs)) of
        None \<Rightarrow> (Inl BytesFailed, b)
      | Some ck \<Rightarrow>
          (let q = bft_inbound b; i = sol_id x;
               b1 = b\<lparr>bft_inbound := q\<lparr>in_seen_solutions := lru_put CAPACITY_FOR_SEEN i () (in_seen_solutions q)\<rparr>\<rparr>
           in if imap_contains_key i (in_seen_solutions q) then (Inr (), b1)
              else case ledger_contains_transmission (bft_ledger b1) (SolutionID i ck) of
                Inl e \<Rightarrow> (Inl (ConsensusLedgerError e), b1)
              | Inr True \<Rightarrow> (Inl ExistsInLedger, b1)
              | Inr False \<Rightarrow>
                  (let q1 = bft_inbound b1;
                       b2 = b1\<lparr>bft_inbound := q1\<lparr>in_solutions_queue :=
                         lru_put CAPACITY_FOR_SOLUTIONS i x (in_solutions_queue q1)\<rparr>\<rparr>
                   in if imap_contains_key i (in_solutions_queue q1) then (Inl ExistsInMemoryPool, b2)
                      else (Inr (), process_unconfirmed_solutions C b2))))"

definition add_unconfirmed_transaction ::
  "'ts consensus_params \<Rightarrow> transaction \<Rightarrow> 'ts bft \<Rightarrow> (consensus_error, unit) result \<times> 'ts bft" where
  "add_unconfirmed_transaction C x b =
     (case Option.bind (cn_transaction_bytes C x) (\<lambda>bs. cr_transaction_checksum (cn_crypto C) (Buffer bs)) of
        None \<Rightarrow> (Inl BytesFailed, b)
      | Some ck \<Rightarrow>
          if tx_is_fee x then (Inl FeeRejected, b)
          else (let q = bft_inbound b; i = tx_id x;
               b1 = b\<lparr>bft_inbound := q\<lparr>in_seen_transactions := lru_put CAPACITY_FOR_SEEN i () (in_seen_transactions q)\<rparr>\<rparr>
           in if imap_contains_key i (in_seen_transactions q) then (Inr (), b1)
              else case ledger_contains_transmission (bft_ledger b1) (TransactionID i ck) of
                Inl e \<Rightarrow> (Inl (ConsensusLedgerError e), b1)
              | Inr True \<Rightarrow> (Inl ExistsInLedger, b1)
              | Inr False \<Rightarrow>
                  (let q1 = bft_inbound b1 in
                   if tx_is_deploy x
                   then (let b2 = b1\<lparr>bft_inbound := q1\<lparr>in_deployments :=
                            lru_put CAPACITY_FOR_DEPLOYMENTS i x (in_deployments q1)\<rparr>\<rparr>
                         in if imap_contains_key i (in_deployments q1) then (Inl ExistsInMemoryPool, b2)
                            else (Inr (), process_unconfirmed_transactions C b2))
                   else (let b2 = b1\<lparr>bft_inbound := q1\<lparr>in_executions :=
                            lru_put CAPACITY_FOR_EXECUTIONS i x (in_executions q1)\<rparr>\<rparr>
                         in if imap_contains_key i (in_executions q1) then (Inl ExistsInMemoryPool, b2)
                            else (Inr (), process_unconfirmed_transactions C b2)))))"

section \<open>Committed sub-DAGs\<close>

definition try_advance_to_next_block ::
  "'ts consensus_params \<Rightarrow> subdag \<Rightarrow> transmissions \<Rightarrow> 'ts bft \<Rightarrow> (consensus_error, unit) result \<times> 'ts bft" where
  "try_advance_to_next_block C sd ts b =
     (case cn_prepare C (cl_ledger (bft_ledger b)) sd ts of
        None \<Rightarrow> (Inl (ConsensusLedgerError LedgerFailure), b)
      | Some blk \<Rightarrow>
          (case advance_to_next_block (cn_advance C) (bft_ledger b) blk of
             Inl e \<Rightarrow> (Inl (ConsensusLedgerError e), b)
           | Inr L \<Rightarrow>
               (let b1 = b\<lparr>bft_ledger := L\<rparr> in
                if blk_height blk mod net_blocks_per_epoch (cn_network C) = 0
                then (Inr (), b1\<lparr>bft_inbound := (bft_inbound b1)\<lparr>in_solutions_queue := []\<rparr>,
                                  bft_primary := clear_worker_solutions (bft_primary b1)\<rparr>)
                else (Inr (), b1))))"

text \<open>What the callback of the primary says.\<close>

definition callback_result :: "(worker_error, unit) result option \<Rightarrow> (consensus_error, unit) result" where
  "callback_result r = (case r of None \<Rightarrow> Inl CallbackDropped | Some x \<Rightarrow> map_err PrimaryRejected x)"

fun reinsert_transmission ::
  "'ts primary_params \<Rightarrow> transmission_id \<Rightarrow> transmission \<Rightarrow> 'ts bft \<Rightarrow> (consensus_error, unit) result \<times> 'ts bft" where
  "reinsert_transmission P RatificationID Ratification b = (Inr (), b)"
| "reinsert_transmission P (SolutionID i _) (Solution d) b =
     (let (r, b') = process_unconfirmed_solution P i d b in (callback_result r, b'))"
| "reinsert_transmission P (TransactionID i _) (Transaction d) b =
     (let (r, b') = process_unconfirmed_transaction P i d b in (callback_result r, b'))"
| "reinsert_transmission P _ _ b = (Inl PairMismatch, b)"

definition reinsert_transmissions :: "'ts primary_params \<Rightarrow> transmissions \<Rightarrow> 'ts bft \<Rightarrow> 'ts bft" where
  "reinsert_transmissions P ts b = foldl (\<lambda>b (t, x). snd (reinsert_transmission P t x b)) b ts"

definition process_bft_subdag ::
  "'ts consensus_params \<Rightarrow> 'ts bft \<Rightarrow> subdag \<Rightarrow> transmissions \<Rightarrow> consensus_reply \<times> core_ledger \<times> primary \<times> inbound" where
  "process_bft_subdag C b sd ts =
     (case try_advance_to_next_block C sd ts b of
        (Inr _, b1) \<Rightarrow> (Advanced, bft_ledger b1, bft_primary b1, bft_inbound b1)
      | (Inl _, b1) \<Rightarrow>
          (let b2 = reinsert_transmissions (cn_primary C) ts b1
           in (Rejected, bft_ledger b2, bft_primary b2, bft_inbound b2)))"

text \<open>The parameters of a running node: the consensus channel leads to \<open>process_bft_subdag\<close>.\<close>

definition node_params :: "'ts consensus_params \<Rightarrow> 'ts primary_params" where
  "node_params C =
     (cn_primary C)\<lparr>pp_bft := (pp_bft (cn_primary C))\<lparr>bp_consensus := process_bft_subdag C\<rparr>\<rparr>"

section \<open>Life cycle\<close>

definition consensus_new ::
  "'ts env \<Rightarrow> core_ledger \<Rightarrow> address \<Rightarrow> 'ts \<Rightarrow> nat \<Rightarrow> bool \<Rightarrow> bytes option \<Rightarrow> 'ts bft option" where
  "consensus_new E L a ts max_gc_rounds keep_state file =
     map_option (\<lambda>s. bft_new a s L (primary_new keep_state file)) (storage_new E L ts max_gc_rounds)"

definition consensus_shut_down :: "'ts consensus_params \<Rightarrow> 'ts bft \<Rightarrow> 'ts bft" where
  "consensus_shut_down C b = bft_shut_down (node_params C) b"

definition consensus_run ::
  "'ts consensus_params \<Rightarrow> int \<Rightarrow> bool \<Rightarrow> 'ts bft \<Rightarrow> (primary_error, unit) result \<times> 'ts bft" where
  "consensus_run C now free b =
     (case bft_run (node_params C) now free True b of
        (Inl e, b1) \<Rightarrow> (Inl e, consensus_shut_down C b1)
      | (Inr _, b1) \<Rightarrow> (Inr (), b1))"

text \<open>One iteration of the loop that empties the queues.\<close>

definition mempool_tick :: "'ts consensus_params \<Rightarrow> 'ts bft \<Rightarrow> 'ts bft" where
  "mempool_tick C b = process_unconfirmed_solutions C (process_unconfirmed_transactions C b)"

end
