(* ===== verification/PrimaryProps.thy ===== *)
theory PrimaryProps
  imports PrimaryRun StorageProps
begin

text \<open>
  Properties of the primary on its own: what a batch may contain, the transmission that is lost
  when a batch is full, the reinsertion of transmissions and the fast-forward loop.
\<close>

section \<open>The contents of a batch\<close>

text \<open>What a transmission must satisfy to be proposed, and what it costs.\<close>

fun proposable :: "'ts env \<Rightarrow> core_ledger \<Rightarrow> transmission_id \<Rightarrow> transmission \<Rightarrow> bool" where
  "proposable E L (SolutionID i ck) (Solution d) \<longleftrightarrow>
     cr_solution_checksum (env_crypto E) d = Some ck \<and> check_solution_basic (env_crypto E) L i d = Inr ()"
| "proposable E L (TransactionID i ck) (Transaction d) \<longleftrightarrow>
     cr_transaction_checksum (env_crypto E) d = Some ck \<and>
     (\<exists>tx. read_transaction (env_crypto E) d = Some tx \<and> check_transaction_basic L i tx = Inr () \<and>
        is_ok (transaction_spent_cost L i tx))"
| "proposable E L _ _ \<longleftrightarrow> False"

fun transmission_cost :: "'ts env \<Rightarrow> core_ledger \<Rightarrow> transmission_id \<times> transmission \<Rightarrow> nat" where
  "transmission_cost E L (TransactionID i _, Transaction d) =
     (case read_transaction (env_crypto E) d of
        None \<Rightarrow> 0
      | Some tx \<Rightarrow> unwrap_or 0 (transaction_spent_cost L i tx))"
| "transmission_cost E L _ = 0"

definition batch_cost :: "'ts env \<Rightarrow> core_ledger \<Rightarrow> transmissions \<Rightarrow> nat" where
  "batch_cost E L ts = sum_list (map (transmission_cost E L) ts)"

lemma proposal_verdict_take:
  "proposal_verdict E L cost t x = Take c \<Longrightarrow> cost \<le> net_batch_spend_limit (env_network E) \<Longrightarrow>
     proposable E L t x \<and> c = cost + transmission_cost E L (t, x) \<and> c \<le> net_batch_spend_limit (env_network E)"
  by (cases "(E, L, cost, t, x)" rule: proposal_verdict.cases)
    (auto simp: unwrap_or_def is_ok_iff split: if_splits option.splits sum.splits)

lemma sum_list_update_le:
  fixes f :: "'k \<times> 'v \<Rightarrow> nat"
  shows "sum_list (map f (AList.update k v m)) \<le> sum_list (map f m) + f (k, v)"
  by (induction m) (auto simp: AList.update.simps)

lemma length_update_le: "length (AList.update k v m) \<le> Suc (length m)"
  by (induction m) auto

lemma set_update_subset: "set (AList.update k v m) \<subseteq> insert (k, v) (set m)"
  by (induction m) auto

text \<open>The invariant of the two loops that fill a batch; \<open>avail\<close> is what the queues held at the start.\<close>

definition batch_inv ::
  "'ts env \<Rightarrow> core_ledger \<Rightarrow> (transmission_id \<times> transmission) set \<Rightarrow> transmissions \<Rightarrow> nat \<Rightarrow> bool" where
  "batch_inv E L avail ts cost \<longleftrightarrow>
     imap_wf ts \<and> length ts \<le> net_max_transmissions_per_batch (env_network E) \<and>
     batch_cost E L ts \<le> cost \<and> cost \<le> net_batch_spend_limit (env_network E) \<and>
     (\<forall>(t, x) \<in> set ts. (t, x) \<in> avail \<and> ledger_contains_transmission L t = Inr False \<and> proposable E L t x)"

lemma batch_inv_add:
  assumes "batch_inv E L avail ts cost" "length ts < net_max_transmissions_per_batch (env_network E)"
    and "(t, x) \<in> avail" "\<not> unwrap_or True (ledger_contains_transmission L t)"
    and "proposal_verdict E L cost t x = Take c"
  shows "batch_inv E L avail (imap_insert t x ts) c"
proof -
  have led: "ledger_contains_transmission L t = Inr False"
    using assms(4) by (auto simp: unwrap_or_def split: sum.splits)
  have v: "proposable E L t x" "c = cost + transmission_cost E L (t, x)" "c \<le> net_batch_spend_limit (env_network E)"
    using proposal_verdict_take [OF assms(5)] assms(1) by (auto simp: batch_inv_def)
  have "batch_cost E L (imap_insert t x ts) \<le> c"
    using sum_list_update_le [of "transmission_cost E L" t x ts] assms(1) v(2)
    by (auto simp: batch_cost_def batch_inv_def)
  then show ?thesis
    using assms(1-3) led v length_update_le [of t x ts] set_update_subset [of t x ts]
    by (auto simp: batch_inv_def)
qed

lemma worker_remove_front_items:
  "worker_remove_front w = (Some e, w') \<Longrightarrow> worker_items w = e # worker_items w'"
  by (auto simp: worker_remove_front_def ready_remove_front_def Let_def split: list.splits prod.splits)

lemma drain_worker_inv:
  assumes "drain_worker E L s num ts cost w = (ex, ts', cost', w')" "batch_inv E L avail ts cost"
    "set (worker_items w) \<subseteq> avail"
  shows "batch_inv E L avail ts' cost'"
  using assms
proof (induction E L s num ts cost w rule: drain_worker.induct)
  case (1 E L s num ts cost w)
  obtain e w1 where f: "worker_remove_front w = (e, w1)" by fastforce
  show ?case
  proof (cases e)
    case None
    then show ?thesis using "1.prems" f by (simp add: drain_worker.simps [of E L s num ts cost w])
  next
    case (Some p)
    obtain t x where p: "p = (t, x)" by (cases p)
    note f = f [unfolded Some p]
    have items: "(t, x) \<in> avail" "set (worker_items w1) \<subseteq> avail"
      using worker_remove_front_items [OF f] "1.prems"(3) by auto
    note IH = "1.IH" [OF f [symmetric] refl refl]
    show ?thesis
      using "1.prems"(1,2) IH items batch_inv_add [OF "1.prems"(2) _ items(1)]
      by (auto simp: drain_worker.simps [of E L s num ts cost w] f not_le split: if_splits verdict.splits)
  qed
qed

lemma drain_workers_inv:
  "drain_workers E L s ws ts cost = (Inr ts', ws') \<Longrightarrow> batch_inv E L avail ts cost \<Longrightarrow>
   (\<Union>w \<in> set ws. set (worker_items w)) \<subseteq> avail \<Longrightarrow> \<exists>cost'. batch_inv E L avail ts' cost'"
proof (induction ws arbitrary: ts cost ws')
  case (Cons w ws)
  obtain ex ts1 cost1 w1 where d: "drain_worker E L s 0 ts cost w = (ex, ts1, cost1, w1)"
    by (metis prod_cases4)
  have "batch_inv E L avail ts1 cost1"
    using drain_worker_inv [OF d Cons.prems(2)] Cons.prems(3) by auto
  then show ?case
    using Cons.IH [of ts1 cost1] Cons.prems(1,3) d by (auto split: drain_exit.splits prod.splits)
qed auto

section \<open>Reinsertion\<close>

lemma reinsert_keeps:
  assumes "worker_wf w" "Suc (length (worker_items w)) < 2 ^ 64"
  shows "worker_wf (snd (reinsert E L s p t x w)) \<and>
    worker_contains_transmission E L s p (snd (reinsert E L s p t x w)) t \<and>
    set (worker_items w) \<subseteq> set (worker_items (snd (reinsert E L s p t x w))) \<and>
    length (worker_items (snd (reinsert E L s p t x w))) \<le> Suc (length (worker_items w))"
proof (cases "worker_contains_transmission E L s p w t")
  case True
  then show ?thesis using assms(1) by (simp add: reinsert_def)
next
  case False
  note I = worker_insert_items [OF assms, of t x]
  have "worker_contains_transmission E L s p (snd (worker_insert t x w)) t"
    by (rule worker_contains_items) (use I in auto)
  then show ?thesis using I False by (auto simp: reinsert_def)
qed

lemma worker_contains_mono:
  "worker_wf w \<Longrightarrow> worker_wf w' \<Longrightarrow> set (worker_items w) \<subseteq> set (worker_items w') \<Longrightarrow>
   worker_contains_transmission E L s p w t \<Longrightarrow> worker_contains_transmission E L s p w' t"
  using rq.contains_iff [of "wk_ready w" t] rq.contains_iff [of "wk_ready w'" t]
  by (auto simp: worker_contains_transmission_def worker_wf_def)

text \<open>Workers with room for \<open>n\<close> more transmissions.\<close>

definition workers_room :: "nat \<Rightarrow> worker list \<Rightarrow> bool" where
  "workers_room n ws \<longleftrightarrow> (\<forall>w \<in> set ws. worker_wf w \<and> length (worker_items w) + n < 2 ^ 64)"

definition somewhere ::
  "'ts env \<Rightarrow> core_ledger \<Rightarrow> 'ts storage \<Rightarrow> proposal option \<Rightarrow> worker list \<Rightarrow> transmission_id \<Rightarrow> bool" where
  "somewhere E L s p ws t \<longleftrightarrow> (\<exists>w \<in> set ws. worker_contains_transmission E L s p w t)"

lemma workers_room_update:
  assumes "workers_room (Suc n) ws" "i < length ws" "worker_wf w"
    "length (worker_items w) \<le> Suc (length (worker_items (ws ! i)))"
  shows "workers_room n (ws[i := w])"
proof -
  have "length (worker_items (ws ! i)) + Suc n < 2 ^ 64"
    using assms(1,2) nth_mem unfolding workers_room_def by blast
  then have "length (worker_items w) + n < 2 ^ 64" using assms(4) by linarith
  moreover have "worker_wf v \<and> length (worker_items v) + n < 2 ^ 64" if "v \<in> set ws" for v
    using assms(1) that by (auto simp: workers_room_def)
  ultimately show ?thesis
    using assms(3) set_update_subset_insert [of ws i w] unfolding workers_room_def by blast
qed

lemma somewhere_update:
  assumes "somewhere E L s p ws t" "\<forall>w \<in> set ws. worker_wf w" "i < length ws" "worker_wf w"
    "set (worker_items (ws ! i)) \<subseteq> set (worker_items w)"
  shows "somewhere E L s p (ws[i := w]) t"
proof -
  obtain k where k: "k < length ws" "worker_contains_transmission E L s p (ws ! k) t"
    using assms(1) by (auto simp: somewhere_def in_set_conv_nth)
  have "worker_contains_transmission E L s p (ws[i := w] ! k) t"
    using k assms(2-5) worker_contains_mono [of "ws ! i" w] by (cases "k = i") auto
  then show ?thesis using k(1) unfolding somewhere_def by (metis length_list_update nth_mem)
qed

lemma assign_each_reinsert:
  assumes "assign_each H (length ws) (\<lambda>t x w. snd (reinsert E L s p t x w)) ts ws = (r, ws')"
    and "workers_room (length ts) ws" "0 < length ws" "length ws < 2 ^ 8"
    and "\<forall>t \<in> fst ` set ts. ha_transmission_id_bytes H t \<noteq> None"
  shows "r = Inr () \<and> length ws' = length ws \<and> (\<forall>t. somewhere E L s p ws t \<longrightarrow> somewhere E L s p ws' t) \<and>
    (\<forall>t \<in> fst ` set ts. somewhere E L s p ws' t)"
  using assms
proof (induction ts arbitrary: ws)
  case (Cons e ts)
  obtain t x where e: "e = (t, x)" by (cases e)
  obtain i where i: "assign_to_worker H t (length ws) = Inr i"
    using assign_to_worker_ok [OF Cons.prems(3)] Cons.prems(5) e by fastforce
  have il: "i < length ws" using assign_to_worker_in_range [OF Cons.prems(3,4) i] .
  let ?w = "snd (reinsert E L s p t x (ws ! i))"
  have wi: "worker_wf (ws ! i)" "Suc (length (worker_items (ws ! i))) < 2 ^ 64"
    using Cons.prems(2) nth_mem [OF il] by (fastforce simp: workers_room_def)+
  note K = reinsert_keeps [OF wi, of E L s p t x]
  have wf: "\<forall>w \<in> set ws. worker_wf w" using Cons.prems(2) by (auto simp: workers_room_def)
  have up: "somewhere E L s p ws u \<Longrightarrow> somewhere E L s p (ws[i := ?w]) u" for u
    using somewhere_update [OF _ wf il, of E L s p u ?w] K by blast
  have here: "somewhere E L s p (ws[i := ?w]) t"
    unfolding somewhere_def using K il by (meson set_update_memI)
  have room: "workers_room (length ts) (ws[i := ?w])"
    using workers_room_update [OF _ il, of "length ts" ?w] Cons.prems(2) K by simp
  have "assign_each H (length (ws[i := ?w])) (\<lambda>t x w. snd (reinsert E L s p t x w)) ts (ws[i := ?w]) = (r, ws')"
    using Cons.prems(1) i il by (simp add: e)
  from Cons.IH [OF this room] show ?case
    using up here Cons.prems(3-5) by (auto simp: e)
qed auto

section \<open>The fast-forward loop\<close>

lemma increment_started:
  assumes "current_committee L = Inr com" "com_starting_round com \<le> Suc r" "st_current_round s \<le> Suc r"
    "st_gc_round s \<le> Suc r" "Suc r < 2 ^ 64"
  shows "increment_to_next_round L r s = (Inr (Suc r), s\<lparr>st_current_round := Suc r\<rparr>)"
  using assms by (simp add: increment_to_next_round_def update_current_round_def Let_def)

lemma fast_forward_started:
  assumes "current_committee (bft_ledger b) = Inr com" "com_starting_round com \<le> Suc r"
    "st_current_round (bft_storage b) = r" "st_gc_round (bft_storage b) \<le> Suc r" "target < 2 ^ 64"
    "target - r \<le> fuel"
  shows "\<exists>b'. fast_forward fuel target r b = (Inr (), b') \<and> st_current_round (bft_storage b') = max r target \<and>
    st_gc_round (bft_storage b') = st_gc_round (bft_storage b)"
  using assms
proof (induction fuel arbitrary: r b)
  case (Suc fuel)
  show ?case
  proof (cases "r < target")
    case True
    let ?b = "b\<lparr>bft_storage := (bft_storage b)\<lparr>st_current_round := Suc r\<rparr>,
      bft_primary := (bft_primary b)\<lparr>pm_proposed_batch := None\<rparr>\<rparr>"
    have inc: "increment_to_next_round (bft_ledger b) r (bft_storage b) =
        (Inr (Suc r), (bft_storage b)\<lparr>st_current_round := Suc r\<rparr>)"
      using Suc.prems True by (intro increment_started) auto
    have "\<exists>b'. fast_forward fuel target (Suc r) ?b = (Inr (), b') \<and>
        st_current_round (bft_storage b') = max (Suc r) target \<and> st_gc_round (bft_storage b') = st_gc_round (bft_storage ?b)"
      by (rule Suc.IH) (use Suc.prems True in auto)
    then show ?thesis using True inc by auto
  qed (use Suc.prems in auto)
qed auto

text \<open>From a round that is not before the committee's start, every iteration makes progress.\<close>

lemma fast_forward_progress:
  "current_committee (bft_ledger b) = Inr com \<Longrightarrow> com_starting_round com \<le> Suc r \<Longrightarrow> target < 2 ^ 64 \<Longrightarrow>
   target - r \<le> fuel \<Longrightarrow> fst (fast_forward fuel target r b) \<noteq> Inl FastForwardOutOfFuel"
proof (induction fuel arbitrary: r b)
  case (Suc fuel)
  show ?case
  proof (cases "r < target")
    case True
    obtain x s where inc: "increment_to_next_round (bft_ledger b) r (bft_storage b) = (x, s)" by fastforce
    show ?thesis
    proof (cases x)
      case (Inr r')
      then have "Suc r \<le> r'"
        using inc Suc.prems(1-3) True
        by (auto simp: increment_to_next_round_def update_current_round_def Let_def split: if_splits)
      then show ?thesis using Suc.IH [of _ r'] Suc.prems True inc Inr by simp
    qed (use True inc in simp)
  qed simp
qed simp

text \<open>Before the committee's start the loop returns to the round of the latest block, and repeats.\<close>

lemma increment_not_started:
  assumes "current_committee L = Inr com" "Suc r < com_starting_round com" "st_current_round s \<le> Suc r" "Suc r < 2 ^ 64"
  shows "increment_to_next_round L r s = (Inr (latest_round L), sync_round_with_block (latest_round L) s)"
  using assms by (simp add: increment_to_next_round_def Let_def)

lemma increment_behind_storage:
  "Suc r < st_current_round s \<Longrightarrow> Suc r < 2 ^ 64 \<Longrightarrow> increment_to_next_round L r s = (Inr (st_current_round s), s)"
  by (simp add: increment_to_next_round_def Let_def)

lemma sync_round_same:
  "max r 1 \<le> st_current_round s \<Longrightarrow> sync_round_with_block r s = s"
  by (auto simp: sync_round_with_block_def Let_def not_less)

lemma fast_forward_cycle:
  assumes "current_committee L = Inr com" "latest_round L < target" "target < 2 ^ 64"
    and "max (latest_round L) 1 \<le> st_current_round s" "st_current_round s < target"
    and "Suc (latest_round L) < com_starting_round com" "Suc (st_current_round s) < com_starting_round com"
  shows "bft_ledger b = L \<Longrightarrow> bft_storage b = s \<Longrightarrow> r = latest_round L \<or> r = st_current_round s \<Longrightarrow>
    fst (fast_forward fuel target r b) = Inl FastForwardOutOfFuel"
proof (induction fuel arbitrary: r b)
  case (Suc fuel)
  have r: "r < target" "Suc r < com_starting_round com" "Suc r < 2 ^ 64" using assms Suc.prems(3) by auto
  show ?case
  proof (cases "Suc r < st_current_round s")
    case True
    then show ?thesis
      using increment_behind_storage [OF True r(3), of L] Suc r by simp
  next
    case False
    then show ?thesis
      using increment_not_started [OF assms(1) r(2) _ r(3), of s] sync_round_same [OF assms(4)] Suc r by simp
  qed
qed (use assms in auto)

lemma fast_forward_stuck:
  assumes "current_committee L = Inr com" "latest_round L < target" "target < 2 ^ 64"
    and "max (latest_round L) 1 \<le> st_current_round s" "st_current_round s \<le> Suc (latest_round L)"
    and "Suc (latest_round L) < com_starting_round com"
  shows "bft_ledger b = L \<Longrightarrow> bft_storage b = s \<Longrightarrow> fst (fast_forward fuel target (latest_round L) b) = Inl FastForwardOutOfFuel"
proof (induction fuel arbitrary: b)
  case (Suc fuel)
  have "Suc (latest_round L) < 2 ^ 64" using assms(2,3) by linarith
  then show ?case
    using increment_not_started [OF assms(1,6,5)] sync_round_same [OF assms(4)] Suc assms(2) by simp
qed (use assms in auto)

lemma fast_forward_diverges:
  assumes r: "r = st_current_round (bft_storage b)" and t: "target < 2 ^ 64" and f: "target \<le> fuel"
    and out: "fst (fast_forward (Suc (Suc fuel)) target r b) = Inl FastForwardOutOfFuel"
  shows "fst (fast_forward k target r b) = Inl FastForwardOutOfFuel"
proof -
  let ?L = "bft_ledger b" and ?s = "bft_storage b"
  let ?l = "latest_round ?L"
  have rt: "r < target" using out by (auto split: if_splits)
  then have r64: "Suc r < 2 ^ 64" using t by linarith
  obtain com where com: "current_committee ?L = Inr com"
    using out rt r r64 by (cases "current_committee ?L") (auto simp: increment_to_next_round_def Let_def)
  have start: "Suc r < com_starting_round com"
    using fast_forward_progress [OF com _ t, of r "Suc (Suc fuel)"] f out by fastforce
  let ?s1 = "sync_round_with_block ?l ?s"
  let ?b1 = "b\<lparr>bft_storage := ?s1, bft_primary := (bft_primary b)\<lparr>pm_proposed_batch := None\<rparr>\<rparr>"
  have inc: "increment_to_next_round ?L r ?s = (Inr ?l, ?s1)"
    by (rule increment_not_started [OF com start _ r64]) (simp add: r)
  have step: "fast_forward (Suc n) target r b = fast_forward n target ?l ?b1" for n
    using rt inc by simp
  have out1: "fst (fast_forward (Suc fuel) target ?l ?b1) = Inl FastForwardOutOfFuel"
    using out by (simp only: step)
  have lt: "?l < target" using out1 by (auto split: if_splits)
  have l64: "Suc ?l < 2 ^ 64" using lt t by linarith
  have ls: "Suc ?l < com_starting_round com"
    using fast_forward_progress [of ?b1 com ?l target "Suc fuel"] com t f out1 by fastforce
  have s1: "max ?l 1 \<le> st_current_round ?s1"
    by (auto simp: sync_round_with_block_def update_current_round_def Let_def not_less)
  have "fst (fast_forward n target ?l ?b1) = Inl FastForwardOutOfFuel" for n
  proof (cases "Suc ?l < st_current_round ?s1")
    case True
    let ?r2 = "st_current_round ?s1"
    have "fst (fast_forward fuel target ?r2
        (?b1\<lparr>bft_storage := ?s1, bft_primary := (bft_primary ?b1)\<lparr>pm_proposed_batch := None\<rparr>\<rparr>)) = Inl FastForwardOutOfFuel"
      using out1 lt increment_behind_storage [OF True l64, of ?L] by simp
    then have "?r2 < target" "Suc ?r2 < com_starting_round com"
      using fast_forward_progress [of "?b1\<lparr>bft_storage := ?s1, bft_primary := (bft_primary ?b1)\<lparr>pm_proposed_batch := None\<rparr>\<rparr>"
          com ?r2 target fuel] com t f
      by (cases fuel; fastforce split: if_splits)+
    then show ?thesis
      using fast_forward_cycle [OF com lt t s1 _ ls] by simp
  next
    case False
    then show ?thesis
      using fast_forward_stuck [OF com lt t s1 _ ls] by simp
  qed
  then show ?thesis using rt step by (cases k) auto
qed

section \<open>Concrete workers\<close>

definition sample_worker :: worker where
  "sample_worker = \<lparr>wk_id = 0, wk_ready = \<lparr>rq_transmission_ids = [(sample_t, 0)], rq_transmissions = sample_given,
     rq_offset = 0\<rparr>\<rparr>"

definition sample_hashing :: hashing where
  "sample_hashing = \<lparr>ha_sha256 = (\<lambda>bs. bs), ha_transmission_id_bytes = (\<lambda>_. Some [0])\<rparr>"

lemma sample_worker_wf: "worker_wf sample_worker"
  by (simp add: worker_wf_def ready_wf_def sample_worker_def sample_given_def)

lemmas drain_eval = worker_remove_front_def ready_remove_front_def worker_insert_front_def
  unwrap_or_def contains_transmission_def check_transaction_basic_def check_solution_basic_def
  transaction_spent_cost_def u64_checked_add_def max_transmissions_per_worker_def MAX_WORKERS_def

section \<open>Properties\<close>

text \<open>C11: a proposed batch holds at most \<open>MAX_TRANSMISSIONS_PER_BATCH\<close> transmissions, each once, whose
  spending costs add up to at most the batch spend limit. Each comes from the queue of a worker, is
  not in the ledger, carries its own checksum and passes the ledger's check; none is a
  ratification.\<close>

theorem batch_within_limits:
  assumes "drain_workers E L s ws [] 0 = (Inr ts, ws')"
  shows "imap_wf ts \<and> length ts \<le> net_max_transmissions_per_batch (env_network E) \<and>
    batch_cost E L ts \<le> net_batch_spend_limit (env_network E) \<and>
    (\<forall>(t, x) \<in> set ts. (\<exists>w \<in> set ws. (t, x) \<in> set (worker_items w)) \<and>
       ledger_contains_transmission L t = Inr False \<and> proposable E L t x)"
proof -
  have "batch_inv E L (\<Union>w \<in> set ws. set (worker_items w)) [] 0"
    by (simp add: batch_inv_def batch_cost_def)
  from drain_workers_inv [OF assms this] obtain cost where
    "batch_inv E L (\<Union>w \<in> set ws. set (worker_items w)) ts cost" by auto
  then show ?thesis unfolding batch_inv_def by fastforce
qed

lemma sample_drain:
  "drain_workers sample_env sample_core sample_s0 [sample_worker] [] 0 =
     (Inr sample_given, [sample_worker\<lparr>wk_ready := ready_new\<rparr>])"
  by (simp add: drain_worker.simps drain_eval sample_worker_def sample_store_defs ready_new_def)

theorem batch_within_limits_witness:
  "proposable sample_env sample_core sample_t (Transaction (Object (sample_transaction 5)))"
  using batch_within_limits [OF sample_drain] by (simp add: sample_given_def)

text \<open>C38: the loop takes a transmission off the queue before it checks whether the batch is full. When
  the batch is full, the transmission at the front of the queue ends up neither in the batch nor in the
  queue: it is lost.\<close>

theorem full_batch_loses_transmission:
  assumes "net_max_transmissions_per_batch (env_network E) \<le> length ts" "worker_wf w"
    "worker_items w = (t, x) # rest" "t \<notin> fst ` set ts"
  shows "\<exists>w'. drain_worker E L s num ts cost w = (BatchFull, ts, cost, w') \<and> worker_items w' = rest \<and>
    t \<notin> fst ` set (worker_items w') \<and> t \<notin> fst ` set ts"
proof -
  obtain e w' where f: "worker_remove_front w = (e, w')" by fastforce
  then have e: "e = Some (t, x)"
    using assms(3) by (auto simp: worker_remove_front_def ready_remove_front_def Let_def split: prod.splits)
  have "worker_items w' = rest" using worker_remove_front_items [of w "(t, x)" w'] f e assms(3) by simp
  moreover have "distinct (map fst (worker_items w))"
    using assms(2) rq.invar_distinct by (simp add: worker_wf_def)
  ultimately show ?thesis
    using assms f e by (simp add: drain_worker.simps [of E L s num ts cost w])
qed

theorem full_batch_loses_transmission_witness:
  "\<exists>w'. drain_worker (sample_env\<lparr>env_network := sample_network\<lparr>net_max_transmissions_per_batch := 1\<rparr>\<rparr>) sample_core
      sample_s0 1 [(TransactionID 6 0, Ratification)] 0 sample_worker =
      (BatchFull, [(TransactionID 6 0, Ratification)], 0, w') \<and> worker_items w' = []"
  using full_batch_loses_transmission [OF _ sample_worker_wf, of
      "sample_env\<lparr>env_network := sample_network\<lparr>net_max_transmissions_per_batch := 1\<rparr>\<rparr>"
      "[(TransactionID 6 0, Ratification)]" sample_t "Transaction (Object (sample_transaction 5))" "[]"
      sample_core sample_s0 1 0]
  by (auto simp: sample_worker_def sample_given_def sample_t_def)

text \<open>C31: putting transmissions back into the workers never loses one: the assignment to workers succeeds,
  every transmission is afterwards known to one of the workers, be it in its queue or in the proposed
  batch, storage or ledger, and whatever was known before still is.\<close>

theorem reinsertion_loses_nothing:
  assumes "workers_room (length ts) (pm_workers (bft_primary b))"
    and "0 < length (pm_workers (bft_primary b))" "length (pm_workers (bft_primary b)) < 2 ^ 8"
    and "\<forall>t \<in> fst ` set ts. ha_transmission_id_bytes (pp_hashing P) t \<noteq> None"
  shows "\<exists>b'. reinsert_transmissions_into_workers P ts b = (Inr (), b') \<and>
    (\<forall>t. somewhere (pp_env P) (bft_ledger b) (bft_storage b) (pm_proposed_batch (bft_primary b))
            (pm_workers (bft_primary b)) t \<or> t \<in> fst ` set ts \<longrightarrow>
         somewhere (pp_env P) (bft_ledger b') (bft_storage b') (pm_proposed_batch (bft_primary b'))
            (pm_workers (bft_primary b')) t)"
proof -
  let ?E = "pp_env P" and ?L = "bft_ledger b" and ?s = "bft_storage b" and ?p = "pm_proposed_batch (bft_primary b)"
  let ?ws = "pm_workers (bft_primary b)"
  obtain r ws where a: "assign_each (pp_hashing P) (length ?ws) (\<lambda>t x w. snd (reinsert ?E ?L ?s ?p t x w)) ts ?ws = (r, ws)"
    by fastforce
  note A = assign_each_reinsert [OF a assms]
  then show ?thesis
    using a assms(3)
    by (auto simp: reinsert_transmissions_into_workers_def assign_to_workers_def num_workers_u8_def set_workers_def)
qed

text \<open>When the current committee has already started, the fast-forward loop of
  \<open>try_increment_to_the_next_round\<close> ends within its fuel without an error, and leaves storage at the round
  before the requested one, or where it was if that is later.\<close>

theorem fast_forward_reaches_penultimate:
  assumes "current_committee (bft_ledger b) = Inr com" "com_starting_round com \<le> Suc (st_current_round (bft_storage b))"
    and "st_gc_round (bft_storage b) \<le> Suc (st_current_round (bft_storage b))" "next_round < 2 ^ 64"
  shows "\<exists>b'. fast_forward (fast_forward_fuel next_round) (next_round - 1) (st_current_round (bft_storage b)) b = (Inr (), b') \<and>
    st_current_round (bft_storage b') = max (st_current_round (bft_storage b)) (next_round - 1)"
proof -
  have t: "next_round - 1 < 2 ^ 64" by (rule le_less_trans [OF diff_le_self assms(4)])
  have f: "next_round - 1 - st_current_round (bft_storage b) \<le> fast_forward_fuel next_round"
    by (simp add: fast_forward_fuel_def)
  show ?thesis using fast_forward_started [OF assms(1,2) refl assms(3) t f] by blast
qed


definition sample_node :: "memory_service bft" where
  "sample_node = bft_new 1 sample_s1 sample_core ((primary_new False None)\<lparr>pm_workers := [sample_worker]\<rparr>)"

text \<open>A ledger whose committee starts later than its latest block: the loop never ends.\<close>

definition sample_late :: "memory_service bft" where
  "sample_late = sample_node\<lparr>bft_ledger := sample_core\<lparr>cl_ledger := sample_ledger\<lparr>sl_latest_round := 1,
     sl_latest_committee := Some (sample_committee\<lparr>com_starting_round := 100\<rparr>)\<rparr>\<rparr>\<rparr>"


theorem fast_forward_reaches_penultimate_witness:
  "\<exists>b'. fast_forward (fast_forward_fuel 5) 4 1 sample_node = (Inr (), b') \<and> st_current_round (bft_storage b') = 4"
proof -
  have s: "st_current_round (bft_storage sample_node) = 1" "st_gc_round (bft_storage sample_node) = 0"
    by (simp_all add: sample_node_def bft_new_def sample_s1_def sample_s1b_def sample_s1a_def sample_s0_def)
  have "current_committee (bft_ledger sample_node) = Inr sample_committee"
    by (simp add: sample_node_def bft_new_def sample_core_def core_ledger_new_def current_committee_def sample_ledger_def)
  from fast_forward_reaches_penultimate [OF this, of 5] show ?thesis
    by (simp add: s sample_committee_def)
qed

definition sample_header_new ::
  "address \<Rightarrow> nat \<Rightarrow> int \<Rightarrow> field \<Rightarrow> transmission_id list \<Rightarrow> field list \<Rightarrow> batch_header option" where
  "sample_header_new a r now com ts prev =
     Some \<lparr>bh_batch_id = 10 * r + a, bh_author = a, bh_round = r, bh_timestamp = now, bh_committee_id = com,
           bh_transmission_ids = ts, bh_previous_certificate_ids = prev, bh_signature = a\<rparr>"

definition sample_certificate_from :: "batch_header \<Rightarrow> signature list \<Rightarrow> certificate option" where
  "sample_certificate_from h sgs = Some \<lparr>cert_id = bh_batch_id h, cert_header = h, cert_signatures = sgs\<rparr>"

definition sample_pp :: "memory_service primary_params" where
  "sample_pp =
     \<lparr>pp_bft = \<lparr>bp_env = sample_env, bp_subdag_from = (\<lambda>_. True), bp_anchor_round = (\<lambda>sd. last (map fst sd)),
        bp_consensus = (\<lambda>b _ _. (Advanced, bft_ledger b, bft_primary b, bft_inbound b))\<rparr>,
      pp_hashing = sample_hashing, pp_codecs = sample_codecs, pp_account = (\<lambda>i. Some (Suc i)),
      pp_header_new = sample_header_new, pp_certificate_from = sample_certificate_from\<rparr>"

theorem reinsertion_loses_nothing_witness:
  "\<exists>b'. reinsert_transmissions_into_workers sample_pp sample_given sample_node = (Inr (), b') \<and>
     somewhere sample_env (bft_ledger b') (bft_storage b') (pm_proposed_batch (bft_primary b'))
       (pm_workers (bft_primary b')) sample_t"
proof -
  have ws: "pm_workers (bft_primary sample_node) = [sample_worker]"
    by (simp add: sample_node_def bft_new_def)
  have "workers_room (length sample_given) [sample_worker]"
    using sample_worker_wf by (simp add: workers_room_def sample_worker_def sample_given_def)
  then show ?thesis
    using reinsertion_loses_nothing [of sample_given sample_node sample_pp]
    by (auto simp: ws sample_pp_def sample_hashing_def sample_given_def)
qed

end
