(* ===== verification/Node.thy ===== *)
theory Node
  imports NodeRelation Consensus PrimaryProps
begin

text \<open>
  The node as a whole: the steps of its handlers, its start and its shutdown, as relations on the
  state of consensus, BFT and primary, and the relations between states that every step respects.
\<close>

section \<open>The remaining operations\<close>

context node_relation
begin

lemma await_fetches_steps:
  "await_fetches E p fs acc s = (x, s') \<Longrightarrow> (storage_step E)\<^sup>*\<^sup>* s s'"
proof (induction fs arbitrary: acc s)
  case (Cons f fs)
  obtain w t where f: "f = (w, t)" by (cases f)
  obtain y s1 where g: "get_or_fetch_transmission E p w t s = (y, s1)" by fastforce
  have "s1 = s \<or> storage_step E s s1"
    using g step_read [of E s t]
    by (auto simp: get_or_fetch_transmission_def worker_get_transmission_def split: option.splits prod.splits)
  then have st: "(storage_step E)\<^sup>*\<^sup>* s s1" by auto
  show ?case
    using Cons.prems Cons.IH g rtranclp_trans [of "storage_step E", OF st] st
    by (auto simp: f split: sum.splits prod.splits)
qed auto

lemma R_fetch_missing:
  assumes "fetch_missing_transmissions P h b = (x, b')"
  shows "R b b'"
  using assms R_refl R_storage_steps [OF await_fetches_steps]
  by (auto simp: fetch_missing_transmissions_def Let_def split: if_splits sum.splits prod.splits)

lemma R_sync_header:
  assumes "sync_with_batch_header_from_peer P sy now h b = (x, b')"
  shows "R b b'"
  using assms R_refl R_try_increment R_fetch_missing R_trans [OF R_try_increment R_fetch_missing]
  by (auto simp: sync_with_batch_header_from_peer_def Let_def split: if_splits sum.splits prod.splits)

lemma R_sync_certificate:
  assumes "sync_with_certificate_from_peer P sy now c b = (x, b')"
  shows "R b b'"
proof -
  obtain y b1 where h: "sync_with_batch_header_from_peer P sy now (cert_header c) b = (y, b1)" by fastforce
  note r1 = R_sync_header [OF h]
  have send: "R b1 b'" if "insert_certificate (pp_env P) L now (bft_storage b1) c ts [] = Inr s"
    "send_certificate P c (b1\<lparr>bft_storage := s\<rparr>) = (x, b')" for L ts s x b'
    by (rule R_insert_then [OF that(1)]) (rule R_send_certificate [OF that(2)], simp)
  show ?thesis
    using assms R_refl r1 R_trans [OF r1 send]
    by (auto simp: sync_with_certificate_from_peer_def h split: if_splits sum.splits)
qed

lemma R_process_on_worker: "process_on_worker P' t op b = (x, b') \<Longrightarrow> R b b'"
  using R_refl R_workers by (auto simp: process_on_worker_def Let_def split: sum.splits if_splits prod.splits)

lemma R_process_solution: "process_unconfirmed_solution P' i d b = (x, b') \<Longrightarrow> R b b'"
  using R_refl R_process_on_worker by (auto simp: process_unconfirmed_solution_def split: option.splits)

lemma R_process_transaction: "process_unconfirmed_transaction P' i d b = (x, b') \<Longrightarrow> R b b'"
  using R_refl R_process_on_worker by (auto simp: process_unconfirmed_transaction_def split: option.splits)

lemma R_batch_proposer: "R b (batch_proposer_tick P now locked b)"
  using R_refl R_propose_batch [of now True b] by (cases "propose_batch P now True b") (simp add: batch_proposer_tick_def)

lemma R_batch_proposer_aborted: "R b (batch_proposer_aborted P now n b)"
proof (cases "dev_accounts P [0..<4]")
  case (Inr accounts)
  obtain x b1 where l: "propose_batch_lite P now (drop 1 accounts) True b = (x, b1)" by fastforce
  note r1 = R_propose_batch_lite [OF l]
  have f: "R b (snd (fake_proposals P now accounts r (take n [1..<4]) b1))" for r
    by (rule R_trans [OF r1 R_fake_proposals [OF prod.collapse [symmetric]]])
  show ?thesis
    using R_refl r1 f
    by (auto simp: batch_proposer_aborted_def Inr l simp del: One_nat_def split: sum.split)
qed (simp add: batch_proposer_aborted_def R_refl)

lemma R_round_increment: "R b (round_increment_tick P now b)"
proof -
  let ?nr = "u64_saturating_add (st_current_round (bft_storage b)) 1"
  show ?thesis
    using R_refl R_try_increment [of now ?nr b]
    by (cases "try_increment_to_the_next_round P now ?nr b")
      (auto simp: round_increment_tick_def Let_def split: sum.splits)
qed

lemma R_foldl: "(\<And>b x. R b (f b x)) \<Longrightarrow> R b (foldl f b xs)"
proof (induction xs arbitrary: b)
  case (Cons x xs)
  then show ?case using R_trans [of b "f b x"] by simp
qed (simp add: R_refl)

lemma R_send_solution: "R b (send_unconfirmed_solution P' b x)"
  using R_process_solution [of P' "sol_id x" "Object x" b]
  by (cases "process_unconfirmed_solution P' (sol_id x) (Object x) b") (simp add: send_unconfirmed_solution_def)

lemma R_send_transaction: "R b (send_unconfirmed_transaction P' b x)"
  using R_process_transaction [of P' "tx_id x" "Object x" b]
  by (cases "process_unconfirmed_transaction P' (tx_id x) (Object x) b") (simp add: send_unconfirmed_transaction_def)

lemma R_process_solutions: "R b (process_unconfirmed_solutions C b)"
  using R_refl R_trans [OF R_inbound R_foldl [of "send_unconfirmed_solution (cn_primary C)"]] R_send_solution
  by (auto simp: process_unconfirmed_solutions_def Let_def split: prod.splits)

lemma R_process_transactions: "R b (process_unconfirmed_transactions C b)"
  using R_refl R_trans [OF R_inbound R_foldl [of "send_unconfirmed_transaction (cn_primary C)"]] R_send_transaction
  by (auto simp: process_unconfirmed_transactions_def Let_def split: prod.splits)

lemma R_mempool: "R b (mempool_tick C b)"
  unfolding mempool_tick_def by (rule R_trans [OF R_process_transactions R_process_solutions])

lemma R_add_solution:
  assumes "add_unconfirmed_solution C x b = (r, b')"
  shows "R b b'"
proof -
  have two: "R b (b\<lparr>bft_inbound := q, bft_inbound := q'\<rparr>)" for q q'
    using R_inbound [of b q'] by simp
  show ?thesis
    using assms R_refl R_inbound R_trans [OF R_inbound R_process_solutions]
    by (auto simp: add_unconfirmed_solution_def Let_def split: option.splits if_splits sum.splits bool.splits)
qed

lemma R_add_transaction:
  assumes "add_unconfirmed_transaction C x b = (r, b')"
  shows "R b b'"
  using assms R_refl R_inbound R_trans [OF R_inbound R_process_transactions]
  by (auto simp: add_unconfirmed_transaction_def Let_def split: option.splits if_splits sum.splits bool.splits)

text \<open>A round that was proposed was above the lock, and the lock has been moved to it.\<close>

lemma propose_batch_lite_result:
  assumes "propose_batch_lite P now others cm b = (Inr r, b')" "r \<noteq> 0"
  shows "r = st_current_round (bft_storage b) \<and> pm_propose_lock (bft_primary b) < r \<and>
    (\<exists>b1. pm_propose_lock (bft_primary b1) = r \<and> R b1 b')"
proof -
  obtain com prev ts ws where
    p: "propose_transmissions P now others cm (st_current_round (bft_storage b)) com prev ts (set_workers ws b) = (Inr r, b')"
    and lock: "pm_propose_lock (bft_primary b) < st_current_round (bft_storage b)"
    using assms
    by (auto simp: propose_batch_lite_def Let_def not_less split: if_splits sum.splits prod.splits bool.splits)
  let ?r = "st_current_round (bft_storage b)"
  let ?b0 = "set_workers ws b"
  obtain h q where n: "new_proposal P (bft_address ?b0) ?r now com ts prev = Inr (h, q)"
    using p by (auto simp: propose_transmissions_def Let_def split: sum.splits)
  let ?b1 = "?b0\<lparr>bft_primary := (bft_primary ?b0)\<lparr>pm_propose_lock := ?r, pm_latest_proposed_batch_timestamp := pr_timestamp q\<rparr>\<rparr>"
  have "r = ?r \<and> R ?b1 b'"
    using p n R_refl R_complete_batch
    by (auto simp: propose_transmissions_def Let_def split: if_splits sum.splits prod.splits)
  then show ?thesis using lock by (auto intro!: exI [of _ ?b1])
qed

end

section \<open>Start and shutdown\<close>

locale node_boot_relation = node_relation +
  assumes R_primary: "R b (b\<lparr>bft_primary := p\<rparr>)"
    and R_sender: "R b (b\<lparr>bft_consensus_sender := v\<rparr>)"
begin

lemma R_fold: "(\<And>b x. R b (f x b)) \<Longrightarrow> R b (fold f xs b)"
proof (induction xs arbitrary: b)
  case (Cons x xs)
  then show ?case using R_trans [of b "f x b"] by simp
qed (simp add: R_refl)

lemma R_load_proposal_cache: "load_proposal_cache P now b = (x, b') \<Longrightarrow> R b b'"
proof -
  have "R b (fold (\<lambda>c b. snd (sync_with_certificate_from_peer P True now c b)) cs b)" for cs b
    by (rule R_fold) (metis R_sync_certificate prod.collapse)
  from R_trans [OF R_primary this] show "load_proposal_cache P now b = (x, b') \<Longrightarrow> R b b'"
    using R_refl by (auto simp: load_proposal_cache_def Let_def split: if_splits sum.splits)
qed

lemma fold_sync_blocks: "(storage_step E)\<^sup>*\<^sup>* s (fold (sync_block E L now) blks s)"
  unfolding sync_block_def by (rule rtranclp_fold)+ (rule r_into_rtranclp, rule step_sync)

lemma R_sync_storage:
  assumes "sync_storage_with_ledger_at_bootup P now free b = (x, b')"
  shows "R b b'"
proof -
  let ?r = "blk_round (latest_block (bft_ledger b))" and ?h = "blk_height (latest_block (bft_ledger b))"
  have st: "(storage_step (pp_env P))\<^sup>*\<^sup>* (bft_storage b) (fold (sync_block (pp_env P) (bft_ledger b) now) blks
      (garbage_collect_certificates (pp_env P) ?r (sync_round_with_block ?r (sync_height_with_block ?h (bft_storage b)))))" for blks
    by (meson fold_sync_blocks converse_rtranclp_into_rtranclp step_height step_round step_gc)
  note r1 = R_storage_steps [OF st]
  show ?thesis
    using assms R_refl r1 R_trans [OF r1 R_commit_fold]
    by (auto simp: sync_storage_with_ledger_at_bootup_def sync_bft_dag_at_bootup_def Let_def
        split: if_splits sum.splits link.splits)
qed

lemma R_primary_run:
  assumes "primary_run P now free b = (x, b')"
  shows "R b b'"
proof -
  let ?b = "b\<lparr>bft_primary := (bft_primary b)\<lparr>pm_bft_sender := Open\<rparr>\<rparr>"
  have ws: "R b (set_workers w ?b)" for w by (rule R_trans [OF R_primary R_workers])
  note sync = R_trans [OF ws R_sync_storage]
  note cache = R_trans [OF sync R_load_proposal_cache]
  show ?thesis
    using assms R_refl R_primary sync cache R_trans [OF cache R_primary]
    by (auto simp: primary_run_def Let_def split: if_splits sum.splits prod.splits)
qed

lemma R_shut_down: "R b (bft_shut_down P' b)"
proof -
  have "R b (primary_shut_down P' b)"
    using R_refl R_primary by (simp add: primary_shut_down_def Let_def)
  from R_trans [OF this R_primary] show ?thesis by (simp add: bft_shut_down_def Let_def)
qed

lemma R_bft_run:
  assumes "bft_run P now free cs b = (x, b')"
  shows "R b b'"
  using assms R_primary_run R_trans [OF R_primary_run R_shut_down] R_trans [OF R_primary_run R_sender]
  by (auto simp: bft_run_def split: sum.splits prod.splits if_splits)

end

section \<open>Steps of a node\<close>

text \<open>The handlers of a running node, in any order: the two loops of the primary, the loop of
  consensus over its queues, and the arrival of a solution or a transaction.\<close>

inductive handler_step :: "'ts consensus_params \<Rightarrow> 'ts bft \<Rightarrow> 'ts bft \<Rightarrow> bool" for C where
  propose: "handler_step C b (batch_proposer_tick (node_params C) now locked b)"
| increment: "handler_step C b (round_increment_tick (node_params C) now b)"
| mempool: "handler_step C b (mempool_tick C b)"
| solution: "add_unconfirmed_solution C x b = (r, b') \<Longrightarrow> handler_step C b b'"
| transaction: "add_unconfirmed_transaction C y b = (r, b') \<Longrightarrow> handler_step C b b'"

text \<open>The start reads the ledger and the proposal cache, the shutdown writes the cache. A shutdown may drop
  a proposal that is under way.\<close>

inductive node_step :: "'ts consensus_params \<Rightarrow> 'ts bft \<Rightarrow> 'ts bft \<Rightarrow> bool" for C where
  handler: "handler_step C b b' \<Longrightarrow> node_step C b b'"
| start: "consensus_run C now free b = (r, b') \<Longrightarrow> node_step C b b'"
| stop: "node_step C b (consensus_shut_down C b)"
| stop_proposing: "node_step C b (consensus_shut_down C (batch_proposer_aborted (node_params C) now n b))"

inductive_cases handler_stepE: "handler_step C b b'"
inductive_cases node_stepE: "node_step C b b'"

lemma node_params_env [simp]: "pp_env (node_params C) = pp_env (cn_primary C)"
  by (simp add: node_params_def)

context node_relation
begin

lemma handler_step_R: "P = node_params C \<Longrightarrow> handler_step C b b' \<Longrightarrow> R b b'"
  using R_batch_proposer [of b] R_round_increment [of b]
  by (elim handler_stepE) (auto intro: R_mempool R_add_solution R_add_transaction)

lemma handler_steps_R: "P = node_params C \<Longrightarrow> (handler_step C)\<^sup>*\<^sup>* b b' \<Longrightarrow> R b b'"
  by (erule rtranclp_induct) (auto intro: R_refl R_trans handler_step_R)

end

context node_boot_relation
begin

lemma node_step_R: "P = node_params C \<Longrightarrow> node_step C b b' \<Longrightarrow> R b b'"
proof (erule node_stepE)
  fix now free r
  assume P: "P = node_params C" and run: "consensus_run C now free b = (r, b')"
  obtain x b1 where b1: "bft_run P now free True b = (x, b1)" by fastforce
  show "R b b'"
    using run b1 R_bft_run [OF b1] R_trans [OF R_bft_run [OF b1] R_shut_down]
    by (auto simp: consensus_run_def consensus_shut_down_def P split: sum.splits)
next
  fix now n
  assume P: "P = node_params C" and b': "b' = consensus_shut_down C (batch_proposer_aborted (node_params C) now n b)"
  show "R b b'"
    unfolding b' consensus_shut_down_def P [symmetric] by (rule R_trans [OF R_batch_proposer_aborted R_shut_down])
qed (auto simp: consensus_shut_down_def intro: handler_step_R R_shut_down)

lemma node_steps_R: "P = node_params C \<Longrightarrow> (node_step C)\<^sup>*\<^sup>* b b' \<Longrightarrow> R b b'"
  by (erule rtranclp_induct) (auto intro: R_refl R_trans node_step_R)

end

section \<open>What every step respects\<close>

text \<open>Storage only makes storage steps, a well-formed DAG stays well-formed, the last committed round
  does not go back, and the node keeps its account.\<close>

definition node_evolves :: "'ts env \<Rightarrow> 'ts bft \<Rightarrow> 'ts bft \<Rightarrow> bool" where
  "node_evolves E b b' \<longleftrightarrow> (storage_step E)\<^sup>*\<^sup>* (bft_storage b) (bft_storage b') \<and>
     (dag_wf (bft_dag b) \<longrightarrow> dag_wf (bft_dag b')) \<and>
     dag_last_committed_round (bft_dag b) \<le> dag_last_committed_round (bft_dag b') \<and>
     bft_address b' = bft_address b"

lemma dag_insert_last [simp]: "dag_last_committed_round (dag_insert c d) = dag_last_committed_round d"
  by (simp add: dag_insert_def)

lemma dag_commit_last [simp]:
  "dag_last_committed_round (dag_commit c g d) = max (dag_last_committed_round d) (cert_round c)"
  by (simp add: dag_commit_def Let_def)

interpretation evolves: node_boot_relation P "node_evolves (pp_env P)" for P :: "'ts primary_params"
proof (unfold_locales, goal_cases)
  case (2 b1 b2 b3)
  then show ?case using rtranclp_trans [of "storage_step (pp_env P)"] by (fastforce simp: node_evolves_def)
qed (auto simp: node_evolves_def set_workers_def dag_wf_insert dag_wf_commit)

text \<open>The DAG holds no certificate that storage does not: every vertex above the garbage collected round is a stored
  certificate.\<close>

definition dag_stored :: "'ts bft \<Rightarrow> bool" where
  "dag_stored b \<longleftrightarrow> (\<forall>r a c. dag_get_certificate_for_round_with_author (bft_dag b) r a = Some c \<longrightarrow>
     st_gc_round (bft_storage b) < r \<longrightarrow> get_certificate (bft_storage b) (cert_id c) = Some c)"

definition node_inv :: "'ts bft \<Rightarrow> bool" where
  "node_inv b \<longleftrightarrow> storage_inv (bft_storage b) \<and> dag_wf (bft_dag b) \<and> dag_stored b"

definition keeps_node_inv :: "'ts bft \<Rightarrow> 'ts bft \<Rightarrow> bool" where
  "keeps_node_inv b b' \<longleftrightarrow> (node_inv b \<longrightarrow> node_inv b')"

lemma node_inv_storage:
  assumes "storage_step E (bft_storage b) s"
  shows "keeps_node_inv b (b\<lparr>bft_storage := s\<rparr>)"
proof -
  have "dag_stored (b\<lparr>bft_storage := s\<rparr>)" if inv: "node_inv b"
  proof -
    have st: "storage_inv (bft_storage b)" and wf: "dag_wf (bft_dag b)" using inv by (simp_all add: node_inv_def)
    have "get_certificate s (cert_id c) = Some c"
      if v: "vertex (bft_dag b) r a = Some c" and gc: "st_gc_round s < r" for r a c
    proof -
      have "st_gc_round (bft_storage b) < r" using storage_step_monotone [OF assms st] gc by simp
      then have "certs (bft_storage b) (cert_id c) = Some c"
        using inv v by (simp add: node_inv_def dag_stored_def get_certificate_def)
      then show ?thesis
        using storage_step_certs [OF assms st, of "cert_id c" c] vertex_round_author [OF wf v] gc
        by (auto simp: get_certificate_def)
    qed
    then show ?thesis by (simp add: dag_stored_def)
  qed
  then show ?thesis
    using storage_step_inv [OF assms] by (auto simp: keeps_node_inv_def node_inv_def)
qed

interpretation stored: node_boot_relation P keeps_node_inv for P :: "'ts primary_params"
proof (unfold_locales, goal_cases)
  case (3 b s)
  then show ?case by (rule node_inv_storage)
next
  case (4 b c)
  then show ?case
    by (auto simp: keeps_node_inv_def node_inv_def dag_stored_def dag_wf_insert vertex_insert split: if_splits)
next
  case (5 b c g)
  then show ?case
    by (auto simp: keeps_node_inv_def node_inv_def dag_stored_def dag_wf_commit vertex_commit split: if_splits)
qed (auto simp: keeps_node_inv_def node_inv_def dag_stored_def set_workers_def)

text \<open>The handlers of the workers and of consensus leave the other fields of the primary alone.\<close>

definition same_lock :: "'ts bft \<Rightarrow> 'ts bft \<Rightarrow> bool" where
  "same_lock b b' \<longleftrightarrow> pm_propose_lock (bft_primary b') = pm_propose_lock (bft_primary b)"

lemma same_lock_process:
  "same_lock b (snd (process_unconfirmed_solution P i d b))" "same_lock b (snd (process_unconfirmed_transaction P j e b))"
  by (auto simp: same_lock_def process_unconfirmed_solution_def process_unconfirmed_transaction_def
      process_on_worker_def set_workers_def Let_def split: option.splits sum.splits prod.splits)

lemma same_lock_reinsert: "same_lock b (snd (reinsert_transmission P t x b))"
  using same_lock_process [of b P]
  by (cases "(P, t, x, b)" rule: reinsert_transmission.cases) (auto simp: same_lock_def split_beta Let_def)

lemma same_lock_reinserts: "same_lock b (reinsert_transmissions P ts b)"
proof -
  have "same_lock b (foldl (\<lambda>b (t, x). snd (reinsert_transmission P t x b)) b ts)" for b
  proof (induction ts arbitrary: b)
    case (Cons e ts)
    obtain t x where e: "e = (t, x)" by (cases e)
    show ?case
      using Cons [of "snd (reinsert_transmission P t x b)"] same_lock_reinsert [of b P t x]
      by (simp add: same_lock_def e)
  qed (simp add: same_lock_def)
  then show ?thesis by (simp add: reinsert_transmissions_def)
qed

lemma same_lock_consensus:
  assumes "process_bft_subdag C b sd ts = (reply, L, p, q)"
  shows "pm_propose_lock p = pm_propose_lock (bft_primary b)"
proof -
  obtain x b1 where a: "try_advance_to_next_block C sd ts b = (x, b1)" by fastforce
  then have "same_lock b b1"
    by (auto simp: try_advance_to_next_block_def same_lock_def clear_worker_solutions_def Let_def
        split: option.splits sum.splits if_splits)
  then show ?thesis
    using assms a same_lock_reinserts [of b1 "cn_primary C" ts]
    by (auto simp: process_bft_subdag_def same_lock_def Let_def split: sum.splits)
qed

definition lock_grows :: "'ts bft \<Rightarrow> 'ts bft \<Rightarrow> bool" where
  "lock_grows b b' \<longleftrightarrow> pm_propose_lock (bft_primary b) \<le> pm_propose_lock (bft_primary b')"

interpretation lock: node_relation "node_params C" lock_grows for C :: "'ts consensus_params"
proof (unfold_locales, goal_cases)
  case (9 b sd ts reply L p q)
  then show ?case
    using same_lock_consensus [of C b sd ts reply L p q] by (simp add: lock_grows_def node_params_def)
qed (auto simp: lock_grows_def set_workers_def)

end
