(* ===== verification/Genesis.thy ===== *)
theory Genesis
  imports Samples
begin

text \<open>
  The development accounts and the genesis block (\<open>get_node_account\<close>, \<open>get_genesis\<close> and
  \<open>load_or_compute_genesis\<close>, \<open>api/src/api/api_helpers.rs\<close>). The random generator, the keys,
  the committee constructor, the byte formats, the hash and the VM of snarkVM are
  parameters, as are the blocks that ship with the node. The lemmas show that the
  starting supply is allotted without remainder or overflow and that a computed block is
  found again by later starts.
\<close>

section \<open>Parameters\<close>

definition DEVELOPMENT_MODE_RNG_SEED :: nat where
  "DEVELOPMENT_MODE_RNG_SEED = 1234567890"

definition DEVELOPMENT_MODE_NUM_GENESIS_COMMITTEE_MEMBERS :: nat where
  "DEVELOPMENT_MODE_NUM_GENESIS_COMMITTEE_MEMBERS = 4"

record network_ids =
  ni_mainnet :: nat
  ni_testnet :: nat
  ni_canary :: nat

datatype verifier =
    BondValidatorVerifier | BondPublicVerifier | UnbondPublicVerifier | ClaimUnbondPublicVerifier
  | SetValidatorStateVerifier | TransferPrivateVerifier | TransferPublicVerifier
  | TransferPrivateToPublicVerifier | TransferPublicToPrivateVerifier | FeePrivateVerifier
  | FeePublicVerifier | InclusionVerifier

text \<open>A member has a stake, whether it accepts delegation, and a commission. A bonded balance names the
  validator, the withdrawal address and the amount.\<close>

type_synonym members = "(address, nat \<times> bool \<times> nat) imap"
type_synonym bonded = "(address, address \<times> address \<times> nat) imap"

record ('rng, 'key) genesis_params =
  gp_ids :: network_ids
  gp_id :: nat
  gp_starting_supply :: nat
  gp_min_validator_stake :: nat
  gp_seed :: "nat \<Rightarrow> 'rng"
  gp_private_key :: "'rng \<Rightarrow> ('key \<times> 'rng) option"
  gp_address :: "'key \<Rightarrow> address option"
  gp_gen_range :: "'rng \<Rightarrow> nat \<times> 'rng"
  gp_committee_new :: "nat \<Rightarrow> members \<Rightarrow> committee option"
  gp_total_stake :: "committee \<Rightarrow> nat"
  gp_target_bytes :: "bytes option"
  gp_proof_target_bytes :: "bytes option"
  gp_key_bytes :: "'key \<Rightarrow> bytes option"
  gp_committee_bytes :: "committee \<Rightarrow> bytes option"
  gp_public_bytes :: "(address \<times> nat) list \<Rightarrow> bytes option"
  gp_bonded_bytes :: "(address \<times> address \<times> address \<times> nat) list \<Rightarrow> bytes option"
  gp_metadata :: "nat \<Rightarrow> verifier \<Rightarrow> bytes"
  gp_block0 :: "nat \<Rightarrow> bytes"
  gp_block0_id :: "nat \<Rightarrow> string"
  gp_hash :: "bytes \<Rightarrow> string option"
  gp_block_read :: "bytes \<Rightarrow> block option"
  gp_block_bytes :: "block \<Rightarrow> bytes option"
  gp_genesis_quorum :: "'key \<Rightarrow> committee \<Rightarrow> (address, nat) imap \<Rightarrow> bonded \<Rightarrow> 'rng \<Rightarrow> block option"
  gp_write_ok :: "string \<Rightarrow> bool"

datatype genesis_error =
    KeyFailed
  | AddressFailed
  | StakeTooLow
  | CommitteeFailed
  | WrongCommitteeSize
  | SupplyMismatch
  | NoPublicBalances
  | ToBytesFailed
  | UnrecognizedNetwork
  | GenesisHashFailed
  | EmbeddedBlockFailed
  | GenesisQuorumFailed
  | GenesisWriteFailed

section \<open>Accounts\<close>

fun private_keys :: "('rng, 'key) genesis_params \<Rightarrow> nat \<Rightarrow> 'rng \<Rightarrow> (genesis_error, 'key list \<times> 'rng) result" where
  "private_keys G 0 rng = Inr ([], rng)"
| "private_keys G (Suc n) rng =
     (case gp_private_key G rng of
        None \<Rightarrow> Inl KeyFailed
      | Some (k, rng') \<Rightarrow> rbind (private_keys G n rng') (\<lambda>(ks, rng''). Inr (k # ks, rng'')))"

fun collect_addresses :: "('rng, 'key) genesis_params \<Rightarrow> 'key list \<Rightarrow> (genesis_error, address list) result" where
  "collect_addresses G [] = Inr []"
| "collect_addresses G (k # ks) =
     rbind (ok_or AddressFailed (gp_address G k)) (\<lambda>a. rbind (collect_addresses G ks) (\<lambda>as. Inr (a # as)))"

definition get_node_account :: "('rng, 'key) genesis_params \<Rightarrow> (genesis_error, address) result" where
  "get_node_account G =
     (case gp_private_key G (gp_seed G DEVELOPMENT_MODE_RNG_SEED) of
        None \<Rightarrow> Inl KeyFailed
      | Some (k, _) \<Rightarrow> ok_or AddressFailed (gp_address G k))"

section \<open>Stakes and balances\<close>

fun draw_members ::
  "('rng, 'key) genesis_params \<Rightarrow> nat \<Rightarrow> address list \<Rightarrow> 'rng \<Rightarrow> members \<Rightarrow> members \<times> 'rng" where
  "draw_members G stake [] rng acc = (acc, rng)"
| "draw_members G stake (a # as) rng acc =
     (let (commission, rng') = gp_gen_range G rng
      in draw_members G stake as rng' (imap_insert a (stake, True, commission) acc))"

definition bonded_balances :: "members \<Rightarrow> bonded" where
  "bonded_balances ms = map (\<lambda>(a, s, _, _). (a, a, a, s)) ms"

text \<open>The committee with its bonded balances, and the rest of the supply spread over the validators.\<close>

definition genesis_committee ::
  "('rng, 'key) genesis_params \<Rightarrow> address list \<Rightarrow> 'rng \<Rightarrow> (genesis_error, committee \<times> bonded \<times> 'rng) result" where
  "genesis_committee G addresses rng =
     (let stake = gp_starting_supply G div 2 div DEVELOPMENT_MODE_NUM_GENESIS_COMMITTEE_MEMBERS in
      if \<not> stake \<ge> gp_min_validator_stake G then Inl StakeTooLow
      else let (ms, rng') = draw_members G stake addresses rng []
           in rbind (ok_or CommitteeFailed (gp_committee_new G 0 ms)) (\<lambda>com. Inr (com, bonded_balances ms, rng')))"

fun add_leftover :: "nat \<Rightarrow> (address, nat) imap \<Rightarrow> (genesis_error, (address, nat) imap) result" where
  "add_leftover leftover [] = Inl NoPublicBalances"
| "add_leftover leftover ((a, x) # ps) = Inr ((a, u64_add x leftover) # ps)"

definition genesis_public_balances ::
  "('rng, 'key) genesis_params \<Rightarrow> committee \<Rightarrow> address list \<Rightarrow> (genesis_error, (address, nat) imap) result" where
  "genesis_public_balances G com addresses =
     (let remaining = gp_starting_supply G - gp_total_stake G com;
          per_validator = remaining div DEVELOPMENT_MODE_NUM_GENESIS_COMMITTEE_MEMBERS;
          balances = fold (\<lambda>a m. imap_insert a per_validator m) addresses [];
          leftover = remaining - u64_mul per_validator DEVELOPMENT_MODE_NUM_GENESIS_COMMITTEE_MEMBERS
      in rbind (if leftover > 0 then add_leftover leftover balances else Inr balances) (\<lambda>balances.
           let sum = foldl u64_add 0 (map snd balances)
           in if u64_add (gp_total_stake G com) sum \<noteq> gp_starting_supply G then Inl SupplyMismatch
              else Inr balances))"

section \<open>The genesis block\<close>

definition verifiers :: "verifier list" where
  "verifiers =
     [BondValidatorVerifier, BondPublicVerifier, UnbondPublicVerifier, ClaimUnbondPublicVerifier,
      SetValidatorStateVerifier, TransferPrivateVerifier, TransferPublicVerifier,
      TransferPrivateToPublicVerifier, TransferPublicToPrivateVerifier, FeePrivateVerifier,
      FeePublicVerifier, InclusionVerifier]"

definition genesis_preimage ::
  "('rng, 'key) genesis_params \<Rightarrow> 'key \<Rightarrow> committee \<Rightarrow> (address, nat) imap \<Rightarrow> bonded \<Rightarrow> (genesis_error, bytes) result" where
  "genesis_preimage G key com public bonded =
     rbind (ok_or ToBytesFailed (gp_target_bytes G)) (\<lambda>target.
     rbind (ok_or ToBytesFailed (gp_proof_target_bytes G)) (\<lambda>proof_target.
     rbind (ok_or ToBytesFailed (gp_key_bytes G key)) (\<lambda>kb.
     rbind (ok_or ToBytesFailed (gp_committee_bytes G com)) (\<lambda>cb.
     rbind (ok_or ToBytesFailed (gp_public_bytes G public)) (\<lambda>pb.
     rbind (ok_or ToBytesFailed (gp_bonded_bytes G bonded)) (\<lambda>bb.
       if gp_id G \<in> {ni_mainnet (gp_ids G), ni_testnet (gp_ids G), ni_canary (gp_ids G)}
       then Inr ([gp_id G mod 256, gp_id G div 256] @ target @ proof_target @ kb @ cb @ pb @ bb @
                 concat (map (gp_metadata G (gp_id G)) verifiers))
       else Inl UnrecognizedNetwork))))))"

text \<open>\<open>fs\<close> holds the files of the temporary folder.\<close>

definition load_or_compute_genesis ::
  "('rng, 'key) genesis_params \<Rightarrow> 'key \<Rightarrow> committee \<Rightarrow> (address, nat) imap \<Rightarrow> bonded \<Rightarrow> 'rng \<Rightarrow> (string \<rightharpoonup> bytes) \<Rightarrow>
   (genesis_error, block) result \<times> (string \<rightharpoonup> bytes)" where
  "load_or_compute_genesis G key com public bonded rng fs =
     (case rbind (genesis_preimage G key com public bonded) (\<lambda>pre. ok_or GenesisHashFailed (gp_hash G pre)) of
        Inl e \<Rightarrow> (Inl e, fs)
      | Inr hash \<Rightarrow>
          if hash = gp_block0_id G (gp_id G)
          then (ok_or EmbeddedBlockFailed (gp_block_read G (gp_block0 G (gp_id G))), fs)
          else case Option.bind (fs hash) (gp_block_read G) of
            Some blk \<Rightarrow> (Inr blk, fs)
          | None \<Rightarrow>
              (case gp_genesis_quorum G key com public bonded rng of
                 None \<Rightarrow> (Inl GenesisQuorumFailed, fs)
               | Some blk \<Rightarrow>
                   (case gp_block_bytes G blk of
                      None \<Rightarrow> (Inl ToBytesFailed, fs)
                    | Some bs \<Rightarrow>
                        if gp_write_ok G hash then (Inr blk, fs(hash \<mapsto> bs)) else (Inl GenesisWriteFailed, fs))))"

definition genesis_inputs ::
  "('rng, 'key) genesis_params \<Rightarrow>
   (genesis_error, 'key \<times> committee \<times> (address, nat) imap \<times> bonded \<times> 'rng) result" where
  "genesis_inputs G =
     rbind (private_keys G DEVELOPMENT_MODE_NUM_GENESIS_COMMITTEE_MEMBERS (gp_seed G DEVELOPMENT_MODE_RNG_SEED))
       (\<lambda>(keys, rng).
     rbind (collect_addresses G keys) (\<lambda>addresses.
     rbind (genesis_committee G addresses rng) (\<lambda>(com, bonded, rng).
       if length (com_members com) \<noteq> DEVELOPMENT_MODE_NUM_GENESIS_COMMITTEE_MEMBERS then Inl WrongCommitteeSize
       else rbind (genesis_public_balances G com addresses) (\<lambda>public. Inr (hd keys, com, public, bonded, rng)))))"

definition get_genesis ::
  "('rng, 'key) genesis_params \<Rightarrow> (string \<rightharpoonup> bytes) \<Rightarrow> (genesis_error, block) result \<times> (string \<rightharpoonup> bytes)" where
  "get_genesis G fs =
     (case genesis_inputs G of
        Inl e \<Rightarrow> (Inl e, fs)
      | Inr (key, com, public, bonded, rng) \<Rightarrow> load_or_compute_genesis G key com public bonded rng fs)"

section \<open>Lemmas\<close>

lemma private_keys_length: "private_keys G n rng = Inr (ks, rng') \<Longrightarrow> length ks = n"
  by (induction n arbitrary: rng ks) (auto simp: rbind_Inr_iff split: option.splits)

lemma private_keys_hd:
  "private_keys G (Suc n) rng = Inr (ks, rng') \<Longrightarrow> \<exists>r. gp_private_key G rng = Some (hd ks, r)"
  by (auto simp: rbind_Inr_iff split: option.splits)

lemma collect_addresses_hd:
  "collect_addresses G ks = Inr as \<Longrightarrow> ks \<noteq> [] \<Longrightarrow> gp_address G (hd ks) = Some (hd as) \<and> as \<noteq> []"
  by (cases ks) (auto simp: rbind_Inr_iff ok_or_def split: option.splits)

lemma draw_members_keys:
  assumes "draw_members G stake as rng acc = (ms, rng')"
  shows "acc \<noteq> [] \<Longrightarrow> ms \<noteq> [] \<and> fst (hd ms) = fst (hd acc)"
  using assms
proof (induction as arbitrary: rng acc)
  case (Cons a as)
  obtain c rng1 where g: "gp_gen_range G rng = (c, rng1)" by (cases "gp_gen_range G rng")
  have "imap_insert a (stake, True, c) acc \<noteq> [] \<and> fst (hd (imap_insert a (stake, True, c) acc)) = fst (hd acc)"
    using Cons.prems(1) by (cases acc) auto
  then show ?case using Cons.IH [of "imap_insert a (stake, True, c) acc" rng1] Cons.prems by (simp add: g)
qed simp

lemma draw_members_distinct:
  assumes "draw_members G stake as rng acc = (ms, rng')" "distinct (map fst acc @ as)"
  shows "imap_keys ms = map fst acc @ as \<and>
    map (\<lambda>e. fst (snd e)) ms = map (\<lambda>e. fst (snd e)) acc @ replicate (length as) stake"
  using assms
proof (induction as arbitrary: rng acc)
  case (Cons a as)
  obtain c rng1 where g: "gp_gen_range G rng = (c, rng1)" by (cases "gp_gen_range G rng")
  have "a \<notin> fst ` set acc" using Cons.prems(2) by auto
  then have "draw_members G stake as rng1 (acc @ [(a, stake, True, c)]) = (ms, rng')"
    using Cons.prems(1) by (simp add: g update_fresh)
  from Cons.IH [OF this] Cons.prems(2) show ?case by auto
qed simp

lemma foldl_u64_add: "k + sum_list xs < 2 ^ 64 \<Longrightarrow> foldl u64_add k xs = k + sum_list xs"
proof (induction xs arbitrary: k)
  case (Cons x xs)
  then have "u64_add k x = k + x" by simp
  then show ?case using Cons by (simp add: add.assoc)
qed simp

lemma fold_insert_fresh:
  assumes "distinct (map fst acc @ as)"
  shows "fold (\<lambda>a m. imap_insert a v m) as acc = acc @ map (\<lambda>a. (a, v)) as"
  using assms
proof (induction as arbitrary: acc)
  case (Cons a as)
  then have "a \<notin> fst ` set acc" by auto
  then show ?case using Cons.IH [of "acc @ [(a, v)]"] Cons.prems by (simp add: update_fresh)
qed simp

lemma genesis_public_balances_exact:
  assumes "gp_starting_supply G < 2 ^ 64" "gp_total_stake G com \<le> gp_starting_supply G"
    and as: "distinct addresses" "length addresses = 4"
  defines "remaining \<equiv> gp_starting_supply G - gp_total_stake G com"
  shows "genesis_public_balances G com addresses =
    Inr ((hd addresses, remaining div 4 + remaining mod 4) # map (\<lambda>a. (a, remaining div 4)) (tl addresses))"
proof -
  obtain a b c d where abcd: "addresses = [a, b, c, d]"
    using as(2) by (auto simp: numeral_eq_Suc length_Suc_conv)
  have small: "remaining < 2 ^ 64" using assms(1) by (simp add: remaining_def)
  have lo: "remaining - u64_mul (remaining div 4) 4 = remaining mod 4"
    using small by (simp add: u64_mul_def minus_div_mult_eq_mod [symmetric])
  have q: "fold (\<lambda>a. imap_insert a (remaining div 4)) addresses [] = map (\<lambda>a. (a, remaining div 4)) addresses"
    using fold_insert_fresh [of "[]" addresses "remaining div 4"] as(1) by simp
  let ?xs = "(hd addresses, remaining div 4 + remaining mod 4) # map (\<lambda>a. (a, remaining div 4)) (tl addresses)"
  have le: "remaining div 4 + remaining mod 4 \<le> remaining"
    using mult_div_mod_eq [of 4 remaining] by linarith
  have add: "u64_add (remaining div 4) (remaining mod 4) = remaining div 4 + remaining mod 4"
    by (rule u64_add_exact [OF le_less_trans [OF le small]])
  have step: "(if remaining mod 4 > 0 then add_leftover (remaining mod 4) (map (\<lambda>a. (a, remaining div 4)) addresses)
      else Inr (map (\<lambda>a. (a, remaining div 4)) addresses)) = Inr ?xs"
    using add by (simp add: abcd)
  have sum: "sum_list (map snd ?xs) = remaining"
    by (simp add: abcd) (use mult_div_mod_eq [of 4 remaining] in linarith)
  have total: "gp_total_stake G com + remaining = gp_starting_supply G" using assms(2) by (simp add: remaining_def)
  have folded: "foldl u64_add 0 (map snd ?xs) = remaining"
    using foldl_u64_add [of 0 "map snd ?xs"] sum small by simp
  have "u64_add (gp_total_stake G com) remaining = gp_starting_supply G" using total assms(1) by simp
  then show ?thesis
    unfolding genesis_public_balances_def remaining_def [symmetric] Let_def
      DEVELOPMENT_MODE_NUM_GENESIS_COMMITTEE_MEMBERS_def lo q step
    using folded by simp
qed

text \<open>What the committee constructor of snarkVM promises: it keeps the members in order, and the total stake is the
  sum of their stakes.\<close>

definition committee_law :: "('rng, 'key) genesis_params \<Rightarrow> bool" where
  "committee_law G \<longleftrightarrow> (\<forall>ms com. gp_committee_new G 0 ms = Some com \<longrightarrow>
     com_members com = imap_keys ms \<and> gp_total_stake G com = sum_list (map (\<lambda>e. fst (snd e)) ms))"

lemma genesis_committee_stakes:
  assumes "committee_law G" "distinct addresses" "length addresses = 4"
    and "genesis_committee G addresses rng = Inr (com, bonded, rng')"
  shows "com_members com = addresses \<and> gp_total_stake G com = 4 * (gp_starting_supply G div 2 div 4) \<and>
    sum_list (map (\<lambda>e. snd (snd (snd e))) bonded) = gp_total_stake G com \<and>
    gp_total_stake G com \<le> gp_starting_supply G"
proof -
  let ?stake = "gp_starting_supply G div 2 div 4"
  obtain ms r where d: "draw_members G ?stake addresses rng [] = (ms, r)" by fastforce
  then have com: "gp_committee_new G 0 ms = Some com" and b: "bonded = bonded_balances ms"
    using assms(4) by (auto simp: genesis_committee_def DEVELOPMENT_MODE_NUM_GENESIS_COMMITTEE_MEMBERS_def Let_def
        rbind_Inr_iff ok_or_def split: if_splits option.splits)
  have ms: "imap_keys ms = addresses" "map (\<lambda>e. fst (snd e)) ms = replicate 4 ?stake"
    using draw_members_distinct [OF d] assms(2,3) by simp_all
  have "map (\<lambda>e. snd (snd (snd e))) bonded = map (\<lambda>e. fst (snd e)) ms"
    by (auto simp: b bonded_balances_def)
  moreover have "4 * ?stake \<le> gp_starting_supply G"
    using div_times_less_eq_dividend [of "gp_starting_supply G div 2" 4] div_le_dividend [of "gp_starting_supply G" 2]
    by linarith
  ultimately show ?thesis
    using com assms(1) ms by (simp add: committee_law_def sum_list_replicate)
qed

section \<open>Properties\<close>

text \<open>C33: the genesis balances account for the whole starting supply. Whenever the committee of the four development
  addresses can be made, the public balances are found without overflow and without the final check failing:
  every address gets one, the stakes and the balances sum to the supply, the bonded balances sum to the stakes,
  and no two balances differ by more than the three units that four do not divide.\<close>

theorem genesis_allots_supply:
  assumes "gp_starting_supply G < 2 ^ 64" "committee_law G" "distinct addresses" "length addresses = 4"
    and "genesis_committee G addresses rng = Inr (com, bonded, rng')"
  shows "\<exists>public. genesis_public_balances G com addresses = Inr public \<and> imap_keys public = addresses \<and>
    gp_total_stake G com + sum_list (map snd public) = gp_starting_supply G \<and>
    sum_list (map (\<lambda>e. snd (snd (snd e))) bonded) = gp_total_stake G com \<and>
    (\<forall>x \<in> set (map snd public). \<forall>y \<in> set (map snd public). x \<le> y + 3)"
proof -
  note stakes = genesis_committee_stakes [OF assms(2-5)]
  define rem where "rem = gp_starting_supply G - gp_total_stake G com"
  let ?public = "(hd addresses, rem div 4 + rem mod 4) # map (\<lambda>a. (a, rem div 4)) (tl addresses)"
  obtain a b c d where abcd: "addresses = [a, b, c, d]"
    using assms(4) by (auto simp: numeral_eq_Suc length_Suc_conv)
  have "genesis_public_balances G com addresses = Inr ?public"
    using genesis_public_balances_exact [OF assms(1) _ assms(3,4)] stakes unfolding rem_def by blast
  moreover have "gp_total_stake G com + sum_list (map snd ?public) = gp_starting_supply G"
    using mult_div_mod_eq [of 4 rem] stakes by (simp add: abcd rem_def)
  moreover have "rem mod 4 \<le> 3" using mod_less_divisor [of 4 rem] by linarith
  ultimately show ?thesis using stakes by (auto simp: abcd)
qed

text \<open>The genesis block is stable: once a start has found or computed it, every later start with the same files
  gets the same block and leaves the files as they are, whether the block is embedded, was read from the
  temporary folder, or had to be computed and written.\<close>

theorem genesis_block_stable:
  assumes "\<And>blk bs. gp_block_bytes G blk = Some bs \<Longrightarrow> gp_block_read G bs = Some blk"
    and "get_genesis G fs = (Inr blk, fs')"
  shows "get_genesis G fs' = (Inr blk, fs')"
  using assms(2)
  by (auto simp: get_genesis_def load_or_compute_genesis_def ok_or_def assms(1)
      split: sum.splits option.splits if_splits bind_splits)

text \<open>The account of the node is the first member of the genesis committee.\<close>

theorem node_account_leads_committee:
  assumes "committee_law G" "genesis_inputs G = Inr (key, com, public, bonded, rng)"
  shows "get_node_account G = Inr (hd (com_members com)) \<and> length (com_members com) = 4"
proof -
  let ?rng = "gp_seed G DEVELOPMENT_MODE_RNG_SEED"
  obtain ks r1 as r2 where ks: "private_keys G 4 ?rng = Inr (ks, r1)" and as: "collect_addresses G ks = Inr as"
    and com: "genesis_committee G as r1 = Inr (com, bonded, r2)" and len: "length (com_members com) = 4"
    using assms(2)
    by (auto simp: genesis_inputs_def rbind_Inr_iff DEVELOPMENT_MODE_NUM_GENESIS_COMMITTEE_MEMBERS_def split: if_splits)
  have ne: "ks \<noteq> []" using private_keys_length [OF ks] by auto
  obtain r where k: "gp_private_key G ?rng = Some (hd ks, r)"
    using private_keys_hd [of G 3 ?rng ks r1] ks by (auto simp: numeral_eq_Suc)
  note addr = collect_addresses_hd [OF as ne]
  obtain a as' where cons: "as = a # as'" using addr by (cases as) auto
  obtain ms r3 where d: "draw_members G (gp_starting_supply G div 2 div 4) as r1 [] = (ms, r3)" by fastforce
  then have "gp_committee_new G 0 ms = Some com"
    using com by (auto simp: genesis_committee_def DEVELOPMENT_MODE_NUM_GENESIS_COMMITTEE_MEMBERS_def Let_def
        rbind_Inr_iff ok_or_def split: if_splits option.splits)
  then have keys: "com_members com = imap_keys ms" using assms(1) by (simp add: committee_law_def)
  have "ms \<noteq> [] \<and> fst (hd ms) = a"
    using d draw_members_keys [of G _ as' _ "[(a, _)]" ms r3] by (auto simp: cons split_beta Let_def)
  then show ?thesis
    using k addr len keys by (simp add: get_node_account_def ok_or_def cons hd_map)
qed

section \<open>Witnesses\<close>

text \<open>Keys are numbered, a key is its address, and blocks are numbered by height.\<close>

definition sample_genesis :: "(nat, nat) genesis_params" where
  "sample_genesis =
     \<lparr>gp_ids = \<lparr>ni_mainnet = 0, ni_testnet = 1, ni_canary = 2\<rparr>, gp_id = 1, gp_starting_supply = 103,
      gp_min_validator_stake = 10, gp_seed = (\<lambda>_. 1), gp_private_key = (\<lambda>r. Some (r, Suc r)), gp_address = Some,
      gp_gen_range = (\<lambda>r. (r mod 100, Suc r)),
      gp_committee_new = (\<lambda>_ ms. Some (sample_committee\<lparr>com_members := imap_keys ms,
        com_stake := (\<lambda>a. case map_of ms a of None \<Rightarrow> 0 | Some (s, _) \<Rightarrow> s),
        com_id := sum_list (map (\<lambda>e. fst (snd e)) ms)\<rparr>)),
      gp_total_stake = com_id, gp_target_bytes = Some [], gp_proof_target_bytes = Some [],
      gp_key_bytes = (\<lambda>k. Some [k]), gp_committee_bytes = (\<lambda>_. Some []), gp_public_bytes = (\<lambda>_. Some []),
      gp_bonded_bytes = (\<lambda>_. Some []), gp_metadata = (\<lambda>_ _. []), gp_block0 = (\<lambda>_. []), gp_block0_id = (\<lambda>_. ''id''),
      gp_hash = (\<lambda>_. Some ''hash''),
      gp_block_read = (\<lambda>bs. case bs of [h] \<Rightarrow> Some (sample_block h) | _ \<Rightarrow> None),
      gp_block_bytes = (\<lambda>b. if b = sample_block (blk_height b) then Some [blk_height b] else None),
      gp_genesis_quorum = (\<lambda>_ _ _ _ _. Some (sample_block 0)), gp_write_ok = (\<lambda>_. True)\<rparr>"

lemma sample_genesis_law: "committee_law sample_genesis"
  by (simp add: committee_law_def sample_genesis_def)

lemma sample_genesis_committee:
  "\<exists>com bonded rng. genesis_committee sample_genesis [1, 2, 3, 4] 5 = Inr (com, bonded, rng) \<and> com_id com = 48"
  by (simp add: genesis_committee_def sample_genesis_def DEVELOPMENT_MODE_NUM_GENESIS_COMMITTEE_MEMBERS_def ok_or_def)

theorem genesis_allots_supply_witness:
  "\<exists>com public. gp_total_stake sample_genesis com = 48 \<and>
     genesis_public_balances sample_genesis com [1, 2, 3, 4] = Inr public \<and> sum_list (map snd public) = 55"
proof -
  obtain com bonded rng where c: "genesis_committee sample_genesis [1, 2, 3, 4] 5 = Inr (com, bonded, rng)"
    and t: "com_id com = 48" using sample_genesis_committee by blast
  have s: "gp_total_stake sample_genesis com = 48" "gp_starting_supply sample_genesis = 103"
    using t by (simp_all add: sample_genesis_def)
  show ?thesis
    using genesis_allots_supply [OF _ sample_genesis_law _ _ c] s by auto
qed

lemma sample_genesis_keys: "private_keys sample_genesis 4 1 = Inr ([1, 2, 3, 4], 5)"
proof -
  have four: "(4 :: nat) = Suc (Suc (Suc (Suc 0)))" by simp
  show ?thesis unfolding four by (simp add: sample_genesis_def)
qed

lemma sample_genesis_inputs:
  "\<exists>com public bonded rng. genesis_inputs sample_genesis = Inr (1, com, public, bonded, rng)"
proof -
  obtain com bonded rng where c: "genesis_committee sample_genesis [1, 2, 3, 4] 5 = Inr (com, bonded, rng)"
    using sample_genesis_committee by blast
  have small: "gp_starting_supply sample_genesis < 2 ^ 64" by (simp add: sample_genesis_def)
  note stakes = genesis_committee_stakes [OF sample_genesis_law _ _ c]
  obtain public where p: "genesis_public_balances sample_genesis com [1, 2, 3, 4] = Inr public"
    using genesis_public_balances_exact [OF small, of com "[1, 2, 3, 4]"] stakes by auto
  have addresses: "collect_addresses sample_genesis [1, 2, 3, 4] = Inr [1, 2, 3, 4]"
    by (simp add: sample_genesis_def ok_or_def)
  have seed: "gp_seed sample_genesis n = 1" for n by (simp add: sample_genesis_def)
  show ?thesis
    unfolding genesis_inputs_def seed DEVELOPMENT_MODE_NUM_GENESIS_COMMITTEE_MEMBERS_def sample_genesis_keys
    using stakes by (simp add: addresses c p del: collect_addresses.simps One_nat_def)
qed

lemma sample_genesis_get:
  "get_genesis sample_genesis Map.empty = (Inr (sample_block 0), [''hash'' \<mapsto> [0]])"
  "get_genesis sample_genesis [''hash'' \<mapsto> [0]] = (Inr (sample_block 0), [''hash'' \<mapsto> [0]])"
proof -
  have "load_or_compute_genesis sample_genesis key com public bonded rng Map.empty =
      (Inr (sample_block 0), [''hash'' \<mapsto> [0]])"
    "load_or_compute_genesis sample_genesis key com public bonded rng [''hash'' \<mapsto> [0]] =
      (Inr (sample_block 0), [''hash'' \<mapsto> [0]])" for key com public bonded rng
    by (simp_all add: load_or_compute_genesis_def genesis_preimage_def sample_genesis_def ok_or_def sample_block_def)
  then show "get_genesis sample_genesis Map.empty = (Inr (sample_block 0), [''hash'' \<mapsto> [0]])"
    "get_genesis sample_genesis [''hash'' \<mapsto> [0]] = (Inr (sample_block 0), [''hash'' \<mapsto> [0]])"
    using sample_genesis_inputs by (auto simp: get_genesis_def)
qed

theorem genesis_block_stable_witness:
  "get_genesis sample_genesis [''hash'' \<mapsto> [0]] = (Inr (sample_block 0), [''hash'' \<mapsto> [0]])"
  by (rule genesis_block_stable [OF _ sample_genesis_get(1)]) (auto simp: sample_genesis_def split: if_splits)

theorem node_account_leads_committee_witness: "get_node_account sample_genesis = Inr 1"
proof -
  obtain com public bonded rng where i: "genesis_inputs sample_genesis = Inr (1, com, public, bonded, rng)"
    using sample_genesis_inputs by blast
  have "get_node_account sample_genesis = Inr 1" if "get_node_account sample_genesis = Inr (hd (com_members com))"
    using that by (simp add: get_node_account_def sample_genesis_def ok_or_def)
  then show ?thesis using node_account_leads_committee [OF sample_genesis_law i] by blast
qed

end
