(* ===== verification/Rest.thy ===== *)
theory Rest
  imports Node Genesis
begin

text \<open>
  The route handlers of the REST server (\<open>node/rest/src/routes.rs\<close>). A handler reads the
  snarkVM ledger that the server shares with consensus, or hands a transaction or a solution to
  consensus. The queries of snarkVM that no other component uses, the parsers of its types and
  those of the web framework are parameters; a body that snarkVM alone determines is opaque.
  Work that the code moves to a blocking task is done in place.
\<close>

section \<open>Parsing numbers\<close>

text \<open>\<open>str::parse::<u32>\<close> of the standard library: an optional plus sign and at least one digit, without overflow.\<close>

definition digit_value :: "char \<Rightarrow> nat option" where
  "digit_value c = (let n = of_char c :: nat in if 48 \<le> n \<and> n \<le> 57 then Some (n - 48) else None)"

fun parse_digits :: "nat \<Rightarrow> string \<Rightarrow> nat option" where
  "parse_digits acc [] = Some acc"
| "parse_digits acc (c # cs) =
     (case digit_value c of
        None \<Rightarrow> None
      | Some d \<Rightarrow> if 10 * acc + d < 2 ^ 32 then parse_digits (10 * acc + d) cs else None)"

definition parse_u32 :: "string \<Rightarrow> nat option" where
  "parse_u32 s =
     (let ds = (case s of [] \<Rightarrow> [] | c # cs \<Rightarrow> if c = CHR ''+'' then cs else s)
      in if ds = [] then None else parse_digits 0 ds)"

section \<open>Bodies, errors and parameters\<close>

text \<open>What \<open>ErasedJson::pretty\<close> renders.\<close>

datatype json =
    JNull
  | JNum nat
  | JString string
  | JField field
  | JAddress address
  | JBlock block
  | JCommittee committee
  | JTransaction transaction
  | JTransmissions "(transmission_id \<times> transmission) list"
  | JSolutions "(solution_id \<times> solution data) list"
  | JTransactions "(transaction_id \<times> transaction data) list"
  | JList "json list"
  | JObject "(string \<times> json) list"
  | JOpaque nat

datatype rest_error =
    NeitherHeightNorHash
  | InvalidBlockRange
  | TooManyBlocks nat
  | LedgerQueryFailed
  | RouteNotAvailable
  | AllRequired
  | MappingUnreadable
  | DelegatorsUnavailable
  | TransactionTooLarge
  | ConsensusRefused consensus_error
  | SolutionInvalid solution_id

fun json_option :: "('a \<Rightarrow> json) \<Rightarrow> 'a option \<Rightarrow> json" where
  "json_option f None = JNull"
| "json_option f (Some x) = f x"

text \<open>The queries of the snarkVM ledger; \<^const>\<open>None\<close> stands for its error, and the inner option is the one that the
  query returns.\<close>

record rest_queries =
  rq_latest_hash :: "snark_ledger \<Rightarrow> field"
  rq_latest_state_root :: "snark_ledger \<Rightarrow> field"
  rq_block_by_hash :: "snark_ledger \<Rightarrow> field \<Rightarrow> block option"
  rq_height_of_hash :: "snark_ledger \<Rightarrow> field \<Rightarrow> nat option"
  rq_header :: "snark_ledger \<Rightarrow> nat \<Rightarrow> json option"
  rq_transactions :: "snark_ledger \<Rightarrow> nat \<Rightarrow> json option"
  rq_transaction :: "snark_ledger \<Rightarrow> transaction_id \<Rightarrow> transaction option"
  rq_confirmed_transaction :: "snark_ledger \<Rightarrow> transaction_id \<Rightarrow> json option"
  rq_program :: "snark_ledger \<Rightarrow> nat \<Rightarrow> json option"
  rq_mapping_names :: "snark_ledger \<Rightarrow> nat \<Rightarrow> json option"
  rq_mapping_value :: "snark_ledger \<Rightarrow> nat \<Rightarrow> nat \<Rightarrow> nat \<Rightarrow> json option"
  rq_mapping :: "snark_ledger \<Rightarrow> nat \<Rightarrow> nat \<Rightarrow> json option"
  rq_state_path :: "snark_ledger \<Rightarrow> field \<Rightarrow> json option"
  rq_state_root :: "snark_ledger \<Rightarrow> nat \<Rightarrow> field option option"
  rq_committee :: "snark_ledger \<Rightarrow> nat \<Rightarrow> committee option option"
  rq_delegators :: "snark_ledger \<Rightarrow> address \<Rightarrow> address list option"
  rq_block_hash_of_transaction :: "snark_ledger \<Rightarrow> transaction_id \<Rightarrow> field option option"
  rq_height_of_state_root :: "snark_ledger \<Rightarrow> field \<Rightarrow> nat option option"
  rq_deployment_of_program :: "snark_ledger \<Rightarrow> nat \<Rightarrow> transaction_id option option"
  rq_transaction_of_transition :: "snark_ledger \<Rightarrow> field \<Rightarrow> transaction_id option option"
  rq_transition_of :: "snark_ledger \<Rightarrow> field \<Rightarrow> field option"
  rq_epoch_hash :: "snark_ledger \<Rightarrow> field option"
  rq_proof_target :: "snark_ledger \<Rightarrow> nat"
  rq_check_solution :: "snark_ledger \<Rightarrow> solution \<Rightarrow> field \<Rightarrow> nat \<Rightarrow> bool"

text \<open>\<open>rp_fits\<close> says whether a transaction can be written within the size limit of the network.\<close>

record 'ts rest_params =
  rp_consensus :: "'ts consensus_params"
  rp_queries :: rest_queries
  rp_fits :: "transaction \<Rightarrow> bool"

text \<open>The struct \<open>Rest\<close>: with consensus, the ledger is the one that consensus advances.\<close>

datatype 'ts backend = WithConsensus "'ts bft" | LedgerOnly snark_ledger

fun rest_ledger :: "'ts backend \<Rightarrow> snark_ledger" where
  "rest_ledger (WithConsensus b) = cl_ledger (bft_ledger b)"
| "rest_ledger (LedgerOnly l) = l"

text \<open>The struct \<open>Metadata\<close>.\<close>

record metadata =
  md_metadata :: "bool option"
  md_all :: "bool option"

definition ledger_query :: "('a \<Rightarrow> json) \<Rightarrow> 'a option \<Rightarrow> (rest_error, json) result" where
  "ledger_query f x = ok_or LedgerQueryFailed (map_option f x)"

section \<open>Blocks\<close>

definition rest_get_block_height_latest :: "snark_ledger \<Rightarrow> json" where
  "rest_get_block_height_latest l = JNum (sl_latest_height l)"

definition rest_get_block_hash_latest :: "rest_queries \<Rightarrow> snark_ledger \<Rightarrow> json" where
  "rest_get_block_hash_latest Q l = JField (rq_latest_hash Q l)"

definition rest_get_block_latest :: "snark_ledger \<Rightarrow> json" where
  "rest_get_block_latest l = JBlock (sl_latest_block l)"

definition rest_get_block ::
  "(string \<Rightarrow> field option) \<Rightarrow> rest_queries \<Rightarrow> snark_ledger \<Rightarrow> string \<Rightarrow> (rest_error, json) result" where
  "rest_get_block parse_hash Q l height_or_hash =
     (case parse_u32 height_or_hash of
        Some h \<Rightarrow> ledger_query JBlock (sl_get_block l h)
      | None \<Rightarrow>
          (case parse_hash height_or_hash of
             None \<Rightarrow> Inl NeitherHeightNorHash
           | Some i \<Rightarrow> ledger_query JBlock (rq_block_by_hash Q l i)))"

definition MAX_BLOCK_RANGE :: nat where
  "MAX_BLOCK_RANGE = 50"

fun rest_collect_blocks :: "snark_ledger \<Rightarrow> nat list \<Rightarrow> (rest_error, block list) result" where
  "rest_collect_blocks l [] = Inr []"
| "rest_collect_blocks l (h # hs) =
     rbind (ok_or LedgerQueryFailed (sl_get_block l h)) (\<lambda>b. rbind (rest_collect_blocks l hs) (\<lambda>bs. Inr (b # bs)))"

definition rest_get_blocks :: "snark_ledger \<Rightarrow> nat \<Rightarrow> nat \<Rightarrow> (rest_error, json) result" where
  "rest_get_blocks l start_height end_height =
     (if start_height > end_height then Inl InvalidBlockRange
      else if end_height - start_height > MAX_BLOCK_RANGE then Inl (TooManyBlocks (end_height - start_height))
      else rbind (rest_collect_blocks l [start_height..<end_height]) (\<lambda>bs. Inr (JList (map JBlock bs))))"

definition rest_get_height :: "rest_queries \<Rightarrow> snark_ledger \<Rightarrow> field \<Rightarrow> (rest_error, json) result" where
  "rest_get_height Q l i = ledger_query JNum (rq_height_of_hash Q l i)"

definition rest_get_block_header :: "rest_queries \<Rightarrow> snark_ledger \<Rightarrow> nat \<Rightarrow> (rest_error, json) result" where
  "rest_get_block_header Q l h = ledger_query id (rq_header Q l h)"

definition rest_get_block_transactions :: "rest_queries \<Rightarrow> snark_ledger \<Rightarrow> nat \<Rightarrow> (rest_error, json) result" where
  "rest_get_block_transactions Q l h = ledger_query id (rq_transactions Q l h)"

section \<open>Transactions and the memory pool\<close>

definition rest_get_transaction :: "rest_queries \<Rightarrow> snark_ledger \<Rightarrow> transaction_id \<Rightarrow> (rest_error, json) result" where
  "rest_get_transaction Q l i = ledger_query JTransaction (rq_transaction Q l i)"

definition rest_get_confirmed_transaction ::
  "rest_queries \<Rightarrow> snark_ledger \<Rightarrow> transaction_id \<Rightarrow> (rest_error, json) result" where
  "rest_get_confirmed_transaction Q l i = ledger_query id (rq_confirmed_transaction Q l i)"

definition rest_get_unconfirmed_transaction :: "snark_ledger \<Rightarrow> transaction_id \<Rightarrow> (rest_error, json) result" where
  "rest_get_unconfirmed_transaction l i = ledger_query JTransaction (sl_get_unconfirmed_transaction l i)"

text \<open>Collecting an iterator into an \<open>IndexMap\<close>.\<close>

definition imap_collect :: "('k \<times> 'v) list \<Rightarrow> ('k, 'v) imap" where
  "imap_collect xs = fold (\<lambda>(k, v). imap_insert k v) xs []"

definition rest_get_memory_pool_transmissions :: "crypto \<Rightarrow> 'ts backend \<Rightarrow> (rest_error, json) result" where
  "rest_get_memory_pool_transmissions K be =
     (case be of
        WithConsensus b \<Rightarrow> Inr (JTransmissions (imap_collect (unconfirmed_transmissions K b)))
      | LedgerOnly _ \<Rightarrow> Inl RouteNotAvailable)"

definition rest_get_memory_pool_solutions :: "'ts backend \<Rightarrow> (rest_error, json) result" where
  "rest_get_memory_pool_solutions be =
     (case be of
        WithConsensus b \<Rightarrow> Inr (JSolutions (imap_collect (unconfirmed_solutions b)))
      | LedgerOnly _ \<Rightarrow> Inl RouteNotAvailable)"

definition rest_get_memory_pool_transactions :: "'ts backend \<Rightarrow> (rest_error, json) result" where
  "rest_get_memory_pool_transactions be =
     (case be of
        WithConsensus b \<Rightarrow> Inr (JTransactions (imap_collect (unconfirmed_transactions b)))
      | LedgerOnly _ \<Rightarrow> Inl RouteNotAvailable)"

section \<open>Programs\<close>

definition rest_get_program :: "rest_queries \<Rightarrow> snark_ledger \<Rightarrow> nat \<Rightarrow> (rest_error, json) result" where
  "rest_get_program Q l p = ledger_query id (rq_program Q l p)"

definition rest_get_mapping_names :: "rest_queries \<Rightarrow> snark_ledger \<Rightarrow> nat \<Rightarrow> (rest_error, json) result" where
  "rest_get_mapping_names Q l p = ledger_query id (rq_mapping_names Q l p)"

definition with_height :: "snark_ledger \<Rightarrow> json \<Rightarrow> json" where
  "with_height l j = JObject [(''data'', j), (''height'', JNum (sl_latest_height l))]"

definition rest_get_mapping_value ::
  "rest_queries \<Rightarrow> snark_ledger \<Rightarrow> nat \<Rightarrow> nat \<Rightarrow> nat \<Rightarrow> metadata \<Rightarrow> (rest_error, json) result" where
  "rest_get_mapping_value Q l p name key md =
     rbind (ok_or LedgerQueryFailed (rq_mapping_value Q l p name key)) (\<lambda>j.
       Inr (if md_metadata md = Some True then with_height l j else j))"

definition rest_get_mapping_values ::
  "rest_queries \<Rightarrow> snark_ledger \<Rightarrow> nat \<Rightarrow> nat \<Rightarrow> metadata \<Rightarrow> (rest_error, json) result" where
  "rest_get_mapping_values Q l p name md =
     (if md_all md \<noteq> Some True then Inl AllRequired
      else case rq_mapping Q l p name of
        None \<Rightarrow> Inl MappingUnreadable
      | Some j \<Rightarrow> Inr (if md_metadata md = Some True then with_height l j else j))"

section \<open>State, committees, peers and searches\<close>

definition rest_get_state_path_for_commitment :: "rest_queries \<Rightarrow> snark_ledger \<Rightarrow> field \<Rightarrow> (rest_error, json) result" where
  "rest_get_state_path_for_commitment Q l c = ledger_query id (rq_state_path Q l c)"

definition rest_get_state_root_latest :: "rest_queries \<Rightarrow> snark_ledger \<Rightarrow> json" where
  "rest_get_state_root_latest Q l = JField (rq_latest_state_root Q l)"

definition rest_get_state_root :: "rest_queries \<Rightarrow> snark_ledger \<Rightarrow> nat \<Rightarrow> (rest_error, json) result" where
  "rest_get_state_root Q l h = ledger_query (json_option JField) (rq_state_root Q l h)"

definition rest_get_committee_latest :: "snark_ledger \<Rightarrow> (rest_error, json) result" where
  "rest_get_committee_latest l = ledger_query JCommittee (sl_latest_committee l)"

definition rest_get_committee :: "rest_queries \<Rightarrow> snark_ledger \<Rightarrow> nat \<Rightarrow> (rest_error, json) result" where
  "rest_get_committee Q l h = ledger_query (json_option JCommittee) (rq_committee Q l h)"

definition rest_get_delegators_for_validator :: "rest_queries \<Rightarrow> snark_ledger \<Rightarrow> address \<Rightarrow> (rest_error, json) result" where
  "rest_get_delegators_for_validator Q l v =
     ok_or DelegatorsUnavailable (map_option (\<lambda>ds. JList (map JAddress ds)) (rq_delegators Q l v))"

definition rest_get_peers_count :: json where
  "rest_get_peers_count = JNum 0"

definition rest_get_peers_all :: json where
  "rest_get_peers_all = JList []"

definition rest_get_peers_all_metrics :: json where
  "rest_get_peers_all_metrics = JList []"

definition rest_get_node_address :: json where
  "rest_get_node_address = JString ''''"

definition rest_find_block_hash :: "rest_queries \<Rightarrow> snark_ledger \<Rightarrow> transaction_id \<Rightarrow> (rest_error, json) result" where
  "rest_find_block_hash Q l i = ledger_query (json_option JField) (rq_block_hash_of_transaction Q l i)"

definition rest_find_block_height_from_state_root ::
  "rest_queries \<Rightarrow> snark_ledger \<Rightarrow> field \<Rightarrow> (rest_error, json) result" where
  "rest_find_block_height_from_state_root Q l r = ledger_query (json_option JNum) (rq_height_of_state_root Q l r)"

definition rest_find_transaction_id_from_program_id ::
  "rest_queries \<Rightarrow> snark_ledger \<Rightarrow> nat \<Rightarrow> (rest_error, json) result" where
  "rest_find_transaction_id_from_program_id Q l p = ledger_query (json_option JField) (rq_deployment_of_program Q l p)"

definition rest_find_transaction_id_from_transition_id ::
  "rest_queries \<Rightarrow> snark_ledger \<Rightarrow> field \<Rightarrow> (rest_error, json) result" where
  "rest_find_transaction_id_from_transition_id Q l i =
     ledger_query (json_option JField) (rq_transaction_of_transition Q l i)"

definition rest_find_transition_id :: "rest_queries \<Rightarrow> snark_ledger \<Rightarrow> field \<Rightarrow> (rest_error, json) result" where
  "rest_find_transition_id Q l i = ledger_query JField (rq_transition_of Q l i)"

section \<open>Broadcasts\<close>

definition rest_transaction_broadcast ::
  "'ts rest_params \<Rightarrow> transaction \<Rightarrow> 'ts backend \<Rightarrow> (rest_error, json) result \<times> 'ts backend" where
  "rest_transaction_broadcast R tx be =
     (if \<not> rp_fits R tx then (Inl TransactionTooLarge, be)
      else case be of
        LedgerOnly _ \<Rightarrow> (Inr (JField (tx_id tx)), be)
      | WithConsensus b \<Rightarrow>
          (case add_unconfirmed_transaction (rp_consensus R) tx b of
             (Inl e, b') \<Rightarrow> (Inl (ConsensusRefused e), WithConsensus b')
           | (Inr _, b') \<Rightarrow> (Inr (JField (tx_id tx)), WithConsensus b')))"

definition rest_solution_broadcast ::
  "'ts rest_params \<Rightarrow> solution \<Rightarrow> 'ts backend \<Rightarrow> (rest_error, json) result \<times> 'ts backend" where
  "rest_solution_broadcast R x be =
     (case be of
        WithConsensus b \<Rightarrow>
          (case add_unconfirmed_solution (rp_consensus R) x b of
             (Inl e, b') \<Rightarrow> (Inl (ConsensusRefused e), WithConsensus b')
           | (Inr _, b') \<Rightarrow> (Inr (JField (sol_id x)), WithConsensus b'))
      | LedgerOnly l \<Rightarrow>
          (case rq_epoch_hash (rp_queries R) l of
             None \<Rightarrow> (Inl LedgerQueryFailed, be)
           | Some epoch_hash \<Rightarrow>
               if rq_check_solution (rp_queries R) l x epoch_hash (rq_proof_target (rp_queries R) l)
               then (Inr (JField (sol_id x)), be)
               else (Inl (SolutionInvalid (sol_id x)), be)))"

end
