(* ===== verification/LedgerFiles.thy ===== *)
theory LedgerFiles
  imports Narwhal
begin

text \<open>
  Names of the ledger folder, the proposal cache file and the log file
  (\<open>node/bft/src/helpers/ledger_files.rs\<close>). A path is the list of its components; a component
  is a string of characters, so names that are not UTF-8 do not occur. The BHP256 hash of
  snarkVM and the hexadecimal encoding of the \<open>hex\<close> crate are parameters. The lemmas show
  that the folders of two configurations differ as soon as the network, the retention
  flag or the endpoint tag differ, and that so do their cache files.
\<close>

section \<open>Strings of the standard library\<close>

text \<open>A number in decimal.\<close>

function decimal :: "nat \<Rightarrow> string" where
  "decimal n = (if n < 10 then [char_of (48 + n)] else decimal (n div 10) @ [char_of (48 + n mod 10)])"
  by pat_completeness auto
termination by (relation "measure (\<lambda>n. n)") auto

declare decimal.simps [simp del]

text \<open>\<open>contains\<close> and \<open>replace\<close> of \<open>str\<close>: the occurrences are found from the left and do not overlap.\<close>

fun starts_with :: "string \<Rightarrow> string \<Rightarrow> bool" where
  "starts_with [] s = True"
| "starts_with (c # p) [] = False"
| "starts_with (c # p) (d # s) = (c = d \<and> starts_with p s)"

fun str_contains :: "string \<Rightarrow> string \<Rightarrow> bool" where
  "str_contains p [] = (p = [])"
| "str_contains p (c # s) = (starts_with p (c # s) \<or> str_contains p s)"

function str_replace :: "string \<Rightarrow> string \<Rightarrow> string \<Rightarrow> string" where
  "str_replace p q [] = []"
| "str_replace p q (c # s) =
     (if p \<noteq> [] \<and> starts_with p (c # s) then q @ str_replace p q (drop (length p) (c # s))
      else c # str_replace p q s)"
  by pat_completeness auto
termination by (relation "measure (\<lambda>(p, q, s). length s)") auto

type_synonym path = "string list"

text \<open>\<open>file_name\<close> of a path, absent for an empty path and after a parent reference.\<close>

definition file_name :: "path \<Rightarrow> string option" where
  "file_name p = (if p = [] \<or> last p = ''..'' then None else Some (last p))"

text \<open>A socket address. Of an IPv6 address only the printed form is read.\<close>

datatype socket_addr = V4 nat nat nat nat nat | V6 string nat

fun socket_string :: "socket_addr \<Rightarrow> string" where
  "socket_string (V4 a b c d port) =
     decimal a @ ''.'' @ decimal b @ ''.'' @ decimal c @ ''.'' @ decimal d @ '':'' @ decimal port"
| "socket_string (V6 ip port) = ''['' @ ip @ '']:'' @ decimal port"

section \<open>Definitions\<close>

definition LEDGER_STD_DIR :: string where
  "LEDGER_STD_DIR = ''amareleo-ledger''"

definition LEDGER_TMP_DIR :: string where
  "LEDGER_TMP_DIR = ''amareleo-tmp-ledger''"

definition LEDGER_DIR_TAG :: string where
  "LEDGER_DIR_TAG = ''-ledger-''"

definition PROPOSAL_CACHE_TAG :: string where
  "PROPOSAL_CACHE_TAG = ''-proposal-cache-''"

definition LOG_STD_FILE :: string where
  "LOG_STD_FILE = ''amareleo-chain''"

definition LOG_TMP_FILE :: string where
  "LOG_TMP_FILE = ''amareleo-chain-tmp''"

definition DEFAULT_FILE_TAG :: string where
  "DEFAULT_FILE_TAG = ''0''"

datatype files_error = HashFailed | NotCustomMode | NoFolderName | UnexpectedFolderName

text \<open>\<open>hash\<close> is BHP256 over the bits of a string, \<open>hex\<close> the encoding of its bytes.\<close>

record file_params =
  fp_hash :: "string \<Rightarrow> bytes option"
  fp_hex :: "bytes \<Rightarrow> string"
  fp_current_dir :: "path option"
  fp_manifest_dir :: path
  fp_temp_dir :: path

definition endpoint_file_tag :: "file_params \<Rightarrow> bool \<Rightarrow> socket_addr \<Rightarrow> (files_error, string) result" where
  "endpoint_file_tag F force_default endpoint =
     (if force_default then Inr DEFAULT_FILE_TAG
      else if endpoint = V4 0 0 0 0 3030 then Inr DEFAULT_FILE_TAG
      else case fp_hash F (socket_string endpoint) of
        None \<Rightarrow> Inl HashFailed
      | Some h \<Rightarrow> Inr (take 8 (fp_hex F h)))"

definition ledger_dir_name :: "nat \<Rightarrow> bool \<Rightarrow> string \<Rightarrow> string" where
  "ledger_dir_name network keep_state tag =
     ''.'' @ (if keep_state then LEDGER_STD_DIR else LEDGER_TMP_DIR) @ ''-'' @ decimal network @ ''-'' @ tag"

definition custom_ledger_dir :: "nat \<Rightarrow> bool \<Rightarrow> string \<Rightarrow> path \<Rightarrow> path" where
  "custom_ledger_dir network keep_state tag base = base @ [ledger_dir_name network keep_state tag]"

definition default_ledger_dir :: "file_params \<Rightarrow> nat \<Rightarrow> bool \<Rightarrow> string \<Rightarrow> path" where
  "default_ledger_dir F network keep_state tag =
     custom_ledger_dir network keep_state tag
       (case fp_current_dir F of Some d \<Rightarrow> d | None \<Rightarrow> fp_manifest_dir F)"

text \<open>The storage modes of \<open>aleo_std\<close>; only the custom one is used.\<close>

datatype storage_mode = Custom path | OtherMode

definition amareleo_storage_mode :: "path \<Rightarrow> storage_mode" where
  "amareleo_storage_mode p = Custom p"

definition amareleo_log_file :: "file_params \<Rightarrow> nat \<Rightarrow> bool \<Rightarrow> string \<Rightarrow> path" where
  "amareleo_log_file F network keep_state tag =
     fp_temp_dir F @
       [(if keep_state then LOG_STD_FILE else LOG_TMP_FILE) @ ''-'' @ decimal network @ ''-'' @ tag @ ''.log'']"

definition proposal_cache_path :: "storage_mode \<Rightarrow> (files_error, path) result" where
  "proposal_cache_path m =
     (case m of
        OtherMode \<Rightarrow> Inl NotCustomMode
      | Custom p \<Rightarrow>
          (case file_name p of
             None \<Rightarrow> Inl NoFolderName
           | Some f \<Rightarrow>
               if str_contains LEDGER_DIR_TAG f
               then Inr (butlast p @ [str_replace LEDGER_DIR_TAG PROPOSAL_CACHE_TAG f])
               else Inl UnexpectedFolderName))"

section \<open>Lemmas\<close>

lemma decimal_not_dash: "c \<in> set (decimal n) \<Longrightarrow> c \<noteq> CHR ''-''"
proof (induction n rule: decimal.induct)
  case (1 n)
  have digit: "char_of (48 + k) \<noteq> CHR ''-''" if "k < 10" for k :: nat
  proof
    assume "char_of (48 + k) = CHR ''-''"
    then have "of_char (char_of (48 + k) :: char) = (45 :: nat)" by simp
    then show False using that by (simp add: of_char_of)
  qed
  show ?case using 1 digit [of n] digit [of "n mod 10"]
    by (subst (asm) decimal.simps) (auto split: if_splits)
qed

lemma decimal_inj: "decimal m = decimal n \<Longrightarrow> m = n"
proof (induction m arbitrary: n rule: decimal.induct)
  case (1 m)
  have digit: "char_of (48 + k) = (char_of (48 + l) :: char) \<Longrightarrow> k = l" if "k < 10" "l < 10" for k l :: nat
  proof -
    assume "char_of (48 + k) = (char_of (48 + l) :: char)"
    then have "of_char (char_of (48 + k) :: char) = (of_char (char_of (48 + l) :: char) :: nat)" by simp
    then show "k = l" using that by (simp add: of_char_of)
  qed
  have ne: "decimal k \<noteq> []" for k by (subst decimal.simps) simp
  show ?case
  proof (cases "m < 10"; cases "n < 10")
    assume "m < 10" "n < 10"
    then show ?thesis using 1(2) digit [of m n] by (simp add: decimal.simps [of m] decimal.simps [of n])
  next
    assume "m < 10" "\<not> n < 10"
    then show ?thesis using 1(2) ne [of "n div 10"] by (simp add: decimal.simps [of m] decimal.simps [of n])
  next
    assume "\<not> m < 10" "n < 10"
    then show ?thesis using 1(2) ne [of "m div 10"] by (simp add: decimal.simps [of m] decimal.simps [of n])
  next
    assume a: "\<not> m < 10" "\<not> n < 10"
    then have "decimal (m div 10) = decimal (n div 10)" "char_of (48 + m mod 10) = (char_of (48 + n mod 10) :: char)"
      using 1(2) by (simp_all add: decimal.simps [of m] decimal.simps [of n])
    then have "m div 10 = n div 10" "m mod 10 = n mod 10" using 1(1) a digit by simp_all
    then show ?thesis by (metis div_mult_mod_eq)
  qed
qed

lemma last_separator:
  assumes "xs @ c # ys = xs' @ c # ys'" "c \<notin> set ys" "c \<notin> set ys'"
  shows "xs = xs' \<and> ys = ys'"
proof -
  from assms(1) obtain us where "xs = xs' @ us \<and> us @ c # ys = c # ys' \<or> xs @ us = xs' \<and> c # ys = us @ c # ys'"
    by (auto simp: append_eq_append_conv2)
  then show ?thesis using assms(2,3) by (cases us) auto
qed

lemma starts_with_append: "starts_with p s \<Longrightarrow> \<exists>v. s = p @ v"
  by (induction p s rule: starts_with.induct) auto

lemma str_contains_split: "str_contains p s \<Longrightarrow> \<exists>u v. s = u @ p @ v"
proof (induction p s rule: str_contains.induct)
  case (2 p c s)
  then show ?case
    using starts_with_append [of p "c # s"] by (metis append_Cons append_Nil str_contains.simps(2))
qed simp

lemma str_replace_absent: "\<not> str_contains p s \<Longrightarrow> str_replace p q s = s"
  by (induction p q s rule: str_replace.induct) auto

text \<open>The part of a folder name after its fixed beginning.\<close>

lemma no_second_tag:
  assumes "CHR ''-'' \<notin> set tag"
  shows "\<not> str_contains LEDGER_DIR_TAG (decimal n @ CHR ''-'' # tag)"
proof
  assume "str_contains LEDGER_DIR_TAG (decimal n @ CHR ''-'' # tag)"
  then obtain u v where "decimal n @ CHR ''-'' # tag = u @ LEDGER_DIR_TAG @ v" using str_contains_split by blast
  then have "count_list (decimal n @ CHR ''-'' # tag) (CHR ''-'') = count_list (u @ LEDGER_DIR_TAG @ v) (CHR ''-'')"
    by simp
  moreover have "count_list (decimal n) (CHR ''-'') = 0" using decimal_not_dash by (auto simp: count_list_0_iff)
  moreover have "count_list tag (CHR ''-'') = 0" using assms by (auto simp: count_list_0_iff)
  ultimately show False by (simp add: LEDGER_DIR_TAG_def)
qed

definition cache_file_name :: "nat \<Rightarrow> bool \<Rightarrow> string \<Rightarrow> string" where
  "cache_file_name network keep_state tag =
     (if keep_state then ''.amareleo-proposal-cache-'' else ''.amareleo-tmp-proposal-cache-'') @
       decimal network @ ''-'' @ tag"

lemma proposal_cache_path_ledger:
  assumes "CHR ''-'' \<notin> set tag"
  shows "proposal_cache_path (amareleo_storage_mode (custom_ledger_dir n k tag base)) =
    Inr (base @ [cache_file_name n k tag])"
proof -
  note absent = str_replace_absent [OF no_second_tag [OF assms, of n], unfolded LEDGER_DIR_TAG_def]
  have "file_name (custom_ledger_dir n k tag base) = Some (ledger_dir_name n k tag)"
    by (simp add: file_name_def custom_ledger_dir_def ledger_dir_name_def LEDGER_STD_DIR_def LEDGER_TMP_DIR_def)
  moreover have "str_contains LEDGER_DIR_TAG (ledger_dir_name n k tag)"
    by (simp add: ledger_dir_name_def LEDGER_DIR_TAG_def LEDGER_STD_DIR_def LEDGER_TMP_DIR_def)
  moreover have "str_replace LEDGER_DIR_TAG PROPOSAL_CACHE_TAG (ledger_dir_name n k tag) = cache_file_name n k tag"
    by (simp add: ledger_dir_name_def LEDGER_DIR_TAG_def PROPOSAL_CACHE_TAG_def LEDGER_STD_DIR_def LEDGER_TMP_DIR_def
        cache_file_name_def absent)
  ultimately show ?thesis
    by (simp add: proposal_cache_path_def amareleo_storage_mode_def custom_ledger_dir_def)
qed

lemma names_inj:
  assumes "CHR ''-'' \<notin> set tag" "CHR ''-'' \<notin> set tag'"
  shows "ledger_dir_name n k tag = ledger_dir_name n' k' tag' \<longleftrightarrow> n = n' \<and> k = k' \<and> tag = tag'"
    "cache_file_name n k tag = cache_file_name n' k' tag' \<longleftrightarrow> n = n' \<and> k = k' \<and> tag = tag'"
    "cache_file_name n k tag \<noteq> ledger_dir_name n' k' tag'"
proof -
  have split: "x @ CHR ''-'' # decimal n @ CHR ''-'' # tag = y @ CHR ''-'' # decimal n' @ CHR ''-'' # tag' \<Longrightarrow>
      x = y \<and> n = n' \<and> tag = tag'" for x y
    using last_separator [of "x @ CHR ''-'' # decimal n" "CHR ''-''" tag "y @ CHR ''-'' # decimal n'" tag'] assms
      last_separator [of x "CHR ''-''" "decimal n" y "decimal n'"] decimal_not_dash decimal_inj by auto
  show "ledger_dir_name n k tag = ledger_dir_name n' k' tag' \<longleftrightarrow> n = n' \<and> k = k' \<and> tag = tag'"
    using split [of "CHR ''.'' # (if k then LEDGER_STD_DIR else LEDGER_TMP_DIR)"
        "CHR ''.'' # (if k' then LEDGER_STD_DIR else LEDGER_TMP_DIR)"]
    by (auto simp: ledger_dir_name_def LEDGER_STD_DIR_def LEDGER_TMP_DIR_def)
  show "cache_file_name n k tag = cache_file_name n' k' tag' \<longleftrightarrow> n = n' \<and> k = k' \<and> tag = tag'"
    using split [of "if k then ''.amareleo-proposal-cache'' else ''.amareleo-tmp-proposal-cache''"
        "if k' then ''.amareleo-proposal-cache'' else ''.amareleo-tmp-proposal-cache''"]
    by (auto simp: cache_file_name_def)
  show "cache_file_name n k tag \<noteq> ledger_dir_name n' k' tag'"
    by (simp add: cache_file_name_def ledger_dir_name_def LEDGER_STD_DIR_def LEDGER_TMP_DIR_def)
qed

lemma endpoint_tag_no_dash:
  assumes "\<And>b. CHR ''-'' \<notin> set (fp_hex F b)" "endpoint_file_tag F d ep = Inr tag"
  shows "CHR ''-'' \<notin> set tag"
  using assms by (auto simp: endpoint_file_tag_def DEFAULT_FILE_TAG_def split: if_splits option.splits dest: in_set_takeD)

section \<open>Properties\<close>

text \<open>C34: two nodes under one base folder never share files: their ledger folders, and likewise their proposal
  cache files, are the same only when the network, the retention flag and the endpoint tag are all the same;
  the cache path of a ledger folder always exists, and no cache file has the path of a ledger folder.\<close>

theorem ledger_files_separate:
  assumes "\<And>b. CHR ''-'' \<notin> set (fp_hex F b)"
    and "endpoint_file_tag F d ep = Inr tag" "endpoint_file_tag F d' ep' = Inr tag'"
  shows "\<exists>c c'. proposal_cache_path (amareleo_storage_mode (custom_ledger_dir n k tag base)) = Inr c \<and>
    proposal_cache_path (amareleo_storage_mode (custom_ledger_dir n' k' tag' base)) = Inr c' \<and>
    (custom_ledger_dir n k tag base = custom_ledger_dir n' k' tag' base \<longleftrightarrow> n = n' \<and> k = k' \<and> tag = tag') \<and>
    (c = c' \<longleftrightarrow> n = n' \<and> k = k' \<and> tag = tag') \<and> c \<noteq> custom_ledger_dir n' k' tag' base"
proof -
  note dash = endpoint_tag_no_dash [OF assms(1,2)] endpoint_tag_no_dash [OF assms(1,3)]
  show ?thesis
    unfolding proposal_cache_path_ledger [OF dash(1)] proposal_cache_path_ledger [OF dash(2)]
    using names_inj [OF dash, of n k n' k'] by (simp add: custom_ledger_dir_def)
qed

section \<open>Witnesses\<close>

definition sample_files :: file_params where
  "sample_files =
     \<lparr>fp_hash = (\<lambda>s. Some [length s, 1, 2, 3]), fp_hex = concat \<circ> map decimal, fp_current_dir = None,
      fp_manifest_dir = [''src''], fp_temp_dir = [''tmp'']\<rparr>"

theorem ledger_files_separate_witness:
  "\<exists>c c'. proposal_cache_path (amareleo_storage_mode (custom_ledger_dir 1 True ''0'' [])) = Inr c \<and>
     proposal_cache_path (amareleo_storage_mode (custom_ledger_dir 1 False ''0'' [])) = Inr c' \<and> c \<noteq> c'"
  using ledger_files_separate [of sample_files False "V4 0 0 0 0 3030" "''0''" True "V4 1 1 1 1 1" "''0''" 1 True "[]" 1 False]
    decimal_not_dash
  by (auto simp: sample_files_def endpoint_file_tag_def DEFAULT_FILE_TAG_def)

end
