(* ===== verification/RestServer.thy ===== *)
theory RestServer
  imports Rest LedgerFiles
begin

text \<open>
  The REST server (\<open>node/rest/src/lib.rs\<close> and \<open>node/rest/src/helpers\<close>): the routes with the methods they
  answer, the protected ones behind the bearer token, the way from a request to a handler and from its
  result to a response, and the life cycle of the server. The web framework, the rate limiter and the
  token library are parameters. A request is given by the decoded segments of its path.
\<close>

section \<open>Tokens\<close>

definition EXPIRATION :: int where
  "EXPIRATION = 10 * 365 * 24 * 60 * 60"

record claims =
  ck_sub :: string
  ck_iat :: int
  ck_exp :: int

definition i64_saturating_add :: "int \<Rightarrow> int \<Rightarrow> int" where
  "i64_saturating_add a b = max (- (2 ^ 63)) (min (2 ^ 63 - 1) (a + b))"

definition claims_new :: "int \<Rightarrow> string \<Rightarrow> claims" where
  "claims_new now address = \<lparr>ck_sub = address, ck_iat = now, ck_exp = i64_saturating_add now EXPIRATION\<rparr>"

definition is_expired :: "int \<Rightarrow> claims \<Rightarrow> bool" where
  "is_expired now c \<longleftrightarrow> now \<ge> ck_exp c"

text \<open>The token library, with the secret that the process draws once. Decoding reads the clock.\<close>

record jwt =
  jw_secret :: bytes
  jw_encode :: "bytes \<Rightarrow> claims \<Rightarrow> string option"
  jw_decode :: "int \<Rightarrow> bytes \<Rightarrow> string \<Rightarrow> claims option"

definition to_jwt_string :: "jwt \<Rightarrow> claims \<Rightarrow> string option" where
  "to_jwt_string J c = jw_encode J (jw_secret J) c"

section \<open>Requests and responses\<close>

datatype http_method = GET | HEAD | POST | OPTIONS | OtherMethod

record request =
  ht_method :: http_method
  ht_path :: "string list"
  ht_query :: string
  ht_bearer :: "string option"
  ht_body :: bytes

datatype http_body = NoBody | TextBody string | JsonBody json | ErrorBody rest_error

record response =
  rsp_status :: nat
  rsp_body :: http_body

definition status_response :: "nat \<Rightarrow> response" where
  "status_response n = \<lparr>rsp_status = n, rsp_body = NoBody\<rparr>"

fun into_response :: "(rest_error, json) result \<Rightarrow> response" where
  "into_response (Inl e) = \<lparr>rsp_status = 500, rsp_body = ErrorBody e\<rparr>"
| "into_response (Inr j) = \<lparr>rsp_status = 200, rsp_body = JsonBody j\<rparr>"

text \<open>Only the endpoints of this list are behind the token.\<close>

definition auth_middleware :: "jwt \<Rightarrow> int \<Rightarrow> string option \<Rightarrow> (response, unit) result" where
  "auth_middleware J now bearer =
     (case bearer of
        None \<Rightarrow> Inl (status_response 401)
      | Some token \<Rightarrow>
          (case jw_decode J now (jw_secret J) token of
             None \<Rightarrow> Inl (status_response 401)
           | Some c \<Rightarrow>
               if is_expired now c then Inl \<lparr>rsp_status = 401, rsp_body = TextBody ''Expired JSON Web Token''\<rparr>
               else Inr ()))"

section \<open>Routes\<close>

datatype endpoint =
    GetNodeAddress
  | GetMappingValues string string
  | GetBlockHeightLatest
  | GetBlockHashLatest
  | GetBlockLatest
  | GetBlock string
  | GetBlockHeader string
  | GetBlockTransactions string
  | GetTransaction string
  | GetConfirmedTransaction string
  | GetUnconfirmedTransaction string
  | TransactionBroadcast
  | SolutionBroadcast
  | FindBlockHash string
  | FindBlockHeight string
  | FindDeployment string
  | FindTransaction string
  | FindTransition string
  | GetPeersCount
  | GetPeersAll
  | GetPeersAllMetrics
  | GetProgram string
  | GetMappingNames string
  | GetMappingValue string string string
  | GetBlocks
  | GetHeight string
  | GetMemoryPoolTransmissions
  | GetMemoryPoolSolutions
  | GetMemoryPoolTransactions
  | GetStatePath string
  | GetStateRootLatest
  | GetStateRoot string
  | GetCommitteeLatest
  | GetCommittee string
  | GetDelegators string

text \<open>The route of a path, by the number of its segments. A literal segment is preferred to a parameter, and a
  parameter takes no empty segment.\<close>

definition route2 :: "string \<Rightarrow> string \<Rightarrow> endpoint option" where
  "route2 a b =
     (if a = ''node'' then (if b = ''address'' then Some GetNodeAddress else None)
      else if a = ''block'' then Some (if b = ''latest'' then GetBlockLatest else GetBlock b)
      else if a = ''transaction'' then Some (if b = ''broadcast'' then TransactionBroadcast else GetTransaction b)
      else if a = ''solution'' then (if b = ''broadcast'' then Some SolutionBroadcast else None)
      else if a = ''peers'' then
        (if b = ''count'' then Some GetPeersCount else if b = ''all'' then Some GetPeersAll else None)
      else if a = ''program'' then Some (GetProgram b)
      else if a = ''height'' then Some (GetHeight b)
      else if a = ''memoryPool'' then
        (if b = ''transmissions'' then Some GetMemoryPoolTransmissions
         else if b = ''solutions'' then Some GetMemoryPoolSolutions
         else if b = ''transactions'' then Some GetMemoryPoolTransactions else None)
      else if a = ''statePath'' then Some (GetStatePath b)
      else if a = ''stateRoot'' then Some (if b = ''latest'' then GetStateRootLatest else GetStateRoot b)
      else if a = ''committee'' then Some (if b = ''latest'' then GetCommitteeLatest else GetCommittee b)
      else if a = ''delegators'' then Some (GetDelegators b)
      else None)"

definition route3 :: "string \<Rightarrow> string \<Rightarrow> string \<Rightarrow> endpoint option" where
  "route3 a b c =
     (if a = ''block'' then
        (if c = ''latest'' then
           (if b = ''height'' then Some GetBlockHeightLatest else if b = ''hash'' then Some GetBlockHashLatest else None)
         else if c = ''header'' then Some (GetBlockHeader b)
         else if c = ''transactions'' then Some (GetBlockTransactions b) else None)
      else if a = ''transaction'' then
        (if b = ''confirmed'' then Some (GetConfirmedTransaction c)
         else if b = ''unconfirmed'' then Some (GetUnconfirmedTransaction c) else None)
      else if a = ''find'' then
        (if b = ''blockHash'' then Some (FindBlockHash c)
         else if b = ''blockHeight'' then Some (FindBlockHeight c)
         else if b = ''transactionID'' then Some (FindTransaction c)
         else if b = ''transitionID'' then Some (FindTransition c) else None)
      else if a = ''peers'' then (if b = ''all'' \<and> c = ''metrics'' then Some GetPeersAllMetrics else None)
      else if a = ''program'' then (if c = ''mappings'' then Some (GetMappingNames b) else None)
      else None)"

definition route4 :: "string \<Rightarrow> string \<Rightarrow> string \<Rightarrow> string \<Rightarrow> endpoint option" where
  "route4 a b c d =
     (if a = ''find'' then (if b = ''transactionID'' \<and> c = ''deployment'' then Some (FindDeployment d) else None)
      else if a = ''program'' \<and> c = ''mapping'' then Some (GetMappingValues b d)
      else None)"

fun route :: "string list \<Rightarrow> endpoint option" where
  "route [a] = (if a = ''blocks'' then Some GetBlocks else None)"
| "route [a, b] = (if b = [] then None else route2 a b)"
| "route [a, b, c] = (if b = [] \<or> c = [] then None else route3 a b c)"
| "route [a, b, c, d] = (if b = [] \<or> d = [] then None else route4 a b c d)"
| "route [a, b, c, d, e] =
     (if a = ''program'' \<and> b \<noteq> [] \<and> c = ''mapping'' \<and> d \<noteq> [] \<and> e \<noteq> [] then Some (GetMappingValue b d e) else None)"
| "route _ = None"

definition route_method :: "endpoint \<Rightarrow> http_method" where
  "route_method e = (if e = TransactionBroadcast \<or> e = SolutionBroadcast then POST else GET)"

definition protected_route :: "endpoint \<Rightarrow> bool" where
  "protected_route e \<longleftrightarrow> (case e of GetNodeAddress \<Rightarrow> True | GetMappingValues _ _ \<Rightarrow> True | _ \<Rightarrow> False)"

section \<open>From a request to a response\<close>

text \<open>The parsers of snarkVM, those of the query strings, and those of the JSON bodies, which answer with a status when
  they refuse a body.\<close>

record rest_parsers =
  pa_transaction_id :: "string \<Rightarrow> transaction_id option"
  pa_transition_id :: "string \<Rightarrow> field option"
  pa_block_hash :: "string \<Rightarrow> field option"
  pa_state_root :: "string \<Rightarrow> field option"
  pa_field :: "string \<Rightarrow> field option"
  pa_program_id :: "string \<Rightarrow> nat option"
  pa_identifier :: "string \<Rightarrow> nat option"
  pa_plaintext :: "string \<Rightarrow> nat option"
  pa_address :: "string \<Rightarrow> address option"
  pa_range :: "string \<Rightarrow> (nat \<times> nat) option"
  pa_metadata :: "string \<Rightarrow> metadata option"
  pa_transaction :: "bytes \<Rightarrow> (nat, transaction) result"
  pa_solution :: "bytes \<Rightarrow> (nat, solution) result"

text \<open>A path or query parameter that does not parse is a bad request.\<close>

definition with_param :: "'a option \<Rightarrow> ('a \<Rightarrow> (rest_error, json) result) \<Rightarrow> response" where
  "with_param x f = (case x of None \<Rightarrow> status_response 400 | Some v \<Rightarrow> into_response (f v))"

definition with_params :: "'a option \<Rightarrow> ('a \<Rightarrow> response) \<Rightarrow> response" where
  "with_params x f = (case x of None \<Rightarrow> status_response 400 | Some v \<Rightarrow> f v)"

text \<open>The handlers that only read.\<close>

fun get_response :: "'ts rest_params \<Rightarrow> rest_parsers \<Rightarrow> string \<Rightarrow> 'ts backend \<Rightarrow> endpoint \<Rightarrow> response" where
  "get_response R A q be GetNodeAddress = into_response (Inr rest_get_node_address)"
| "get_response R A q be (GetMappingValues p n) =
     with_params (pa_program_id A p) (\<lambda>p. with_params (pa_identifier A n) (\<lambda>n. with_param (pa_metadata A q)
       (rest_get_mapping_values (rp_queries R) (rest_ledger be) p n)))"
| "get_response R A q be GetBlockHeightLatest = into_response (Inr (rest_get_block_height_latest (rest_ledger be)))"
| "get_response R A q be GetBlockHashLatest = into_response (Inr (rest_get_block_hash_latest (rp_queries R) (rest_ledger be)))"
| "get_response R A q be GetBlockLatest = into_response (Inr (rest_get_block_latest (rest_ledger be)))"
| "get_response R A q be (GetBlock x) =
     into_response (rest_get_block (pa_block_hash A) (rp_queries R) (rest_ledger be) x)"
| "get_response R A q be (GetBlockHeader x) =
     with_param (parse_u32 x) (rest_get_block_header (rp_queries R) (rest_ledger be))"
| "get_response R A q be (GetBlockTransactions x) =
     with_param (parse_u32 x) (rest_get_block_transactions (rp_queries R) (rest_ledger be))"
| "get_response R A q be (GetTransaction x) =
     with_param (pa_transaction_id A x) (rest_get_transaction (rp_queries R) (rest_ledger be))"
| "get_response R A q be (GetConfirmedTransaction x) =
     with_param (pa_transaction_id A x) (rest_get_confirmed_transaction (rp_queries R) (rest_ledger be))"
| "get_response R A q be (GetUnconfirmedTransaction x) =
     with_param (pa_transaction_id A x) (rest_get_unconfirmed_transaction (rest_ledger be))"
| "get_response R A q be (FindBlockHash x) =
     with_param (pa_transaction_id A x) (rest_find_block_hash (rp_queries R) (rest_ledger be))"
| "get_response R A q be (FindBlockHeight x) =
     with_param (pa_state_root A x) (rest_find_block_height_from_state_root (rp_queries R) (rest_ledger be))"
| "get_response R A q be (FindDeployment x) =
     with_param (pa_program_id A x) (rest_find_transaction_id_from_program_id (rp_queries R) (rest_ledger be))"
| "get_response R A q be (FindTransaction x) =
     with_param (pa_transition_id A x) (rest_find_transaction_id_from_transition_id (rp_queries R) (rest_ledger be))"
| "get_response R A q be (FindTransition x) =
     with_param (pa_field A x) (rest_find_transition_id (rp_queries R) (rest_ledger be))"
| "get_response R A q be GetPeersCount = into_response (Inr rest_get_peers_count)"
| "get_response R A q be GetPeersAll = into_response (Inr rest_get_peers_all)"
| "get_response R A q be GetPeersAllMetrics = into_response (Inr rest_get_peers_all_metrics)"
| "get_response R A q be (GetProgram x) =
     with_param (pa_program_id A x) (rest_get_program (rp_queries R) (rest_ledger be))"
| "get_response R A q be (GetMappingNames x) =
     with_param (pa_program_id A x) (rest_get_mapping_names (rp_queries R) (rest_ledger be))"
| "get_response R A q be (GetMappingValue p n k) =
     with_params (pa_program_id A p) (\<lambda>p. with_params (pa_identifier A n) (\<lambda>n. with_params (pa_plaintext A k) (\<lambda>k.
       with_param (pa_metadata A q) (rest_get_mapping_value (rp_queries R) (rest_ledger be) p n k))))"
| "get_response R A q be GetBlocks =
     with_param (pa_range A q) (\<lambda>(lo, hi). rest_get_blocks (rest_ledger be) lo hi)"
| "get_response R A q be (GetHeight x) =
     with_param (pa_block_hash A x) (rest_get_height (rp_queries R) (rest_ledger be))"
| "get_response R A q be GetMemoryPoolTransmissions =
     into_response (rest_get_memory_pool_transmissions (cn_crypto (rp_consensus R)) be)"
| "get_response R A q be GetMemoryPoolSolutions = into_response (rest_get_memory_pool_solutions be)"
| "get_response R A q be GetMemoryPoolTransactions = into_response (rest_get_memory_pool_transactions be)"
| "get_response R A q be (GetStatePath x) =
     with_param (pa_field A x) (rest_get_state_path_for_commitment (rp_queries R) (rest_ledger be))"
| "get_response R A q be GetStateRootLatest = into_response (Inr (rest_get_state_root_latest (rp_queries R) (rest_ledger be)))"
| "get_response R A q be (GetStateRoot x) =
     with_param (parse_u32 x) (rest_get_state_root (rp_queries R) (rest_ledger be))"
| "get_response R A q be GetCommitteeLatest = into_response (rest_get_committee_latest (rest_ledger be))"
| "get_response R A q be (GetCommittee x) =
     with_param (parse_u32 x) (rest_get_committee (rp_queries R) (rest_ledger be))"
| "get_response R A q be (GetDelegators x) =
     with_param (pa_address A x) (rest_get_delegators_for_validator (rp_queries R) (rest_ledger be))"
| "get_response R A q be TransactionBroadcast = status_response 405"
| "get_response R A q be SolutionBroadcast = status_response 405"

definition MAX_BODY_SIZE :: nat where
  "MAX_BODY_SIZE = 512 * 1024"

text \<open>The two handlers that take a body.\<close>

definition post_response ::
  "'ts rest_params \<Rightarrow> rest_parsers \<Rightarrow> bytes \<Rightarrow> 'ts backend \<Rightarrow> endpoint \<Rightarrow> response \<times> 'ts backend" where
  "post_response R A body be e =
     (if e = TransactionBroadcast
      then (if length body > MAX_BODY_SIZE then (status_response 413, be)
            else case pa_transaction A body of
              Inl n \<Rightarrow> (status_response n, be)
            | Inr tx \<Rightarrow> (let (r, be') = rest_transaction_broadcast R tx be in (into_response r, be')))
      else if e = SolutionBroadcast
      then (if length body > MAX_BODY_SIZE then (status_response 413, be)
            else case pa_solution A body of
              Inl n \<Rightarrow> (status_response n, be)
            | Inr x \<Rightarrow> (let (r, be') = rest_solution_broadcast R x be in (into_response r, be')))
      else (status_response 405, be))"

text \<open>The error handler of the rate limiter.\<close>

definition rate_limit_response :: "string \<Rightarrow> response" where
  "rate_limit_response message =
     \<lparr>rsp_status = (if str_contains ''Too Many Requests'' message then 429 else 500), rsp_body = TextBody message\<rparr>"

text \<open>\<open>limited\<close> is the error of the rate limiter, if it refuses the request. The cross-origin layer answers
  an \<open>OPTIONS\<close> request itself, and a \<open>HEAD\<close> request is a \<open>GET\<close> without the body.\<close>

definition serve ::
  "'ts rest_params \<Rightarrow> rest_parsers \<Rightarrow> jwt \<Rightarrow> string \<Rightarrow> int \<Rightarrow> string option \<Rightarrow> request \<Rightarrow> 'ts backend \<Rightarrow>
   response \<times> 'ts backend" where
  "serve R A J network now limited rq be =
     (case limited of
        Some message \<Rightarrow> (rate_limit_response message, be)
      | None \<Rightarrow>
          if ht_method rq = OPTIONS then (status_response 200, be)
          else (case ht_path rq of
             [] \<Rightarrow> (status_response 404, be)
           | n # p \<Rightarrow>
               if n \<noteq> network then (status_response 404, be)
               else (case route p of
                  None \<Rightarrow> (status_response 404, be)
                | Some e \<Rightarrow>
                    (case (if protected_route e then auth_middleware J now (ht_bearer rq) else Inr ()) of
                       Inl rsp \<Rightarrow> (rsp, be)
                     | Inr _ \<Rightarrow>
                         (case ht_method rq of
                            POST \<Rightarrow> post_response R A (ht_body rq) be e
                          | GET \<Rightarrow> (get_response R A (ht_query rq) be e, be)
                          | HEAD \<Rightarrow> ((get_response R A (ht_query rq) be e)\<lparr>rsp_body := NoBody\<rparr>, be)
                          | _ \<Rightarrow> (status_response 405, be))))))"

section \<open>Start and shutdown\<close>

datatype server_task = Serving | Draining | Finished

text \<open>\<open>sv_trigger\<close> says whether the sender of the shutdown signal is still there, \<open>sv_signalled\<close> whether the task has
  been signalled, \<open>sv_complete\<close> is the value of the completion channel.\<close>

record rest_server =
  sv_trigger :: bool
  sv_signalled :: bool
  sv_complete :: "bool option"
  sv_handle :: "server_task option"

datatype rest_start_error =
    DivisionByZero
  | RateLimitRefused
  | UnknownNetworkId nat
  | BindFailed

text \<open>Whether the rate limiter accepts a period and a burst size, and whether the address can be bound.\<close>

record server_params =
  sp_governor :: "nat \<Rightarrow> nat \<Rightarrow> bool"
  sp_binds :: "socket_addr \<Rightarrow> bool"

definition network_name :: "network_ids \<Rightarrow> nat \<Rightarrow> (rest_start_error, string) result" where
  "network_name ids n =
     (if n = ni_mainnet ids then Inr ''mainnet''
      else if n = ni_testnet ids then Inr ''testnet''
      else if n = ni_canary ids then Inr ''canary''
      else Inl (UnknownNetworkId n))"

definition rest_server_new :: rest_server where
  "rest_server_new = \<lparr>sv_trigger = False, sv_signalled = False, sv_complete = None, sv_handle = None\<rparr>"

text \<open>\<^const>\<open>DivisionByZero\<close> is a panic: the period of the rate limiter is \<open>1_000_000_000 / rest_rps\<close>.\<close>

definition spawn_server ::
  "server_params \<Rightarrow> network_ids \<Rightarrow> nat \<Rightarrow> socket_addr \<Rightarrow> nat \<Rightarrow> rest_server \<Rightarrow> (rest_start_error, rest_server) result" where
  "spawn_server S ids n rest_ip rest_rps sv =
     (if rest_rps = 0 then Inl DivisionByZero
      else if \<not> sp_governor S (1000000000 div rest_rps) rest_rps then Inl RateLimitRefused
      else case network_name ids n of
        Inl e \<Rightarrow> Inl e
      | Inr _ \<Rightarrow>
          if \<not> sp_binds S rest_ip then Inl BindFailed
          else Inr (sv\<lparr>sv_trigger := True, sv_complete := Some False, sv_handle := Some Serving\<rparr>))"

definition rest_start ::
  "server_params \<Rightarrow> network_ids \<Rightarrow> nat \<Rightarrow> socket_addr \<Rightarrow> nat \<Rightarrow> (rest_start_error, rest_server) result" where
  "rest_start S ids n rest_ip rest_rps = spawn_server S ids n rest_ip rest_rps rest_server_new"

definition is_finished :: "rest_server \<Rightarrow> bool" where
  "is_finished sv \<longleftrightarrow> (case sv_handle sv of None \<Rightarrow> True | Some t \<Rightarrow> t = Finished)"

datatype wait_result = Returns | Fails | Waits

definition wait_finish :: "rest_server \<Rightarrow> wait_result" where
  "wait_finish sv =
     (if is_finished sv then Returns
      else case sv_complete sv of None \<Rightarrow> Fails | Some c \<Rightarrow> if c then Returns else Waits)"

text \<open>The first half of \<open>shut_down\<close>; it then waits as \<open>wait_finish\<close> does.\<close>

definition send_shutdown :: "rest_server \<Rightarrow> rest_server" where
  "send_shutdown sv = sv\<lparr>sv_trigger := False, sv_signalled := sv_signalled sv \<or> sv_trigger sv\<rparr>"

text \<open>\<open>shut_down\<close> as a whole: the state once the wait is over.\<close>

definition rest_shut_down :: "rest_server \<Rightarrow> rest_server" where
  "rest_shut_down sv =
     (let sv1 = send_shutdown sv
      in if wait_finish sv1 = Waits then sv1\<lparr>sv_complete := Some True, sv_handle := Some Finished\<rparr> else sv1)"

text \<open>The server task: the signal starts the graceful shutdown, which ends once the connections are closed; an
  error ends the task as well.\<close>

inductive server_step :: "rest_server \<Rightarrow> rest_server \<Rightarrow> bool" where
  signal: "sv_handle sv = Some Serving \<Longrightarrow> sv_signalled sv \<Longrightarrow> server_step sv (sv\<lparr>sv_handle := Some Draining\<rparr>)"
| drained: "sv_handle sv = Some Draining \<Longrightarrow> server_step sv (sv\<lparr>sv_complete := Some True, sv_handle := Some Finished\<rparr>)"
| error: "sv_handle sv = Some Serving \<Longrightarrow> server_step sv (sv\<lparr>sv_complete := Some True, sv_handle := Some Finished\<rparr>)"

inductive_cases server_stepE: "server_step sv sv'"

section \<open>Identifiers in the log\<close>

definition fmt_id :: "string \<Rightarrow> string" where
  "fmt_id s = (if length s > 16 then take 16 s @ ''..'' else take 16 s)"

end
