(* ===== verification/Validator.thy ===== *)
theory Validator
  imports RestServer
begin

text \<open>
  The validator (\<open>node/src/validator/mod.rs\<close>): the ledger loaded from its folder, consensus
  on top of it and the REST server, with the shutdown flag that the ledger service reads.
  The folders and cache files on disk are explicit state, so that a shutdown and a later
  start meet through them. A panic of the REST server ends the call that makes the validator; the tasks
  it has spawned are not followed any further. The lemmas show that once the flag is set the ledger never
  changes again, whatever handlers still run.
\<close>

section \<open>Definitions\<close>

text \<open>The databases of a ledger folder, and the disk: ledger folders, proposal cache files and the files of the
  temporary folder. A database is written when its content changes; the model writes it back when the
  node goes down.\<close>

record 'ts folder =
  fo_ledger :: snark_ledger
  fo_transmissions :: 'ts

record 'ts disk =
  dk_folders :: "path \<rightharpoonup> 'ts folder"
  dk_caches :: "path \<rightharpoonup> bytes"
  dk_temp :: "string \<rightharpoonup> bytes"

text \<open>Loading a ledger, opening the database of transmissions and what the REST server needs, with the IDs of the
  networks and that of the validator's own one.\<close>

record 'ts validator_params =
  vp_consensus :: "'ts consensus_params"
  vp_load :: "block \<Rightarrow> snark_ledger option \<Rightarrow> snark_ledger option"
  vp_open :: "'ts option \<Rightarrow> 'ts option"
  vp_max_gc_rounds :: nat
  vp_server :: server_params
  vp_ids :: network_ids
  vp_network_id :: nat

record 'ts validator =
  va_node :: "'ts bft"
  va_rest :: rest_server
  va_storage_path :: path

datatype validator_error =
    LedgerLoadFailed
  | TransmissionsOpenFailed
  | StorageNewFailed
  | ConsensusRunFailed primary_error
  | RestStartFailed rest_start_error
  | RestPanicked

definition cache_file :: "'ts disk \<Rightarrow> path \<Rightarrow> bytes option" where
  "cache_file D p =
     (case proposal_cache_path (amareleo_storage_mode p) of Inl _ \<Rightarrow> None | Inr c \<Rightarrow> dk_caches D c)"

definition write_folder :: "path \<Rightarrow> 'ts bft \<Rightarrow> 'ts disk \<Rightarrow> 'ts disk" where
  "write_folder p b D =
     D\<lparr>dk_folders := (dk_folders D)(p \<mapsto> \<lparr>fo_ledger = cl_ledger (bft_ledger b),
                                         fo_transmissions = st_transmissions (bft_storage b)\<rparr>)\<rparr>"

definition write_back :: "path \<Rightarrow> 'ts bft \<Rightarrow> 'ts disk \<Rightarrow> 'ts disk" where
  "write_back p b D =
     (write_folder p b D)\<lparr>dk_caches := (case proposal_cache_path (amareleo_storage_mode p) of
          Inl _ \<Rightarrow> dk_caches D | Inr c \<Rightarrow> (dk_caches D)(c := pm_cache_file (bft_primary b)))\<rparr>"

definition validator_new ::
  "'ts validator_params \<Rightarrow> int \<Rightarrow> bool \<Rightarrow> socket_addr \<Rightarrow> nat \<Rightarrow> address \<Rightarrow> block \<Rightarrow> bool \<Rightarrow> path \<Rightarrow> bool \<Rightarrow> 'ts disk \<Rightarrow>
   (validator_error, 'ts validator) result \<times> 'ts disk" where
  "validator_new V now free rest_ip rest_rps account genesis keep_state p shutdown D =
     (let C = vp_consensus V in
      case vp_load V genesis (map_option fo_ledger (dk_folders D p)) of
        None \<Rightarrow> (Inl LedgerLoadFailed, D)
      | Some l \<Rightarrow>
          (case vp_open V (map_option fo_transmissions (dk_folders D p)) of
             None \<Rightarrow> (Inl TransmissionsOpenFailed, D)
           | Some ts \<Rightarrow>
               (case consensus_new (pp_env (cn_primary C)) (core_ledger_new l shutdown) account ts
                       (vp_max_gc_rounds V) keep_state (cache_file D p) of
                  None \<Rightarrow> (Inl StorageNewFailed, D)
                | Some b \<Rightarrow>
                    (case consensus_run C now free b of
                       (Inl e, b1) \<Rightarrow> (Inl (ConsensusRunFailed e), write_back p b1 D)
                     | (Inr _, b1) \<Rightarrow>
                         (case rest_start (vp_server V) (vp_ids V) (vp_network_id V) rest_ip rest_rps of
                            Inr sv \<Rightarrow> (Inr \<lparr>va_node = b1, va_rest = sv, va_storage_path = p\<rparr>, D)
                          | Inl e \<Rightarrow>
                              if e = DivisionByZero then (Inl RestPanicked, write_folder p b1 D)
                              else (Inl (RestStartFailed e), write_back p (consensus_shut_down C b1) D))))))"

definition set_shutdown :: "'ts bft \<Rightarrow> 'ts bft" where
  "set_shutdown b = b\<lparr>bft_ledger := (bft_ledger b)\<lparr>cl_shutdown := True\<rparr>\<rparr>"

definition validator_shut_down :: "'ts validator_params \<Rightarrow> 'ts validator \<Rightarrow> 'ts validator" where
  "validator_shut_down V v =
     v\<lparr>va_rest := rest_shut_down (va_rest v), va_node := consensus_shut_down (vp_consensus V) (set_shutdown (va_node v))\<rparr>"

section \<open>After the shutdown flag is set\<close>

text \<open>Once the flag is set it stays set, and the ledger keeps its blocks.\<close>

definition ledger_frozen :: "'ts bft \<Rightarrow> 'ts bft \<Rightarrow> bool" where
  "ledger_frozen b b' \<longleftrightarrow> (cl_shutdown (bft_ledger b) \<longrightarrow>
     cl_shutdown (bft_ledger b') \<and> cl_ledger (bft_ledger b') = cl_ledger (bft_ledger b))"

lemma reinsert_transmission_ledger: "bft_ledger (snd (reinsert_transmission P t x b)) = bft_ledger b"
  by (cases "(P, t, x, b)" rule: reinsert_transmission.cases)
    (auto simp: process_unconfirmed_solution_def process_unconfirmed_transaction_def process_on_worker_def
      set_workers_def Let_def split_beta split: option.splits sum.splits)

lemma reinsert_transmissions_ledger: "bft_ledger (reinsert_transmissions P ts b) = bft_ledger b"
proof -
  have "bft_ledger (foldl (\<lambda>b (t, x). snd (reinsert_transmission P t x b)) b ts) = bft_ledger b" for b
    by (induction ts arbitrary: b) (auto simp: reinsert_transmission_ledger)
  then show ?thesis by (simp add: reinsert_transmissions_def)
qed

lemma shutdown_rejects:
  assumes "cl_shutdown (bft_ledger b)"
  shows "fst (process_bft_subdag C b sd ts) = Rejected \<and> fst (snd (process_bft_subdag C b sd ts)) = bft_ledger b"
proof -
  have "\<exists>e. try_advance_to_next_block C sd ts b = (Inl e, b)"
    using assms by (auto simp: try_advance_to_next_block_def advance_to_next_block_def split: option.split)
  then show ?thesis by (auto simp: process_bft_subdag_def reinsert_transmissions_ledger Let_def)
qed

interpretation frozen: node_boot_relation "node_params C" ledger_frozen for C :: "'ts consensus_params"
proof (unfold_locales, goal_cases)
  case (9 b sd ts reply L p q)
  then have "process_bft_subdag C b sd ts = (reply, L, p, q)" by (simp add: node_params_def)
  then show ?case using shutdown_rejects [of b C sd ts] by (simp add: ledger_frozen_def)
qed (auto simp: ledger_frozen_def set_workers_def update_latest_leader_def)

lemma shut_down_frozen:
  "cl_shutdown (bft_ledger (va_node (validator_shut_down V v))) \<and>
   cl_ledger (bft_ledger (va_node (validator_shut_down V v))) = cl_ledger (bft_ledger (va_node v))"
  using frozen.node_step_R [OF refl node_step.stop [of "vp_consensus V" "set_shutdown (va_node v)"]]
  by (simp add: ledger_frozen_def validator_shut_down_def set_shutdown_def)

lemma validator_new_frozen:
  assumes "validator_new V now free ip rps a gen keep p True D = (Inr v, D')"
  shows "cl_shutdown (bft_ledger (va_node v))"
proof -
  obtain l ts b b1 where new: "consensus_new (pp_env (cn_primary (vp_consensus V))) (core_ledger_new l True) a ts
      (vp_max_gc_rounds V) keep (cache_file D p) = Some b"
    and run: "consensus_run (vp_consensus V) now free b = (Inr (), b1)" and v: "va_node v = b1"
    using assms by (auto simp: validator_new_def Let_def split: option.splits sum.splits prod.splits if_splits)
  have "cl_shutdown (bft_ledger b)"
    using new by (auto simp: consensus_new_def bft_new_def core_ledger_new_def)
  then show ?thesis
    using frozen.node_step_R [OF refl node_step.start [OF run]] by (simp add: ledger_frozen_def v)
qed

lemma validator_new_node:
  assumes "validator_new V now free ip rps a gen keep p sd D = (Inr v, D')"
  shows "\<exists>l ts b. consensus_new (pp_env (cn_primary (vp_consensus V))) (core_ledger_new l sd) a ts
    (vp_max_gc_rounds V) keep (cache_file D p) = Some b \<and>
    vp_load V gen (map_option fo_ledger (dk_folders D p)) = Some l \<and>
    consensus_run (vp_consensus V) now free b = (Inr (), va_node v) \<and> va_storage_path v = p \<and> D' = D"
  using assms by (auto simp: validator_new_def Let_def split: option.splits sum.splits prod.splits if_splits) blast

end
