(* ===== verification/Tracing.thy ===== *)
theory Tracing
  imports LedgerFiles
begin

text \<open>
  Log output (\<open>tracing/src/logger.rs\<close>, \<open>tracing/src/trace_layers.rs\<close>): the filter of a verbosity
  level, the log file and the handler that the components hold. A layer of the
  \<open>tracing_subscriber\<close> crate is a record of what the code configures; the directives of a filter
  are kept as their text, in the order in which they are added, and all of them parse. The lemmas show when a
  handler is made and what it writes to.
\<close>

section \<open>Definitions\<close>

record env_filter =
  ef_default :: string
  ef_directives :: "string list"

definition add_directive :: "string \<Rightarrow> env_filter \<Rightarrow> env_filter" where
  "add_directive d f = f\<lparr>ef_directives := ef_directives f @ [d]\<rparr>"

definition init_env_filter :: "nat \<Rightarrow> env_filter" where
  "init_env_filter verbosity =
     (let filter = \<lparr>ef_default = (if verbosity = 0 then ''info'' else if verbosity = 1 then ''debug'' else ''trace''),
                    ef_directives = []\<rparr>;
          filter = foldl (\<lambda>f d. add_directive d f) filter
            [''mio=off'', ''tokio_util=off'', ''hyper=off'', ''reqwest=off'', ''want=off'', ''h2=off''];
          filter = (if verbosity \<ge> 2 then add_directive ''amareleo_node_sync=trace'' filter
                    else add_directive ''amareleo_node_sync=debug'' filter)
      in if verbosity \<ge> 3 then add_directive ''amareleo_node_bft=trace'' filter
         else add_directive ''amareleo_node_bft=debug'' filter)"

datatype tracing_error =
    CreateDirectoriesFailed path
  | RootAsLogfile
  | OpenLogfileFailed path

text \<open>What the file system answers: whether a path exists, whether a directory can be made with its parents, and
  whether a file can be opened for appending.\<close>

record log_fs =
  lf_exists :: "path \<Rightarrow> bool"
  lf_create_dir_all :: "path \<Rightarrow> bool"
  lf_open_append :: "path \<Rightarrow> bool"

definition path_parent :: "path \<Rightarrow> path option" where
  "path_parent p = (if p = [] then None else Some (butlast p))"

text \<open>The file handle is the path of the open file.\<close>

definition init_file_writer :: "log_fs \<Rightarrow> path \<Rightarrow> (tracing_error, path) result" where
  "init_file_writer fs logfile_path =
     rbind (case path_parent logfile_path of
              Some logfile_dir \<Rightarrow>
                if \<not> lf_exists fs logfile_dir \<and> \<not> lf_create_dir_all fs logfile_dir
                then Inl (CreateDirectoriesFailed logfile_dir) else Inr ()
            | None \<Rightarrow> Inl RootAsLogfile)
       (\<lambda>_. if lf_open_append fs logfile_path then Inr logfile_path else Inl (OpenLogfileFailed logfile_path))"

datatype log_writer = LogFile path | Stdout

text \<open>The format of a layer is the default one of the crate or the one of the command line, which dims its output.\<close>

datatype log_format = DefaultFormat | DynamicFormat

record fmt_layer =
  la_ansi :: bool
  la_writer :: log_writer
  la_target :: bool
  la_format :: log_format
  la_filter :: env_filter

text \<open>A subscriber is the registry under its layers, the first one innermost.\<close>

record tracing_handler =
  th_subscriber :: "fmt_layer list"
  th_enabled :: bool

definition tracing_handler_new :: tracing_handler where
  "tracing_handler_new = \<lparr>th_subscriber = [], th_enabled = False\<rparr>"

definition set_one_layer :: "fmt_layer \<Rightarrow> tracing_handler" where
  "set_one_layer l = \<lparr>th_subscriber = [l], th_enabled = True\<rparr>"

definition set_two_layers :: "fmt_layer \<Rightarrow> fmt_layer \<Rightarrow> tracing_handler" where
  "set_two_layers l l' = \<lparr>th_subscriber = [l, l'], th_enabled = True\<rparr>"

definition tracing_handler_from :: "tracing_handler option \<Rightarrow> tracing_handler" where
  "tracing_handler_from h = (case h of Some t \<Rightarrow> t | None \<Rightarrow> tracing_handler_new)"

text \<open>The subscriber that a guard makes the current one of the thread.\<close>

definition get_tracing_guard :: "tracing_handler \<Rightarrow> fmt_layer list option" where
  "get_tracing_guard t = (if th_enabled t then Some (th_subscriber t) else None)"

definition file_layer :: "nat \<Rightarrow> path \<Rightarrow> fmt_layer" where
  "file_layer verbosity file =
     \<lparr>la_ansi = False, la_writer = LogFile file, la_target = verbosity > 2, la_format = DefaultFormat,
      la_filter = init_env_filter verbosity\<rparr>"

definition initialize_tracing :: "log_fs \<Rightarrow> nat \<Rightarrow> path \<Rightarrow> (tracing_error, tracing_handler) result" where
  "initialize_tracing fs verbosity logfile_path =
     rbind (init_file_writer fs logfile_path) (\<lambda>file. Inr (set_one_layer (file_layer verbosity file)))"

section \<open>Lemmas\<close>

text \<open>The levels above three filter like level three.\<close>

lemma init_env_filter_saturates: "3 \<le> v \<Longrightarrow> init_env_filter v = init_env_filter 3"
  by (simp add: init_env_filter_def Let_def)

lemma init_env_filter_bft:
  "''amareleo_node_bft=debug'' \<in> set (ef_directives (init_env_filter v)) \<longleftrightarrow> v \<le> 2"
  by (auto simp: init_env_filter_def add_directive_def Let_def)

lemma init_file_writer_ok:
  "init_file_writer fs p = Inr q \<longleftrightarrow> q = p \<and> p \<noteq> [] \<and> (lf_exists fs (butlast p) \<or> lf_create_dir_all fs (butlast p)) \<and>
     lf_open_append fs p"
  by (auto simp: init_file_writer_def path_parent_def rbind_Inr_iff split: option.splits if_splits)

lemma initialize_tracing_ok:
  "initialize_tracing fs v p = Inr t \<longleftrightarrow> init_file_writer fs p = Inr p \<and> t = set_one_layer (file_layer v p)"
  by (auto simp: initialize_tracing_def rbind_Inr_iff init_file_writer_ok)

lemma get_tracing_guard_simps [simp]:
  "get_tracing_guard (set_one_layer l) = Some [l]"
  "get_tracing_guard (set_two_layers l l') = Some [l, l']"
  "get_tracing_guard (tracing_handler_from None) = None"
  by (simp_all add: get_tracing_guard_def set_one_layer_def set_two_layers_def tracing_handler_from_def
      tracing_handler_new_def)

end
