(* ===== verification/Api.thy ===== *)
theory Api
  imports Validator Tracing
begin

text \<open>
  The public object of the library, \<open>AmareleoApi\<close> (\<open>api/src/api/api_node.rs\<close>, \<open>api_data.rs\<close>,
  \<open>api_logs.rs\<close>, \<open>api_state.rs\<close>, \<open>api_validator.rs\<close> and the file helpers of
  \<open>api_helpers.rs\<close>): its configuration, its life cycle, and the calls of \<open>start\<close> and \<open>end\<close> that several
  threads may make at once. Each section under the mutex is one step; between the
  preparation and the completion of a start or an end other calls may come in.
\<close>

section \<open>Data\<close>

datatype api_state = Init | StartPending | Started | StopPending | Stopped

datatype amareleo_log = FileLog "path option" | CustomLog tracing_handler | NoLog

datatype 'ts validator_api =
    CanaryV0 "'ts validator"
  | MainnetV0 "'ts validator"
  | TestnetV0 "'ts validator"
  | NoValidator

text \<open>The shutdown flag is shared: the field stands for the one flag that the object and every validator it
  makes refer to.\<close>

record 'ts api_data =
  ad_state :: api_state
  ad_prev_state :: api_state
  ad_network_id :: nat
  ad_rest_ip :: socket_addr
  ad_rest_rps :: nat
  ad_keep_state :: bool
  ad_ledger_base_path :: "path option"
  ad_ledger_default_naming :: bool
  ad_log_mode :: amareleo_log
  ad_tracing :: "tracing_handler option"
  ad_verbosity :: nat
  ad_shutdown :: bool
  ad_validator :: "'ts validator_api"

record validator_new_data =
  nd_network_id :: nat
  nd_rest_ip :: socket_addr
  nd_rest_rps :: nat
  nd_keep_state :: bool
  nd_storage_path :: path
  nd_tracing :: "tracing_handler option"

datatype api_error =
    InvalidNodeState api_state
  | InvalidNetworkId nat
  | LogDisabled
  | FilesError files_error
  | TracingError tracing_error
  | RemoveCacheFailed
  | RemoveLedgerFailed
  | UnsupportedNetwork
  | ApiGenesisError genesis_error
  | ApiValidatorError validator_error

text \<open>Per network the parameters of the genesis block and of the validator; removing a path and opening a log
  file, as the file system has it, may fail.\<close>

record ('ts, 'rng, 'key) api_params =
  ap_ids :: network_ids
  ap_genesis :: "nat \<Rightarrow> ('rng, 'key) genesis_params"
  ap_validator :: "nat \<Rightarrow> 'ts validator_params"
  ap_files :: file_params
  ap_log_fs :: log_fs
  ap_remove_ok :: "path \<Rightarrow> bool"

definition api_new :: "network_ids \<Rightarrow> 'ts api_data" where
  "api_new ids =
     \<lparr>ad_state = Init, ad_prev_state = Init, ad_network_id = ni_testnet ids, ad_rest_ip = V4 0 0 0 0 3030,
      ad_rest_rps = 10, ad_keep_state = False, ad_ledger_base_path = None, ad_ledger_default_naming = False,
      ad_log_mode = NoLog, ad_tracing = None, ad_verbosity = 1, ad_shutdown = False, ad_validator = NoValidator\<rparr>"

section \<open>Configuration\<close>

definition is_state :: "'ts api_data \<Rightarrow> api_state \<Rightarrow> bool" where
  "is_state d s \<longleftrightarrow> ad_state d = s"

definition is_valid_network_id :: "network_ids \<Rightarrow> nat \<Rightarrow> bool" where
  "is_valid_network_id ids n \<longleftrightarrow> n = ni_canary ids \<or> n = ni_testnet ids \<or> n = ni_mainnet ids"

definition cfg_network :: "network_ids \<Rightarrow> nat \<Rightarrow> 'ts api_data \<Rightarrow> (api_error, unit) result \<times> 'ts api_data" where
  "cfg_network ids n d =
     (if \<not> is_state d Init then (Inl (InvalidNodeState (ad_state d)), d)
      else if \<not> is_valid_network_id ids n then (Inl (InvalidNetworkId n), d)
      else (Inr (), d\<lparr>ad_network_id := n\<rparr>))"

definition cfg_rest :: "socket_addr \<Rightarrow> nat \<Rightarrow> 'ts api_data \<Rightarrow> (api_error, unit) result \<times> 'ts api_data" where
  "cfg_rest ip_port rps d =
     (if \<not> is_state d Init then (Inl (InvalidNodeState (ad_state d)), d)
      else (Inr (), d\<lparr>ad_rest_ip := ip_port, ad_rest_rps := rps\<rparr>))"

definition cfg_ledger ::
  "bool \<Rightarrow> path option \<Rightarrow> bool \<Rightarrow> 'ts api_data \<Rightarrow> (api_error, unit) result \<times> 'ts api_data" where
  "cfg_ledger keep_state base_path default_naming d =
     (if \<not> is_state d Init then (Inl (InvalidNodeState (ad_state d)), d)
      else (Inr (), d\<lparr>ad_keep_state := keep_state, ad_ledger_base_path := base_path,
                       ad_ledger_default_naming := default_naming\<rparr>))"

definition cfg_file_log :: "path option \<Rightarrow> nat \<Rightarrow> 'ts api_data \<Rightarrow> (api_error, unit) result \<times> 'ts api_data" where
  "cfg_file_log log_file verbosity d =
     (if \<not> is_state d Init \<and> \<not> is_state d Stopped then (Inl (InvalidNodeState (ad_state d)), d)
      else (Inr (), d\<lparr>ad_log_mode := FileLog log_file, ad_verbosity := verbosity\<rparr>))"

definition cfg_custom_log :: "tracing_handler \<Rightarrow> 'ts api_data \<Rightarrow> (api_error, unit) result \<times> 'ts api_data" where
  "cfg_custom_log tracing d =
     (if \<not> is_state d Init \<and> \<not> is_state d Stopped then (Inl (InvalidNodeState (ad_state d)), d)
      else (Inr (), d\<lparr>ad_log_mode := CustomLog tracing\<rparr>))"

definition cfg_no_log :: "'ts api_data \<Rightarrow> (api_error, unit) result \<times> 'ts api_data" where
  "cfg_no_log d =
     (if \<not> is_state d Init \<and> \<not> is_state d Stopped then (Inl (InvalidNodeState (ad_state d)), d)
      else (Inr (), d\<lparr>ad_log_mode := NoLog\<rparr>))"

text \<open>The variants that fail silently.\<close>

definition try_cfg_network :: "network_ids \<Rightarrow> nat \<Rightarrow> 'ts api_data \<Rightarrow> 'ts api_data" where
  "try_cfg_network ids n d = snd (cfg_network ids n d)"

definition try_cfg_rest :: "socket_addr \<Rightarrow> nat \<Rightarrow> 'ts api_data \<Rightarrow> 'ts api_data" where
  "try_cfg_rest ip_port rps d = snd (cfg_rest ip_port rps d)"

definition try_cfg_ledger :: "bool \<Rightarrow> path option \<Rightarrow> bool \<Rightarrow> 'ts api_data \<Rightarrow> 'ts api_data" where
  "try_cfg_ledger keep_state base_path default_naming d = snd (cfg_ledger keep_state base_path default_naming d)"

definition try_cfg_file_log :: "path option \<Rightarrow> nat \<Rightarrow> 'ts api_data \<Rightarrow> 'ts api_data" where
  "try_cfg_file_log log_file verbosity d = snd (cfg_file_log log_file verbosity d)"

definition try_cfg_custom_log :: "tracing_handler \<Rightarrow> 'ts api_data \<Rightarrow> 'ts api_data" where
  "try_cfg_custom_log tracing d = snd (cfg_custom_log tracing d)"

definition try_cfg_no_log :: "'ts api_data \<Rightarrow> 'ts api_data" where
  "try_cfg_no_log d = snd (cfg_no_log d)"

section \<open>Observers\<close>

definition log_get_path :: "amareleo_log \<Rightarrow> path option" where
  "log_get_path l = (case l of FileLog p \<Rightarrow> p | _ \<Rightarrow> None)"

definition log_is_file :: "amareleo_log \<Rightarrow> bool" where
  "log_is_file l = (case l of FileLog _ \<Rightarrow> True | _ \<Rightarrow> False)"

definition log_is_custom :: "amareleo_log \<Rightarrow> bool" where
  "log_is_custom l = (case l of CustomLog _ \<Rightarrow> True | _ \<Rightarrow> False)"

definition log_is_none :: "amareleo_log \<Rightarrow> bool" where
  "log_is_none l = (case l of NoLog \<Rightarrow> True | _ \<Rightarrow> False)"

definition is_started :: "'ts api_data \<Rightarrow> bool" where
  "is_started d = is_state d Started"

definition get_log_file :: "file_params \<Rightarrow> 'ts api_data \<Rightarrow> (api_error, path) result" where
  "get_log_file F d =
     (if \<not> log_is_file (ad_log_mode d) then Inl LogDisabled
      else case log_get_path (ad_log_mode d) of
        Some p \<Rightarrow> Inr p
      | None \<Rightarrow> rbind (map_err FilesError (endpoint_file_tag F False (ad_rest_ip d))) (\<lambda>tag.
          Inr (amareleo_log_file F (ad_network_id d) (ad_keep_state d) tag)))"

definition get_ledger_folder :: "file_params \<Rightarrow> 'ts api_data \<Rightarrow> (api_error, path) result" where
  "get_ledger_folder F d =
     rbind (map_err FilesError (endpoint_file_tag F (ad_ledger_default_naming d) (ad_rest_ip d))) (\<lambda>tag.
       Inr (case ad_ledger_base_path d of
              Some base \<Rightarrow> custom_ledger_dir (ad_network_id d) (ad_keep_state d) tag base
            | None \<Rightarrow> default_ledger_dir F (ad_network_id d) (ad_keep_state d) tag))"

definition trace_init ::
  "('ts, 'rng, 'key) api_params \<Rightarrow> 'ts api_data \<Rightarrow> (api_error, unit) result \<times> 'ts api_data" where
  "trace_init A d =
     (case ad_log_mode d of
        FileLog _ \<Rightarrow>
          (case rbind (get_log_file (ap_files A) d)
                  (\<lambda>p. map_err TracingError (initialize_tracing (ap_log_fs A) (ad_verbosity d) p)) of
             Inl e \<Rightarrow> (Inl e, d)
           | Inr t \<Rightarrow> (Inr (), d\<lparr>ad_tracing := Some t\<rparr>))
      | CustomLog t \<Rightarrow> (Inr (), d\<lparr>ad_tracing := Some t\<rparr>)
      | NoLog \<Rightarrow> (Inr (), d\<lparr>ad_tracing := None\<rparr>))"

section \<open>Starting\<close>

text \<open>Removes the cache file and the ledger folder where they exist.\<close>

definition clean_tmp_ledger ::
  "('ts, 'rng, 'key) api_params \<Rightarrow> path \<Rightarrow> 'ts disk \<Rightarrow> (api_error, unit) result \<times> 'ts disk" where
  "clean_tmp_ledger A ledger_path D =
     (case proposal_cache_path (amareleo_storage_mode ledger_path) of
        Inl e \<Rightarrow> (Inl (FilesError e), D)
      | Inr c \<Rightarrow>
          if dk_caches D c \<noteq> None \<and> \<not> ap_remove_ok A c then (Inl RemoveCacheFailed, D)
          else let D1 = D\<lparr>dk_caches := (dk_caches D)(c := None)\<rparr>
               in if dk_folders D1 ledger_path \<noteq> None \<and> \<not> ap_remove_ok A ledger_path then (Inl RemoveLedgerFailed, D1)
                  else (Inr (), D1\<lparr>dk_folders := (dk_folders D1)(ledger_path := None)\<rparr>))"

definition start_prep ::
  "('ts, 'rng, 'key) api_params \<Rightarrow> 'ts api_data \<Rightarrow> 'ts disk \<Rightarrow>
   (api_error, validator_new_data) result \<times> 'ts api_data \<times> 'ts disk" where
  "start_prep A d D =
     (if \<not> is_state d Init \<and> \<not> is_state d Stopped then (Inl (InvalidNodeState (ad_state d)), d, D)
      else case get_ledger_folder (ap_files A) d of
        Inl e \<Rightarrow> (Inl e, d, D)
      | Inr ledger_path \<Rightarrow>
          (case trace_init A d of
             (Inl e, d1) \<Rightarrow> (Inl e, d1, D)
           | (Inr _, d1) \<Rightarrow>
               (case (if \<not> ad_keep_state d1 then clean_tmp_ledger A ledger_path D else (Inr (), D)) of
                  (Inl e, D1) \<Rightarrow> (Inl e, d1, D1)
                | (Inr _, D1) \<Rightarrow>
                    (let d2 = d1\<lparr>ad_prev_state := ad_state d1, ad_state := StartPending\<rparr>
                     in (Inr \<lparr>nd_network_id = ad_network_id d2, nd_rest_ip = ad_rest_ip d2,
                              nd_rest_rps = ad_rest_rps d2, nd_keep_state = ad_keep_state d2,
                              nd_storage_path = ledger_path, nd_tracing = ad_tracing d2\<rparr>, d2, D1)))))"

text \<open>One arm of \<open>ValidatorApi::new\<close>.\<close>

definition validator_for ::
  "('ts, 'rng, 'key) api_params \<Rightarrow> int \<Rightarrow> bool \<Rightarrow> bool \<Rightarrow> validator_new_data \<Rightarrow> 'ts disk \<Rightarrow>
   (api_error, 'ts validator) result \<times> 'ts disk" where
  "validator_for A now free shutdown nd D =
     (let G = ap_genesis A (nd_network_id nd) in
      case get_node_account G of
        Inl e \<Rightarrow> (Inl (ApiGenesisError e), D)
      | Inr account \<Rightarrow>
          (case get_genesis G (dk_temp D) of
             (Inl e, files) \<Rightarrow> (Inl (ApiGenesisError e), D\<lparr>dk_temp := files\<rparr>)
           | (Inr genesis, files) \<Rightarrow>
               (let (r, D') = validator_new (ap_validator A (nd_network_id nd)) now free (nd_rest_ip nd) (nd_rest_rps nd)
                      account genesis (nd_keep_state nd) (nd_storage_path nd) shutdown (D\<lparr>dk_temp := files\<rparr>)
                in (map_err ApiValidatorError r, D'))))"

definition validator_api_new ::
  "('ts, 'rng, 'key) api_params \<Rightarrow> int \<Rightarrow> bool \<Rightarrow> bool \<Rightarrow> validator_new_data \<Rightarrow> 'ts disk \<Rightarrow>
   (api_error, 'ts validator_api) result \<times> 'ts disk" where
  "validator_api_new A now free shutdown nd D =
     (let (r, D') = validator_for A now free shutdown nd D in
      if nd_network_id nd = ni_canary (ap_ids A) then (rbind r (\<lambda>v. Inr (CanaryV0 v)), D')
      else if nd_network_id nd = ni_testnet (ap_ids A) then (rbind r (\<lambda>v. Inr (TestnetV0 v)), D')
      else if nd_network_id nd = ni_mainnet (ap_ids A) then (rbind r (\<lambda>v. Inr (MainnetV0 v)), D')
      else (Inl UnsupportedNetwork, D))"

definition start_complete :: "'ts validator_api \<Rightarrow> 'ts api_data \<Rightarrow> 'ts api_data" where
  "start_complete v d = d\<lparr>ad_validator := v, ad_prev_state := ad_state d, ad_state := Started\<rparr>"

definition start_revert :: "'ts api_data \<Rightarrow> 'ts api_data" where
  "start_revert d = d\<lparr>ad_state := ad_prev_state d\<rparr>"

section \<open>Stopping\<close>

definition end_prep :: "'ts api_data \<Rightarrow> (api_error, 'ts validator_api) result \<times> 'ts api_data" where
  "end_prep d =
     (if \<not> is_state d Started then (Inl (InvalidNodeState (ad_state d)), d)
      else (Inr (ad_validator d), d\<lparr>ad_prev_state := ad_state d, ad_state := StopPending\<rparr>))"

text \<open>The validator inside, if there is one, with its network.\<close>

fun the_validator :: "network_ids \<Rightarrow> 'ts validator_api \<Rightarrow> (nat \<times> 'ts validator) option" where
  "the_validator ids (CanaryV0 v) = Some (ni_canary ids, v)"
| "the_validator ids (MainnetV0 v) = Some (ni_mainnet ids, v)"
| "the_validator ids (TestnetV0 v) = Some (ni_testnet ids, v)"
| "the_validator ids NoValidator = None"

text \<open>The validator is shut down, which sets the shared flag, and its databases stay on disk.\<close>

definition validator_api_shut_down ::
  "('ts, 'rng, 'key) api_params \<Rightarrow> 'ts validator_api \<Rightarrow> bool \<Rightarrow> 'ts disk \<Rightarrow> bool \<times> 'ts disk" where
  "validator_api_shut_down A v shutdown D =
     (case the_validator (ap_ids A) v of
        None \<Rightarrow> (shutdown, D)
      | Some (n, x) \<Rightarrow>
          (True, write_back (va_storage_path x) (va_node (validator_shut_down (ap_validator A n) x)) D))"

definition end_complete :: "'ts api_data \<Rightarrow> 'ts api_data" where
  "end_complete d = d\<lparr>ad_validator := NoValidator, ad_prev_state := ad_state d, ad_state := Stopped\<rparr>"

section \<open>Calls one after the other\<close>

text \<open>\<open>start\<close> and \<open>end\<close> when no other call comes in between. A panic of the REST server leaves the object as the
  preparation left it.\<close>

definition api_start ::
  "('ts, 'rng, 'key) api_params \<Rightarrow> int \<Rightarrow> bool \<Rightarrow> 'ts api_data \<Rightarrow> 'ts disk \<Rightarrow>
   (api_error, unit) result \<times> 'ts api_data \<times> 'ts disk" where
  "api_start A now free d D =
     (case start_prep A d D of
        (Inl e, d1, D1) \<Rightarrow> (Inl e, d1, D1)
      | (Inr nd, d1, D1) \<Rightarrow>
          (case validator_api_new A now free (ad_shutdown d1) nd D1 of
             (Inr v, D2) \<Rightarrow> (Inr (), start_complete v d1, D2)
           | (Inl e, D2) \<Rightarrow> (Inl e, if e = ApiValidatorError RestPanicked then d1 else start_revert d1, D2)))"

definition api_end ::
  "('ts, 'rng, 'key) api_params \<Rightarrow> 'ts api_data \<Rightarrow> 'ts disk \<Rightarrow> (api_error, unit) result \<times> 'ts api_data \<times> 'ts disk" where
  "api_end A d D =
     (case end_prep d of
        (Inl e, d1) \<Rightarrow> (Inl e, d1, D)
      | (Inr v, d1) \<Rightarrow>
          (let (flag, D1) = validator_api_shut_down A v (ad_shutdown d1) D
           in (Inr (), (end_complete d1)\<lparr>ad_shutdown := flag\<rparr>, D1)))"

section \<open>Concurrent calls\<close>

text \<open>The calls of \<open>start\<close> and \<open>end\<close> that have been prepared and not completed.\<close>

datatype pending = Starting validator_new_data | Stopping

record 'ts world =
  w_data :: "'ts api_data"
  w_disk :: "'ts disk"
  w_pending :: "pending list"

fun map_validator :: "('ts bft \<Rightarrow> 'ts bft) \<Rightarrow> 'ts validator_api \<Rightarrow> 'ts validator_api" where
  "map_validator f (CanaryV0 v) = CanaryV0 (v\<lparr>va_node := f (va_node v)\<rparr>)"
| "map_validator f (MainnetV0 v) = MainnetV0 (v\<lparr>va_node := f (va_node v)\<rparr>)"
| "map_validator f (TestnetV0 v) = TestnetV0 (v\<lparr>va_node := f (va_node v)\<rparr>)"
| "map_validator f NoValidator = NoValidator"

text \<open>A panic unwinds through \<open>start\<close>: neither \<open>start_complete\<close> nor \<open>start_revert\<close> is called.\<close>

inductive api_step :: "('ts, 'rng, 'key) api_params \<Rightarrow> 'ts world \<Rightarrow> 'ts world \<Rightarrow> bool" for A where
  network: "cfg_network (ap_ids A) n (w_data w) = (r, d) \<Longrightarrow> api_step A w (w\<lparr>w_data := d\<rparr>)"
| rest: "cfg_rest ip rps (w_data w) = (r, d) \<Longrightarrow> api_step A w (w\<lparr>w_data := d\<rparr>)"
| ledger: "cfg_ledger keep base naming (w_data w) = (r, d) \<Longrightarrow> api_step A w (w\<lparr>w_data := d\<rparr>)"
| file_log: "cfg_file_log p verbosity (w_data w) = (r, d) \<Longrightarrow> api_step A w (w\<lparr>w_data := d\<rparr>)"
| custom_log: "cfg_custom_log t (w_data w) = (r, d) \<Longrightarrow> api_step A w (w\<lparr>w_data := d\<rparr>)"
| no_log: "cfg_no_log (w_data w) = (r, d) \<Longrightarrow> api_step A w (w\<lparr>w_data := d\<rparr>)"
| start: "start_prep A (w_data w) (w_disk w) = (Inr nd, d, D) \<Longrightarrow>
    api_step A w (w\<lparr>w_data := d, w_disk := D, w_pending := w_pending w @ [Starting nd]\<rparr>)"
| start_refused: "start_prep A (w_data w) (w_disk w) = (Inl e, d, D) \<Longrightarrow>
    api_step A w (w\<lparr>w_data := d, w_disk := D\<rparr>)"
| started: "Starting nd \<in> set (w_pending w) \<Longrightarrow>
    validator_api_new A now free (ad_shutdown (w_data w)) nd (w_disk w) = (Inr v, D) \<Longrightarrow>
    api_step A w (w\<lparr>w_data := start_complete v (w_data w), w_disk := D,
                    w_pending := remove1 (Starting nd) (w_pending w)\<rparr>)"
| start_failed: "Starting nd \<in> set (w_pending w) \<Longrightarrow>
    validator_api_new A now free (ad_shutdown (w_data w)) nd (w_disk w) = (Inl e, D) \<Longrightarrow>
    e \<noteq> ApiValidatorError RestPanicked \<Longrightarrow>
    api_step A w (w\<lparr>w_data := start_revert (w_data w), w_disk := D,
                    w_pending := remove1 (Starting nd) (w_pending w)\<rparr>)"
| start_panicked: "Starting nd \<in> set (w_pending w) \<Longrightarrow>
    validator_api_new A now free (ad_shutdown (w_data w)) nd (w_disk w) = (Inl (ApiValidatorError RestPanicked), D) \<Longrightarrow>
    api_step A w (w\<lparr>w_disk := D, w_pending := remove1 (Starting nd) (w_pending w)\<rparr>)"
| stop: "end_prep (w_data w) = (Inr v, d) \<Longrightarrow>
    api_step A w (w\<lparr>w_data := d, w_pending := w_pending w @ [Stopping]\<rparr>)"
| stop_refused: "end_prep (w_data w) = (Inl e, d) \<Longrightarrow> api_step A w (w\<lparr>w_data := d\<rparr>)"
| stopped: "Stopping \<in> set (w_pending w) \<Longrightarrow>
    validator_api_shut_down A (ad_validator (w_data w)) (ad_shutdown (w_data w)) (w_disk w) = (flag, D) \<Longrightarrow>
    api_step A w (w\<lparr>w_data := (end_complete (w_data w))\<lparr>ad_shutdown := flag\<rparr>, w_disk := D,
                    w_pending := remove1 Stopping (w_pending w)\<rparr>)"
| running: "the_validator (ap_ids A) (ad_validator (w_data w)) = Some (n, v) \<Longrightarrow>
    handler_step (vp_consensus (ap_validator A n)) (va_node v) b \<Longrightarrow>
    api_step A w (w\<lparr>w_data := (w_data w)\<lparr>ad_validator := map_validator (\<lambda>_. b) (ad_validator (w_data w))\<rparr>\<rparr>)"

inductive_cases api_stepE: "api_step A w w'"

end
