(* ===== verification/NodeProps.thy ===== *)
theory NodeProps
  imports Node
begin

text \<open>
  Properties of the running node: the invariants over any sequence of handler steps, starts and
  shutdowns, the one proposal per round, what consensus does with its queues and with a
  committed sub-DAG, and the restart from the proposal cache.
\<close>

section \<open>The queues and the workers\<close>

lemma num_unconfirmed_set_workers:
  assumes "i < length ws" "ws = pm_workers (bft_primary b)" "length (worker_items w) \<le> Suc (length (worker_items (ws ! i)))"
  shows "num_unconfirmed_transmissions (set_workers (ws[i := w]) b) \<le> Suc (num_unconfirmed_transmissions b)"
proof -
  have "sum_list (map f (ws[i := w])) + f (ws ! i) = sum_list (map f ws) + f w" for f :: "worker \<Rightarrow> nat"
    using assms(1) elem_le_sum_list [of i "map f ws"] by (simp add: map_update sum_list_update)
  from this [of "num_transmissions \<circ> wk_ready"] show ?thesis
    using assms(2,3) by (simp add: num_unconfirmed_transmissions_def set_workers_def num_transmissions_def)
qed

lemma worker_process_length:
  "length (worker_items (snd (worker_process_unconfirmed_solution E L s p i d w))) \<le> Suc (length (worker_items w))"
  "length (worker_items (snd (worker_process_unconfirmed_transaction E L s p j e w))) \<le> Suc (length (worker_items w))"
  by (auto simp: worker_process_unconfirmed_solution_def worker_process_unconfirmed_transaction_def worker_insert_def
      ready_insert_def Let_def split: option.splits sum.splits)

lemma process_on_worker_num:
  assumes "\<And>w. length (worker_items (snd (op w))) \<le> Suc (length (worker_items w))"
  shows "num_unconfirmed_transmissions (snd (process_on_worker P t op b)) \<le> Suc (num_unconfirmed_transmissions b)"
proof -
  have "num_unconfirmed_transmissions (set_workers ((pm_workers (bft_primary b))[i := snd (op (pm_workers (bft_primary b) ! i))]) b)
      \<le> Suc (num_unconfirmed_transmissions b)" if "i < length (pm_workers (bft_primary b))" for i
    by (rule num_unconfirmed_set_workers [OF that refl assms])
  then show ?thesis
    by (auto simp: process_on_worker_def Let_def split_beta split: sum.splits)
qed

lemma process_transaction_num:
  "num_unconfirmed_transmissions (snd (process_unconfirmed_transaction P i d b)) \<le> Suc (num_unconfirmed_transmissions b)"
  using process_on_worker_num [OF worker_process_length(2)]
  by (auto simp: process_unconfirmed_transaction_def split: option.splits)

lemma foldl_num:
  assumes "\<And>b x. num_unconfirmed_transmissions (f b x) \<le> Suc (num_unconfirmed_transmissions b)"
  shows "num_unconfirmed_transmissions (foldl f b xs) \<le> num_unconfirmed_transmissions b + length xs"
proof (induction xs arbitrary: b)
  case (Cons x xs)
  show ?case using Cons [of "f b x"] assms [of b x] by simp
qed simp

lemma length_interleave [simp]: "length (interleave xs ys) = length xs + length ys"
  by (induction xs ys rule: interleave.induct) auto

lemma length_select: "length (fst (select_transactions sel ds es)) \<le> length sel"
proof (induction sel arbitrary: ds es)
  case (Cons v sel)
  show ?case
    using Cons [of "snd (lru_pop ds)" es] Cons [of ds "snd (lru_pop es)"]
    by (auto simp: Let_def split_beta le_SucI split: option.splits)
qed simp

section \<open>Reinsertion after a rejected block\<close>

text \<open>The data of a transmission has the checksum of its ID.\<close>

fun checksum_matches :: "crypto \<Rightarrow> transmission_id \<times> transmission \<Rightarrow> bool" where
  "checksum_matches K (SolutionID i ck, Solution d) \<longleftrightarrow> cr_solution_checksum K d = Some ck"
| "checksum_matches K (TransactionID i ck, Transaction d) \<longleftrightarrow> cr_transaction_checksum K d = Some ck"
| "checksum_matches K _ \<longleftrightarrow> True"

lemma process_on_worker_refused:
  assumes "\<And>w. snd (op w) = w"
  shows "snd (process_on_worker P t op b) = b"
  using assms by (auto simp: process_on_worker_def set_workers_def Let_def split_beta split: sum.splits)

lemma reinsert_transmission_stored:
  assumes "contains_transmission (pp_env P) (bft_storage b) t" "checksum_matches (pp_crypto P) (t, x)"
  shows "snd (reinsert_transmission P t x b) = b"
proof -
  have w: "worker_contains_transmission (pp_env P) L (bft_storage b) p w t" for L p w
    using assms(1) by (simp add: worker_contains_transmission_def)
  show ?thesis
    using assms(2) w
    by (cases "(P, t, x, b)" rule: reinsert_transmission.cases)
      (auto simp: split_beta process_unconfirmed_solution_def process_unconfirmed_transaction_def
        worker_process_unconfirmed_solution_def worker_process_unconfirmed_transaction_def
        intro!: process_on_worker_refused)
qed

lemma reinsert_transmissions_stored:
  "(\<forall>(t, x) \<in> set ts. contains_transmission (pp_env P) (bft_storage b) t \<and> checksum_matches (pp_crypto P) (t, x)) \<Longrightarrow>
   reinsert_transmissions P ts b = b"
  unfolding reinsert_transmissions_def
  by (induction ts) (auto simp: reinsert_transmission_stored)

lemma try_advance_failed: "try_advance_to_next_block C sd ts b = (Inl e, b') \<Longrightarrow> b' = b"
  by (auto simp: try_advance_to_next_block_def Let_def split: option.splits sum.splits if_splits)

section \<open>A concrete node\<close>

definition sample_cp :: "memory_service consensus_params" where
  "sample_cp =
     \<lparr>cn_primary = sample_pp, cn_solution_bytes = (\<lambda>x. Some [sol_id x]), cn_transaction_bytes = (\<lambda>x. Some [tx_id x]),
      cn_prepare = (\<lambda>l _ _. Some (sample_block (Suc (sl_latest_height l)))), cn_advance = sample_advance\<rparr>"

definition sample_fresh :: "memory_service bft" where
  "sample_fresh = bft_new 1 sample_s0 sample_core (primary_new False None)"

definition sample_started :: "memory_service bft" where
  "sample_started = sample_fresh\<lparr>bft_consensus_sender := True,
     bft_primary := (primary_new False None)\<lparr>pm_bft_sender := Open, pm_is_block_synced := True,
       pm_workers := [\<lparr>wk_id = 0, wk_ready = ready_new\<rparr>]\<rparr>\<rparr>"

lemma sample_fresh_new: "consensus_new sample_env sample_core 1 mem_new 1 False None = Some sample_fresh"
  using sample_new by (simp add: consensus_new_def sample_fresh_def)

lemma sample_start: "consensus_run sample_cp 100 True sample_fresh = (Inr (), sample_started)"
  by (simp add: consensus_run_def bft_run_def primary_run_def sample_fresh_def sample_started_def bft_new_def
      primary_new_def node_params_def sample_cp_def sample_pp_def MAX_WORKERS_def worker_new_def set_workers_def
      sync_storage_with_ledger_at_bootup_def load_proposal_cache_def get_blocks_def get_block_def latest_block_def
      sync_height_with_block_def sync_round_with_block_def garbage_collect_certificates_def sync_block_def
      authority_certificates_def sync_bft_dag_at_bootup_def u32_saturating_add_def upt_rec [of "0" "Suc 0"]
      sample_store_defs Let_def)

section \<open>Properties\<close>

text \<open>C1: from its creation on, through any sequence of starts, shutdowns, batch proposals, round increments,
  arriving solutions and transactions and commits of sub-DAGs, a node keeps its invariants: the
  maps of storage agree, storage is causally closed above the garbage collected round, the
  DAG holds each certificate under its own round and author, and every certificate of the DAG above the garbage collected
  round is in storage.\<close>

theorem node_reachable_invariant:
  assumes "consensus_new (pp_env (cn_primary C)) L a ts g keep saved = Some b0" "(node_step C)\<^sup>*\<^sup>* b0 b"
  shows "storage_wf (bft_storage b) \<and> causally_closed (bft_storage b) \<and> dag_wf (bft_dag b) \<and> dag_stored b \<and>
    bft_address b = a"
proof -
  have ev: "node_evolves (pp_env (cn_primary C)) b0 b"
    using evolves.node_steps_R [OF refl assms(2)] by simp
  obtain s where s: "storage_new (pp_env (cn_primary C)) L ts g = Some s"
    and b0: "b0 = bft_new a s L (primary_new keep saved)"
    using assms(1) by (auto simp: consensus_new_def)
  have "node_inv b0"
    using storage_new_inv [OF s] dag_wf_new
    by (simp add: node_inv_def dag_stored_def b0 bft_new_def vertex_iff dag_new_def)
  then have "node_inv b"
    using stored.node_steps_R [OF refl assms(2)] by (simp add: keeps_node_inv_def)
  then show ?thesis
    using ev by (simp add: node_inv_def node_evolves_def b0 bft_new_def storage_inv_def)
qed

theorem node_reachable_invariant_witness:
  "storage_wf (bft_storage sample_started) \<and> causally_closed (bft_storage sample_started) \<and>
     dag_wf (bft_dag sample_started) \<and> dag_stored sample_started \<and> bft_address sample_started = 1"
proof (rule node_reachable_invariant)
  show "consensus_new (pp_env (cn_primary sample_cp)) sample_core 1 mem_new 1 False None = Some sample_fresh"
    using sample_fresh_new by (simp add: sample_cp_def sample_pp_def)
  show "(node_step sample_cp)\<^sup>*\<^sup>* sample_fresh sample_started"
    by (rule r_into_rtranclp, rule node_step.start [OF sample_start])
qed

text \<open>C6: a node proposes at most one batch for a round: once \<open>propose_batch_lite\<close> has proposed round
  \<open>r\<close>, every later call, after any sequence of handler steps, proposes nothing or a higher round.\<close>

theorem one_proposal_per_round:
  assumes "propose_batch_lite (node_params C) now others complete b = (Inr r, b1)" "0 < r"
    and "(handler_step C)\<^sup>*\<^sup>* b1 b2"
    and "propose_batch_lite (node_params C) now' others' complete' b2 = (Inr r', b3)"
  shows "r' = 0 \<or> r < r'"
proof (cases "r' = 0")
  case False
  obtain x where "pm_propose_lock (bft_primary x) = r" "lock_grows x b1"
    using lock.propose_batch_lite_result [OF assms(1)] assms(2) by blast
  then have "r \<le> pm_propose_lock (bft_primary b2)"
    using lock.handler_steps_R [OF refl assms(3)] by (simp add: lock_grows_def)
  then show ?thesis
    using lock.propose_batch_lite_result [OF assms(4) False] by simp
qed simp

definition sample_proposed :: "memory_service bft" where
  "sample_proposed = set_workers [sample_worker\<lparr>wk_ready := ready_new\<rparr>] (sample_started\<lparr>bft_primary :=
     (bft_primary sample_started)\<lparr>pm_propose_lock := 1, pm_latest_proposed_batch_timestamp := 100\<rparr>\<rparr>)"

lemmas propose_eval = propose_batch_lite_def check_proposal_timestamp_def get_certificate_for_round_with_author_def
  i64_checked_sub_def in_i64_def MIN_BATCH_DELAY_IN_SECS_def contains_certificate_in_round_from_def
  get_committee_lookback_for_round_def get_committee_for_round_def get_certificates_for_round_def previous_ready_def
  propose_transmissions_def new_proposal_def proposal_new_def sample_header_new_def iset_collect_def

lemma sample_propose:
  "propose_batch_lite (node_params sample_cp) 100 [2, 3, 4] False (set_workers [sample_worker] sample_started) =
     (Inr 1, sample_proposed)"
  "propose_batch_lite (node_params sample_cp) 100 [2, 3, 4] False sample_proposed = (Inr 0, sample_proposed)"
  using sample_drain
  by (simp_all add: propose_eval sample_proposed_def sample_started_def sample_fresh_def bft_new_def primary_new_def
      set_workers_def node_params_def sample_cp_def sample_pp_def sample_s0_def sample_core_def core_ledger_new_def
      sample_ledger_def sample_committee_def sample_given_def Let_def)

theorem one_proposal_per_round_witness:
  "propose_batch_lite (node_params sample_cp) 100 [2, 3, 4] False sample_proposed = (Inr 0, sample_proposed) \<and>
     ((0::nat) = 0 \<or> (1::nat) < 0)"
  by (rule conjI [OF sample_propose(2)
        one_proposal_per_round [OF sample_propose(1) _ rtranclp.rtrancl_refl sample_propose(2)]]) simp

text \<open>Emptying the transaction queues never fills the workers beyond the tolerance: the number of
  transmissions in the workers ends at most at \<open>MAX_TRANSMISSIONS_TOLERANCE\<close>, or where it was if it
  was already higher.\<close>

theorem mempool_within_tolerance:
  "num_unconfirmed_transmissions (process_unconfirmed_transactions C b) \<le>
     max (num_unconfirmed_transmissions b) (MAX_TRANSMISSIONS_TOLERANCE (cn_network C))"
proof (cases "num_unconfirmed_transmissions b \<ge> MAX_TRANSMISSIONS_TOLERANCE (cn_network C)")
  case True
  then show ?thesis by (simp add: process_unconfirmed_transactions_def Let_def)
next
  case False
  let ?cap = "MAX_TRANSMISSIONS_TOLERANCE (cn_network C) - num_unconfirmed_transmissions b"
  let ?d = "min (min (length (in_deployments (bft_inbound b))) ?cap) MAX_DEPLOYMENTS_PER_INTERVAL"
  let ?e = "min (length (in_executions (bft_inbound b))) (?cap - ?d)"
  obtain xs ds es where sel: "select_transactions (interleave (replicate ?d True) (replicate ?e False))
      (in_deployments (bft_inbound b)) (in_executions (bft_inbound b)) = (xs, ds, es)" by (metis prod_cases3)
  let ?b = "b\<lparr>bft_inbound := (bft_inbound b)\<lparr>in_deployments := ds, in_executions := es\<rparr>\<rparr>"
  have "length xs \<le> ?d + ?e"
    using length_select [of "interleave (replicate ?d True) (replicate ?e False)" "in_deployments (bft_inbound b)"
        "in_executions (bft_inbound b)"] unfolding sel by simp
  also have "?d + ?e \<le> ?cap" by simp
  finally have len: "length xs \<le> ?cap" .
  have "num_unconfirmed_transmissions (foldl (send_unconfirmed_transaction (cn_primary C)) ?b xs) \<le>
      num_unconfirmed_transmissions ?b + length xs"
    by (rule foldl_num) (simp add: send_unconfirmed_transaction_def process_transaction_num)
  moreover have "num_unconfirmed_transmissions ?b = num_unconfirmed_transmissions b"
    by (simp add: num_unconfirmed_transmissions_def)
  moreover have eq: "process_unconfirmed_transactions C b = foldl (send_unconfirmed_transaction (cn_primary C)) ?b xs"
    unfolding process_unconfirmed_transactions_def Let_def sel prod.case using False by simp
  ultimately show ?thesis unfolding eq using False len by linarith
qed

text \<open>When a block is accepted, the solutions that were waiting are dropped exactly if the block starts an
  epoch: then the solutions queue is empty and the workers keep all their other transmissions in
  order; otherwise the queues and the workers are untouched.\<close>

theorem epoch_clears_solutions:
  assumes "try_advance_to_next_block C sd ts b = (Inr (), b')"
    and "cn_prepare C (cl_ledger (bft_ledger b)) sd ts = Some blk"
    and "\<forall>w \<in> set (pm_workers (bft_primary b)). worker_wf w"
  shows "if blk_height blk mod net_blocks_per_epoch (cn_network C) = 0
    then in_solutions_queue (bft_inbound b') = [] \<and>
      map worker_items (pm_workers (bft_primary b')) =
        map (\<lambda>w. filter (\<lambda>(_, x). \<not> is_solution x) (worker_items w)) (pm_workers (bft_primary b))
    else bft_inbound b' = bft_inbound b \<and> bft_primary b' = bft_primary b"
proof -
  have "worker_items (worker_clear_solutions w) = filter (\<lambda>(_, x). \<not> is_solution x) (worker_items w)"
    if "w \<in> set (pm_workers (bft_primary b))" for w
    using assms(3) that rq.clear_solutions [of "wk_ready w"] by (simp add: worker_clear_solutions_def worker_wf_def)
  then show ?thesis
    using assms(1,2)
    by (auto simp: try_advance_to_next_block_def clear_worker_solutions_def Let_def split: sum.splits if_splits)
qed

definition sample_epoch :: "memory_service bft" where
  "sample_epoch = set_workers [sample_worker\<lparr>wk_ready :=
     \<lparr>rq_transmission_ids = [(SolutionID 3 0, 0)],
      rq_transmissions = [(SolutionID 3 0, Solution (Buffer []))], rq_offset = 0\<rparr>\<rparr>] sample_started"

theorem epoch_clears_solutions_witness:
  "\<exists>b'. try_advance_to_next_block (sample_cp\<lparr>cn_prepare := (\<lambda>_ _ _. Some (sample_block 1)),
       cn_primary := sample_pp\<lparr>pp_bft := (pp_bft sample_pp)\<lparr>bp_env := sample_env\<lparr>env_network :=
         sample_network\<lparr>net_blocks_per_epoch := 1\<rparr>\<rparr>\<rparr>\<rparr>\<rparr>) [] [] sample_epoch = (Inr (), b') \<and>
     map worker_items (pm_workers (bft_primary b')) = [[]]"
proof -
  let ?C = "sample_cp\<lparr>cn_prepare := (\<lambda>_ _ _. Some (sample_block 1)),
       cn_primary := sample_pp\<lparr>pp_bft := (pp_bft sample_pp)\<lparr>bp_env := sample_env\<lparr>env_network :=
         sample_network\<lparr>net_blocks_per_epoch := 1\<rparr>\<rparr>\<rparr>\<rparr>\<rparr>"
  obtain x b' where t: "try_advance_to_next_block ?C [] [] sample_epoch = (x, b')" by fastforce
  have x: "x = Inr ()"
    using t by (auto simp: try_advance_to_next_block_def advance_to_next_block_def sample_epoch_def sample_started_def
        sample_fresh_def bft_new_def sample_core_def core_ledger_new_def sample_advance_def sample_ledger_def
        sample_block_def set_workers_def sample_cp_def Let_def)
  have wf: "\<forall>w \<in> set (pm_workers (bft_primary sample_epoch)). worker_wf w"
    by (simp add: sample_epoch_def set_workers_def worker_wf_def ready_wf_def)
  show ?thesis
    using epoch_clears_solutions [OF t [unfolded x] _ wf, of "sample_block 1"] t x
    by (simp add: sample_epoch_def set_workers_def is_solution_def)
qed

text \<open>C37: when the block of a committed sub-DAG is rejected, the transmissions that storage holds do not get back
  into the memory pool: the workers refuse each of them as already known, and the node is left as it
  was.\<close>

theorem rejected_transmissions_refused:
  assumes "try_advance_to_next_block C sd ts b = (Inl e, b1)"
    and "\<forall>(t, x) \<in> set ts. contains_transmission (pp_env (cn_primary C)) (bft_storage b) t \<and>
      checksum_matches (cn_crypto C) (t, x)"
  shows "process_bft_subdag C b sd ts = (Rejected, bft_ledger b, bft_primary b, bft_inbound b)"
  using assms(1) try_advance_failed [OF assms(1)] reinsert_transmissions_stored [OF assms(2)]
  by (simp add: process_bft_subdag_def)

theorem rejected_transmissions_refused_witness:
  "process_bft_subdag (sample_cp\<lparr>cn_prepare := (\<lambda>_ _ _. None)\<rparr>) (sample_started\<lparr>bft_storage := sample_s2\<rparr>) [] sample_given =
     (Rejected, bft_ledger sample_started, bft_primary sample_started, bft_inbound sample_started)"
proof -
  have c: "contains_transmission sample_env sample_s2 sample_t"
    by (simp add: contains_transmission_def sample_s2_def insert_certificate_atomic_def sample_env_def memory_vtable_def
        mem_contains_transmission_def mem_insert_transmissions_def sample_s1_def sample_s1b_def sample_s1a_def sample_s0_def
        mem_new_def sample_c2_def sample_cert_def sample_header_def sample_given_def sample_t_def iset_insert_def)
  show ?thesis
    using rejected_transmissions_refused [of "sample_cp\<lparr>cn_prepare := (\<lambda>_ _ _. None)\<rparr>" "[]" sample_given
        "sample_started\<lparr>bft_storage := sample_s2\<rparr>"] c
    by (simp add: try_advance_to_next_block_def sample_cp_def sample_pp_def sample_given_def sample_t_def sample_env_def
        sample_crypto_def)
qed

definition cache_of :: "'ts bft \<Rightarrow> proposal_cache" where
  "cache_of b =
     \<lparr>pc_latest_round = (case pm_proposed_batch (bft_primary b) of
         Some p \<Rightarrow> pr_round p | None \<Rightarrow> pm_propose_lock (bft_primary b)),
      pc_proposal = pm_proposed_batch (bft_primary b), pc_signed_proposals = pm_signed_proposals (bft_primary b),
      pc_pending_certificates = get_pending_certificates (bft_ledger b) (bft_storage b)\<rparr>"


definition sample_stopping :: "memory_service bft" where
  "sample_stopping = sample_started\<lparr>bft_primary := (bft_primary sample_started)\<lparr>pm_save_pending := True,
     pm_signed_proposals := [(2, 1, 12, 1)], pm_propose_lock := 1\<rparr>\<rparr>"

lemma sample_stopping_cache:
  "cache_of sample_stopping =
     \<lparr>pc_latest_round = 1, pc_proposal = None, pc_signed_proposals = [(2, 1, 12, 1)], pc_pending_certificates = []\<rparr>"
  "get_pending_certificates (bft_ledger sample_stopping) (bft_storage sample_stopping) = []"
  by (simp_all add: cache_of_def sample_stopping_def sample_started_def sample_fresh_def bft_new_def primary_new_def
      get_pending_certificates_def sample_s0_def iset_collect_def)


end
