(* ===== verification/ApiProps.thy ===== *)
theory ApiProps
  imports Api NodeProps
begin

text \<open>
  Properties of the public object under concurrent calls: its life cycle, what stays locked after the first start,
  what a start finds on disk, and what the shared shutdown flag does to a restarted node.
\<close>

section \<open>The life cycle\<close>

lemmas cfg_defs = cfg_network_def cfg_rest_def cfg_ledger_def cfg_file_log_def cfg_custom_log_def cfg_no_log_def
  is_state_def

text \<open>What all the configuration setters leave alone.\<close>

definition same_cycle :: "'ts api_data \<Rightarrow> 'ts api_data \<Rightarrow> bool" where
  "same_cycle d d' \<longleftrightarrow> ad_state d' = ad_state d \<and> ad_prev_state d' = ad_prev_state d \<and>
     ad_validator d' = ad_validator d \<and> ad_shutdown d' = ad_shutdown d"

text \<open>The settings that only \<open>Init\<close> lets one change.\<close>

definition same_settings :: "'ts api_data \<Rightarrow> 'ts api_data \<Rightarrow> bool" where
  "same_settings d d' \<longleftrightarrow> ad_network_id d' = ad_network_id d \<and> ad_rest_ip d' = ad_rest_ip d \<and>
     ad_rest_rps d' = ad_rest_rps d \<and> ad_keep_state d' = ad_keep_state d \<and>
     ad_ledger_base_path d' = ad_ledger_base_path d \<and> ad_ledger_default_naming d' = ad_ledger_default_naming d"

lemma same_settings_refl [simp]: "same_settings d d"
  by (simp add: same_settings_def)

lemma same_settings_trans: "same_settings a b \<Longrightarrow> same_settings b c \<Longrightarrow> same_settings a c"
  by (simp add: same_settings_def)

lemma cfg_same_cycle:
  "cfg_network ids n d = (r, d') \<Longrightarrow> same_cycle d d'" "cfg_rest ip rps d = (r, d') \<Longrightarrow> same_cycle d d'"
  "cfg_ledger keep base naming d = (r, d') \<Longrightarrow> same_cycle d d'" "cfg_file_log p v d = (r, d') \<Longrightarrow> same_cycle d d'"
  "cfg_custom_log t d = (r, d') \<Longrightarrow> same_cycle d d'" "cfg_no_log d = (r, d') \<Longrightarrow> same_cycle d d'"
  by (auto simp: cfg_defs same_cycle_def split: if_splits)

lemma cfg_same_settings:
  "cfg_network ids n d = (r, d') \<Longrightarrow> ad_state d \<noteq> Init \<Longrightarrow> same_settings d d'"
  "cfg_rest ip rps d = (r, d') \<Longrightarrow> ad_state d \<noteq> Init \<Longrightarrow> same_settings d d'"
  "cfg_ledger keep base naming d = (r, d') \<Longrightarrow> ad_state d \<noteq> Init \<Longrightarrow> same_settings d d'"
  "cfg_file_log p v d = (r, d') \<Longrightarrow> same_settings d d'" "cfg_custom_log t d = (r, d') \<Longrightarrow> same_settings d d'"
  "cfg_no_log d = (r, d') \<Longrightarrow> same_settings d d'"
  by (auto simp: cfg_defs same_settings_def split: if_splits)

lemma cfg_network_valid:
  "cfg_network ids n d = (r, d') \<Longrightarrow> is_valid_network_id ids (ad_network_id d) \<Longrightarrow> is_valid_network_id ids (ad_network_id d')"
  by (auto simp: cfg_defs split: if_splits)

lemma cfg_network_same:
  "cfg_rest ip rps d = (r, d') \<Longrightarrow> ad_network_id d' = ad_network_id d"
  "cfg_ledger keep base naming d = (r, d') \<Longrightarrow> ad_network_id d' = ad_network_id d"
  "cfg_file_log p v d = (r, d') \<Longrightarrow> ad_network_id d' = ad_network_id d"
  "cfg_custom_log t d = (r, d') \<Longrightarrow> ad_network_id d' = ad_network_id d"
  "cfg_no_log d = (r, d') \<Longrightarrow> ad_network_id d' = ad_network_id d"
  by (auto simp: cfg_defs split: if_splits)

lemma trace_init_data: "trace_init A d = (r, d') \<Longrightarrow> same_cycle d d' \<and> same_settings d d'"
  by (auto simp: trace_init_def same_cycle_def same_settings_def split: amareleo_log.splits sum.splits)

lemma start_prep_ok:
  assumes "start_prep A d D = (Inr nd, d', D')"
  shows "ad_state d \<in> {Init, Stopped} \<and> ad_state d' = StartPending \<and> ad_prev_state d' = ad_state d \<and>
    same_settings d d' \<and> ad_validator d' = ad_validator d \<and> ad_shutdown d' = ad_shutdown d \<and>
    nd_network_id nd = ad_network_id d \<and> nd_rest_rps nd = ad_rest_rps d \<and> nd_keep_state nd = ad_keep_state d \<and>
    get_ledger_folder (ap_files A) d = Inr (nd_storage_path nd)"
  using assms trace_init_data [of A d]
  by (fastforce simp: start_prep_def is_state_def same_cycle_def same_settings_def Let_def
      split: if_splits sum.splits prod.splits)

lemma start_prep_refused:
  assumes "start_prep A d D = (Inl e, d', D')"
  shows "same_cycle d d' \<and> same_settings d d'"
  using assms trace_init_data [of A d]
  by (fastforce simp: start_prep_def same_cycle_def Let_def split: if_splits sum.splits prod.splits)

lemma end_prep_ok:
  "end_prep d = (Inr v, d') \<Longrightarrow>
     ad_state d = Started \<and> v = ad_validator d \<and> d' = d\<lparr>ad_prev_state := Started, ad_state := StopPending\<rparr>"
  by (auto simp: end_prep_def is_state_def split: if_splits)

text \<open>A start and an end are only pending in their own state, at most one call is, the validator is there exactly
  while the node runs or stops, and it runs on the configured network. No start is pending in \<open>StartPending\<close> only
  after a panic, for which the rate limit has to be zero.\<close>

definition api_inv :: "('ts, 'rng, 'key) api_params \<Rightarrow> 'ts world \<Rightarrow> bool" where
  "api_inv A w \<longleftrightarrow> (case ad_state (w_data w) of
      StartPending \<Rightarrow>
        (\<exists>nd. w_pending w = [Starting nd] \<and> nd_network_id nd = ad_network_id (w_data w) \<and>
           nd_rest_rps nd = ad_rest_rps (w_data w)) \<or> (w_pending w = [] \<and> ad_rest_rps (w_data w) = 0)
    | StopPending \<Rightarrow> w_pending w = [Stopping]
    | _ \<Rightarrow> w_pending w = []) \<and>
   (ad_state (w_data w) = StartPending \<longrightarrow> ad_prev_state (w_data w) \<in> {Init, Stopped}) \<and>
   is_valid_network_id (ap_ids A) (ad_network_id (w_data w)) \<and>
   (if ad_state (w_data w) \<in> {Started, StopPending}
    then \<exists>v. the_validator (ap_ids A) (ad_validator (w_data w)) = Some (ad_network_id (w_data w), v)
    else ad_validator (w_data w) = NoValidator)"

lemma map_err_Inl_iff: "map_err g r = Inl e \<longleftrightarrow> (\<exists>d. r = Inl d \<and> e = g d)"
  by (cases r) auto

lemma rest_start_panics: "rest_start S ids n ip rps = Inl DivisionByZero \<longleftrightarrow> rps = 0"
  by (auto simp: rest_start_def spawn_server_def network_name_def split: if_splits sum.splits)

lemma validator_new_panics:
  "validator_new V now free ip rps a gen keep p sd D = (Inl RestPanicked, D') \<Longrightarrow> rps = 0"
  by (auto simp: validator_new_def rest_start_panics Let_def split: option.splits sum.splits prod.splits if_splits)

lemma validator_api_new_panics:
  assumes "validator_api_new A now free sd nd D = (Inl (ApiValidatorError RestPanicked), D')"
  shows "nd_rest_rps nd = 0"
proof -
  obtain r D1 where f: "validator_for A now free sd nd D = (r, D1)" by fastforce
  then have "r = Inl (ApiValidatorError RestPanicked)"
    using assms by (cases r) (auto simp: validator_api_new_def Let_def split: if_splits)
  then show ?thesis
    using f validator_new_panics by (fastforce simp: validator_for_def map_err_Inl_iff Let_def split: sum.splits prod.splits)
qed

lemma validator_api_new_network:
  assumes "validator_api_new A now free sd nd D = (Inr v, D')"
  shows "\<exists>x. the_validator (ap_ids A) v = Some (nd_network_id nd, x) \<and>
    fst (validator_for A now free sd nd D) = Inr x"
  using assms by (cases "validator_for A now free sd nd D")
    (auto simp: validator_api_new_def Let_def rbind_Inr_iff split: if_splits)

lemma the_validator_map:
  "the_validator ids v = Some (n, x) \<Longrightarrow> the_validator ids (map_validator f v) = Some (n, x\<lparr>va_node := f (va_node x)\<rparr>)"
  by (cases v) auto

lemma the_validator_none [simp]: "the_validator ids v = None \<longleftrightarrow> v = NoValidator"
  by (cases v) auto

text \<open>Once the flag is set the validator reads it; a stopped object has set it.\<close>

definition flag_inv :: "('ts, 'rng, 'key) api_params \<Rightarrow> 'ts world \<Rightarrow> bool" where
  "flag_inv A w \<longleftrightarrow>
     (ad_state (w_data w) = Stopped \<or> ad_state (w_data w) = StartPending \<and> ad_prev_state (w_data w) = Stopped \<longrightarrow>
       ad_shutdown (w_data w)) \<and>
     (ad_shutdown (w_data w) \<longrightarrow> (\<forall>n v. the_validator (ap_ids A) (ad_validator (w_data w)) = Some (n, v) \<longrightarrow>
       cl_shutdown (bft_ledger (va_node v))))"

text \<open>The object has been started once and can not go back to \<open>Init\<close>.\<close>

definition locked :: "'ts api_data \<Rightarrow> bool" where
  "locked d \<longleftrightarrow> ad_state d \<in> {Started, StopPending, Stopped} \<or> ad_state d = StartPending \<and> ad_prev_state d = Stopped"

lemma validator_for_new:
  assumes "fst (validator_for A now free sd nd D) = Inr x"
  shows "\<exists>account genesis files D'. fst (get_genesis (ap_genesis A (nd_network_id nd)) (dk_temp D)) = Inr genesis \<and>
    validator_new (ap_validator A (nd_network_id nd)) now free (nd_rest_ip nd) (nd_rest_rps nd) account genesis
      (nd_keep_state nd) (nd_storage_path nd) sd (D\<lparr>dk_temp := files\<rparr>) = (Inr x, D')"
proof -
  obtain account where a: "get_node_account (ap_genesis A (nd_network_id nd)) = Inr account"
    using assms by (cases "get_node_account (ap_genesis A (nd_network_id nd))") (auto simp: validator_for_def Let_def)
  obtain genesis files where g: "get_genesis (ap_genesis A (nd_network_id nd)) (dk_temp D) = (Inr genesis, files)"
    using assms a by (cases "get_genesis (ap_genesis A (nd_network_id nd)) (dk_temp D)")
      (auto simp: validator_for_def Let_def split: sum.splits)
  obtain r D' where v: "validator_new (ap_validator A (nd_network_id nd)) now free (nd_rest_ip nd) (nd_rest_rps nd) account
      genesis (nd_keep_state nd) (nd_storage_path nd) sd (D\<lparr>dk_temp := files\<rparr>) = (r, D')" by fastforce
  then have "r = Inr x" using assms by (simp add: validator_for_def a g)
  then show ?thesis using v g by auto
qed

lemma validator_for_frozen:
  assumes "validator_api_new A now free True nd D = (Inr v, D')" "the_validator (ap_ids A) v = Some (n, x)"
  shows "cl_shutdown (bft_ledger (va_node x))"
proof -
  have "fst (validator_for A now free True nd D) = Inr x"
    using validator_api_new_network [OF assms(1)] assms(2) by auto
  then show ?thesis using validator_for_new validator_new_frozen by blast
qed

text \<open>The steps, seen from the data under the mutex.\<close>

lemma api_step_elim:
  assumes "api_step A w w'" "api_inv A w"
  obtains (other) "w_pending w' = w_pending w" "same_cycle (w_data w) (w_data w')"
      "is_valid_network_id (ap_ids A) (ad_network_id (w_data w'))"
      "ad_state (w_data w) = Init \<or> same_settings (w_data w) (w_data w')"
    | (start) nd D D' where "start_prep A (w_data w) D = (Inr nd, w_data w', D')"
      "w_pending w' = w_pending w @ [Starting nd]"
    | (started) nd now free v D D' where "w_pending w = [Starting nd]" "w_pending w' = []"
      "validator_api_new A now free (ad_shutdown (w_data w)) nd D = (Inr v, D')"
      "w_data w' = start_complete v (w_data w)"
    | (failed) nd where "w_pending w = [Starting nd]" "w_pending w' = []" "w_data w' = start_revert (w_data w)"
    | (panicked) nd where "w_pending w = [Starting nd]" "w_pending w' = []" "w_data w' = w_data w" "nd_rest_rps nd = 0"
    | (stop) v where "end_prep (w_data w) = (Inr v, w_data w')" "w_pending w' = w_pending w @ [Stopping]"
    | (stopped) "w_pending w = [Stopping]" "w_pending w' = []"
      "w_data w' = (end_complete (w_data w))\<lparr>ad_shutdown := True\<rparr>"
    | (running) n v b where "the_validator (ap_ids A) (ad_validator (w_data w)) = Some (n, v)"
      "w_pending w' = w_pending w" "handler_step (vp_consensus (ap_validator A n)) (va_node v) b"
      "w_data w' = (w_data w)\<lparr>ad_validator := map_validator (\<lambda>_. b) (ad_validator (w_data w))\<rparr>"
proof -
  have valid: "is_valid_network_id (ap_ids A) (ad_network_id (w_data w))" using assms(2) by (simp add: api_inv_def)
  have one: "w_pending w = [Starting nd]" if "Starting nd \<in> set (w_pending w)" for nd
    using assms(2) that by (auto simp: api_inv_def split: api_state.splits)
  have stopping: "w_pending w = [Stopping] \<and> ad_state (w_data w) = StopPending" if "Stopping \<in> set (w_pending w)"
    using assms(2) that by (auto simp: api_inv_def split: api_state.splits)
  have flag: "fst (validator_api_shut_down A (ad_validator (w_data w)) sd D)" if "Stopping \<in> set (w_pending w)" for sd D
    using assms(2) stopping [OF that] by (auto simp: api_inv_def validator_api_shut_down_def)
  note rest = other start started failed panicked stop stopped running
  show thesis
    using assms(1)
  proof (cases rule: api_step.cases)
    case (network n r d)
    show thesis
      using cfg_same_cycle(1) [OF network(2)] cfg_same_settings(1) [OF network(2)] cfg_network_valid [OF network(2) valid]
      by (intro rest(1)) (auto simp: network(1))
  next
    case (rest ip rps r d)
    show thesis
      using cfg_same_cycle(2) [OF rest(2)] cfg_same_settings(2) [OF rest(2)] cfg_network_same(1) [OF rest(2)] valid
      by (intro other) (auto simp: rest(1))
  next
    case (ledger keep base naming r d)
    show thesis
      using cfg_same_cycle(3) [OF ledger(2)] cfg_same_settings(3) [OF ledger(2)] cfg_network_same(2) [OF ledger(2)] valid
      by (intro other) (auto simp: ledger(1))
  next
    case (file_log p verbosity r d)
    show thesis
      using cfg_same_cycle(4) [OF file_log(2)] cfg_same_settings(4) [OF file_log(2)] cfg_network_same(3) [OF file_log(2)] valid
      by (intro other) (auto simp: file_log(1))
  next
    case (custom_log t r d)
    show thesis
      using cfg_same_cycle(5) [OF custom_log(2)] cfg_same_settings(5) [OF custom_log(2)]
        cfg_network_same(4) [OF custom_log(2)] valid
      by (intro other) (auto simp: custom_log(1))
  next
    case (no_log r d)
    show thesis
      using cfg_same_cycle(6) [OF no_log(2)] cfg_same_settings(6) [OF no_log(2)] cfg_network_same(5) [OF no_log(2)] valid
      by (intro other) (auto simp: no_log(1))
  next
    case (start nd d D)
    show thesis by (rule rest(2) [of "w_disk w" nd D]) (simp_all add: start)
  next
    case (start_refused e d D)
    show thesis
      using start_prep_refused [OF start_refused(2)] valid
      by (intro other) (auto simp: start_refused(1) same_settings_def)
  next
    case (started nd now free v D)
    show thesis
      by (rule rest(3) [OF one [OF started(2)] _ started(3)]) (simp_all add: started(1) one [OF started(2)])
  next
    case (start_failed nd now free e D)
    show thesis
      by (rule failed [OF one [OF start_failed(2)]]) (simp_all add: start_failed(1) one [OF start_failed(2)])
  next
    case (start_panicked nd now free D)
    show thesis
      by (rule panicked [OF one [OF start_panicked(2)] _ _ validator_api_new_panics [OF start_panicked(3)]])
        (simp_all add: start_panicked(1) one [OF start_panicked(2)])
  next
    case (stop v d)
    show thesis by (rule rest(6) [of v]) (simp_all add: stop)
  next
    case (stop_refused e d)
    show thesis
      using valid stop_refused(2)
      by (intro other) (auto simp: stop_refused(1) end_prep_def same_cycle_def split: if_splits)
  next
    case (stopped fl D)
    have fl: "fl" using flag [OF stopped(2), of "ad_shutdown (w_data w)" "w_disk w"] stopped(3) by simp
    show thesis
      by (rule rest(7)) (simp_all add: stopped(1) stopping [OF stopped(2)] fl)
  next
    case (running n v b)
    show thesis by (rule rest(8) [OF running(2) _ running(3)]) (simp_all add: running(1))
  qed
qed

lemma api_step_inv:
  assumes "api_step A w w'" "api_inv A w"
  shows "api_inv A w'"
  using assms
proof (cases rule: api_step_elim)
  case other
  show ?thesis
    using assms(2) other by (auto simp: api_inv_def same_cycle_def same_settings_def split: api_state.splits)
next
  case (start nd D D')
  show ?thesis
    using assms(2) start_prep_ok [OF start(1)] start(2)
    by (auto simp: api_inv_def same_settings_def split: api_state.splits)
next
  case (started nd now free v D D')
  obtain x where x: "the_validator (ap_ids A) v = Some (nd_network_id nd, x)"
    using validator_api_new_network [OF started(3)] by blast
  have "ad_state (w_data w) = StartPending" "nd_network_id nd = ad_network_id (w_data w)"
    using assms(2) started(1) by (auto simp: api_inv_def split: api_state.splits)
  then show ?thesis using assms(2) started(2,4) x by (auto simp: api_inv_def start_complete_def)
next
  case (failed nd)
  have "ad_state (w_data w) = StartPending"
    using assms(2) failed(1) by (auto simp: api_inv_def split: api_state.splits)
  then show ?thesis using assms(2) failed(2,3) by (auto simp: api_inv_def start_revert_def)
next
  case (panicked nd)
  have "ad_state (w_data w) = StartPending" "ad_rest_rps (w_data w) = 0"
    using assms(2) panicked(1,4) by (auto simp: api_inv_def split: api_state.splits)
  then show ?thesis using assms(2) panicked(2,3) by (simp add: api_inv_def)
next
  case (stop v)
  show ?thesis
    using assms(2) stop(2) end_prep_ok [OF stop(1)] by (auto simp: api_inv_def)
next
  case stopped
  show ?thesis using assms(2) stopped by (auto simp: api_inv_def end_complete_def)
next
  case (running n v b)
  show ?thesis
    using assms(2) running(1,2,4) the_validator_map [OF running(1)]
    by (auto simp: api_inv_def split: api_state.splits if_splits)
qed

lemma api_reachable_inv:
  assumes "(api_step A)\<^sup>*\<^sup>* \<lparr>w_data = api_new (ap_ids A), w_disk = D, w_pending = []\<rparr> w"
  shows "api_inv A w"
  using assms
proof (induction rule: rtranclp_induct)
  case base
  then show ?case by (simp add: api_new_def api_inv_def is_valid_network_id_def)
qed (rule api_step_inv)

lemma api_step_locked:
  assumes "api_step A w w'" "api_inv A w" "locked (w_data w)"
  shows "locked (w_data w') \<and> same_settings (w_data w) (w_data w')"
  using assms(1,2)
proof (cases rule: api_step_elim)
  case other
  then show ?thesis using assms(3) by (auto simp: locked_def same_cycle_def)
next
  case (start nd D D')
  then show ?thesis using assms(3) start_prep_ok [OF start(1)] by (auto simp: locked_def)
next
  case (failed nd)
  have "ad_state (w_data w) = StartPending"
    using assms(2) failed(1) by (auto simp: api_inv_def split: api_state.splits)
  then show ?thesis using assms(3) failed by (auto simp: locked_def start_revert_def same_settings_def)
next
  case (stop v)
  then show ?thesis using end_prep_ok [OF stop(1)] by (auto simp: locked_def same_settings_def)
qed (use assms(3) in \<open>auto simp: locked_def same_settings_def start_complete_def end_complete_def\<close>)

lemma api_step_flag:
  assumes "api_step A w w'" "api_inv A w" "flag_inv A w"
  shows "flag_inv A w' \<and> (ad_shutdown (w_data w) \<longrightarrow> ad_shutdown (w_data w'))"
  using assms(1,2)
proof (cases rule: api_step_elim)
  case other
  then show ?thesis using assms(3) by (simp add: flag_inv_def same_cycle_def)
next
  case (start nd D D')
  show ?thesis using assms(3) start_prep_ok [OF start(1)] by (auto simp: flag_inv_def)
next
  case (started nd now free v D D')
  show ?thesis
    using assms(3) started(3,4) validator_for_frozen [of A now free nd D v D']
    by (auto simp: flag_inv_def start_complete_def)
next
  case (failed nd)
  have "ad_state (w_data w) = StartPending"
    using assms(2) failed(1) by (auto simp: api_inv_def split: api_state.splits)
  then show ?thesis using assms(3) failed(3) by (auto simp: flag_inv_def start_revert_def)
next
  case (panicked nd)
  then show ?thesis using assms(3) by (simp add: flag_inv_def)
next
  case (stop v)
  then show ?thesis using assms(3) end_prep_ok [OF stop(1)] by (auto simp: flag_inv_def)
next
  case stopped
  then show ?thesis by (auto simp: flag_inv_def end_complete_def)
next
  case (running n v b)
  have "cl_shutdown (bft_ledger b)" if "ad_shutdown (w_data w)"
    using assms(3) that running(1) frozen.handler_step_R [OF refl running(3)]
    by (auto simp: flag_inv_def ledger_frozen_def)
  then show ?thesis
    using assms(3) running(4) the_validator_map [OF running(1), of "\<lambda>_. b"] by (auto simp: flag_inv_def)
qed

lemma api_steps_inv:
  assumes "(api_step A)\<^sup>*\<^sup>* w w'" "api_inv A w" "flag_inv A w"
  shows "api_inv A w' \<and> flag_inv A w' \<and> (ad_shutdown (w_data w) \<longrightarrow> ad_shutdown (w_data w')) \<and>
    (locked (w_data w) \<longrightarrow> locked (w_data w') \<and> same_settings (w_data w) (w_data w'))"
  using assms
proof (induction rule: rtranclp_induct)
  case (step y z)
  then show ?case
    using api_step_inv [of A y z] api_step_flag [of A y z] api_step_locked [of A y z] same_settings_trans by blast
qed simp

lemma flag_inv_new: "flag_inv A \<lparr>w_data = api_new (ap_ids A), w_disk = D, w_pending = []\<rparr>"
  by (simp add: flag_inv_def api_new_def)

lemma api_reachable_flag:
  assumes "(api_step A)\<^sup>*\<^sup>* \<lparr>w_data = api_new (ap_ids A), w_disk = D, w_pending = []\<rparr> w"
  shows "flag_inv A w"
  using api_steps_inv [OF assms api_reachable_inv [OF rtranclp.rtrancl_refl] flag_inv_new] by blast

section \<open>Calls one after the other\<close>

text \<open>A start or an end that no other call interrupts is a run of the step relation.\<close>

lemma api_start_steps:
  assumes "api_start A now free d D = (Inr (), d', D')"
  shows "(api_step A)\<^sup>*\<^sup>* \<lparr>w_data = d, w_disk = D, w_pending = []\<rparr> \<lparr>w_data = d', w_disk = D', w_pending = []\<rparr>"
proof -
  obtain nd d1 D1 v where p: "start_prep A d D = (Inr nd, d1, D1)"
    and v: "validator_api_new A now free (ad_shutdown d1) nd D1 = (Inr v, D')" and d': "d' = start_complete v d1"
    using assms by (auto simp: api_start_def split: sum.splits prod.splits)
  let ?w = "\<lparr>w_data = d, w_disk = D, w_pending = []\<rparr>"
  let ?w1 = "?w\<lparr>w_data := d1, w_disk := D1, w_pending := w_pending ?w @ [Starting nd]\<rparr>"
  have "api_step A ?w ?w1" by (rule api_step.start) (simp add: p)
  moreover have "api_step A ?w1 (?w1\<lparr>w_data := start_complete v (w_data ?w1), w_disk := D',
      w_pending := remove1 (Starting nd) (w_pending ?w1)\<rparr>)"
    by (rule api_step.started [where now = now and free = free]) (simp_all add: v)
  ultimately show ?thesis
    using converse_rtranclp_into_rtranclp [of "api_step A"] r_into_rtranclp [of "api_step A"] by (simp add: d')
qed

lemma api_end_steps:
  assumes "api_end A d D = (Inr (), d', D')"
  shows "(api_step A)\<^sup>*\<^sup>* \<lparr>w_data = d, w_disk = D, w_pending = []\<rparr> \<lparr>w_data = d', w_disk = D', w_pending = []\<rparr>"
proof -
  obtain v d1 flag where p: "end_prep d = (Inr v, d1)"
    and s: "validator_api_shut_down A v (ad_shutdown d1) D = (flag, D')" and d': "d' = (end_complete d1)\<lparr>ad_shutdown := flag\<rparr>"
    using assms by (auto simp: api_end_def split: sum.splits prod.splits)
  let ?w = "\<lparr>w_data = d, w_disk = D, w_pending = []\<rparr>"
  let ?w1 = "?w\<lparr>w_data := d1, w_pending := w_pending ?w @ [Stopping]\<rparr>"
  have "ad_validator d1 = v" using end_prep_ok [OF p] by simp
  then have "validator_api_shut_down A (ad_validator (w_data ?w1)) (ad_shutdown (w_data ?w1)) (w_disk ?w1) = (flag, D')"
    using s by simp
  then have "api_step A ?w1 (?w1\<lparr>w_data := (end_complete (w_data ?w1))\<lparr>ad_shutdown := flag\<rparr>, w_disk := D',
      w_pending := remove1 Stopping (w_pending ?w1)\<rparr>)"
    by (rule api_step.stopped [rotated]) simp
  moreover have "api_step A ?w ?w1" by (rule api_step.stop) (simp add: p)
  ultimately show ?thesis
    using converse_rtranclp_into_rtranclp [of "api_step A"] r_into_rtranclp [of "api_step A"] by (simp add: d')
qed

section \<open>What a start finds on disk\<close>

lemma start_prep_disk:
  assumes "start_prep A d D = (Inr nd, d', D')"
  shows "if ad_keep_state d then D' = D
    else clean_tmp_ledger A (nd_storage_path nd) D = (Inr (), D')"
proof -
  obtain p where p: "get_ledger_folder (ap_files A) d = Inr p"
    using assms by (auto simp: start_prep_def split: if_splits sum.splits)
  obtain r d1 where t: "trace_init A d = (r, d1)" by fastforce
  have k: "ad_keep_state d1 = ad_keep_state d" using trace_init_data [OF t] by (simp add: same_settings_def)
  have path: "nd_storage_path nd = p" using start_prep_ok [OF assms] p by simp
  show ?thesis
    using assms p t k path by (auto simp: start_prep_def Let_def split: if_splits sum.splits prod.splits)
qed

lemma clean_tmp_ledger_gone:
  assumes "clean_tmp_ledger A p D = (Inr (), D')"
  shows "dk_folders D' p = None \<and> cache_file D' p = None \<and> dk_temp D' = dk_temp D"
  using assms by (auto simp: clean_tmp_ledger_def cache_file_def Let_def split: sum.splits if_splits)

lemma cache_file_temp [simp]: "cache_file (D\<lparr>dk_temp := files\<rparr>) p = cache_file D p"
  by (simp add: cache_file_def split: sum.split)

lemma write_back_reads:
  assumes "proposal_cache_path (amareleo_storage_mode p) = Inr c"
  shows "dk_folders (write_back p b D) p =
      Some \<lparr>fo_ledger = cl_ledger (bft_ledger b), fo_transmissions = st_transmissions (bft_storage b)\<rparr> \<and>
    cache_file (write_back p b D) p = pm_cache_file (bft_primary b)"
  using assms by (simp add: write_back_def write_folder_def cache_file_def)

section \<open>Properties\<close>

text \<open>C27: the life cycle of the public object under any interleaving of calls from several threads: at most one
  start or end is under way, a start only in \<open>StartPending\<close>, and always there unless the rate limit is zero, and an
  end exactly in \<open>StopPending\<close>; there is a validator exactly while the object is started or stopping, so never two at once; the network ID is valid.\<close>

theorem api_life_cycle:
  assumes "(api_step A)\<^sup>*\<^sup>* \<lparr>w_data = api_new (ap_ids A), w_disk = D, w_pending = []\<rparr> w"
  shows "length (w_pending w) \<le> 1 \<and>
    ((\<exists>nd. Starting nd \<in> set (w_pending w)) \<longrightarrow> ad_state (w_data w) = StartPending) \<and>
    (ad_state (w_data w) = StartPending \<and> ad_rest_rps (w_data w) \<noteq> 0 \<longrightarrow> (\<exists>nd. Starting nd \<in> set (w_pending w))) \<and>
    (Stopping \<in> set (w_pending w) \<longleftrightarrow> ad_state (w_data w) = StopPending) \<and>
    (ad_validator (w_data w) \<noteq> NoValidator \<longleftrightarrow> ad_state (w_data w) \<in> {Started, StopPending}) \<and>
    is_valid_network_id (ap_ids A) (ad_network_id (w_data w))"
  using api_reachable_inv [OF assms]
  by (cases "ad_state (w_data w)") (auto simp: api_inv_def)

text \<open>From the first successful start on, the network, the REST endpoint and limit, and the ledger settings never
  change again, whatever setters are called and however often the node is stopped and started.\<close>

theorem settings_locked_after_start:
  assumes "(api_step A)\<^sup>*\<^sup>* \<lparr>w_data = api_new (ap_ids A), w_disk = D, w_pending = []\<rparr> w"
    and "ad_state (w_data w) \<in> {Started, StopPending, Stopped}" "(api_step A)\<^sup>*\<^sup>* w w'"
  shows "ad_state (w_data w') \<noteq> Init \<and> same_settings (w_data w) (w_data w')"
proof -
  have "locked (w_data w)" using assms(2) by (simp add: locked_def)
  then have l: "locked (w_data w')" "same_settings (w_data w) (w_data w')"
    using api_steps_inv [OF assms(3) api_reachable_inv [OF assms(1)] api_reachable_flag [OF assms(1)]] by blast+
  then have "ad_state (w_data w') \<noteq> Init" by (auto simp: locked_def)
  then show ?thesis using l(2) by blast
qed

text \<open>C20: a node that was stopped and started again never adds a block: the shutdown flag that the stop set is
  shared with the new validator and nothing resets it, so every committed sub-DAG is rejected and the
  ledger stays as it is.\<close>

theorem restarted_node_never_advances:
  assumes "(api_step A)\<^sup>*\<^sup>* \<lparr>w_data = api_new (ap_ids A), w_disk = D, w_pending = []\<rparr> w"
    and "ad_state (w_data w) = Stopped" "(api_step A)\<^sup>*\<^sup>* w w'"
    and "the_validator (ap_ids A) (ad_validator (w_data w')) = Some (n, v)"
  shows "fst (process_bft_subdag C (va_node v) sd ts) = Rejected \<and>
    fst (snd (process_bft_subdag C (va_node v) sd ts)) = bft_ledger (va_node v)"
proof -
  have f: "flag_inv A w" by (rule api_reachable_flag [OF assms(1)])
  then have "ad_shutdown (w_data w)" using assms(2) by (simp add: flag_inv_def)
  then have "cl_shutdown (bft_ledger (va_node v))"
    using api_steps_inv [OF assms(3) api_reachable_inv [OF assms(1)] f] assms(4) by (auto simp: flag_inv_def)
  then show ?thesis by (rule shutdown_rejects)
qed

text \<open>A start that does not retain the ledger begins from nothing: after its preparation neither the ledger folder nor
  the proposal cache of that folder exists, and the validator it makes runs on what is loaded from the genesis
  block alone, without a cache.\<close>

theorem start_without_retention_is_fresh:
  assumes "start_prep A d D = (Inr nd, d', D')" "\<not> ad_keep_state d"
    and "validator_api_new A now free sd nd D' = (Inr api, D2)"
  shows "\<exists>n v genesis account l ts b. dk_folders D' (nd_storage_path nd) = None \<and>
    the_validator (ap_ids A) api = Some (n, v) \<and> fst (get_genesis (ap_genesis A n) (dk_temp D')) = Inr genesis \<and>
    vp_load (ap_validator A n) genesis None = Some l \<and>
    consensus_new (pp_env (cn_primary (vp_consensus (ap_validator A n)))) (core_ledger_new l sd) account ts
      (vp_max_gc_rounds (ap_validator A n)) False None = Some b \<and>
    consensus_run (vp_consensus (ap_validator A n)) now free b = (Inr (), va_node v)"
proof -
  have gone: "dk_folders D' (nd_storage_path nd) = None" "cache_file D' (nd_storage_path nd) = None"
    using start_prep_disk [OF assms(1)] clean_tmp_ledger_gone [of A _ D D'] assms(2) by auto
  have keep: "\<not> nd_keep_state nd" using start_prep_ok [OF assms(1)] assms(2) by simp
  obtain v where v: "the_validator (ap_ids A) api = Some (nd_network_id nd, v)"
    "fst (validator_for A now free sd nd D') = Inr v"
    using validator_api_new_network [OF assms(3)] by blast
  obtain account genesis files D3 where g: "fst (get_genesis (ap_genesis A (nd_network_id nd)) (dk_temp D')) = Inr genesis"
    and n: "validator_new (ap_validator A (nd_network_id nd)) now free (nd_rest_ip nd) (nd_rest_rps nd) account genesis
      (nd_keep_state nd) (nd_storage_path nd) sd (D'\<lparr>dk_temp := files\<rparr>) = (Inr v, D3)"
    using validator_for_new [OF v(2)] by blast
  show ?thesis
    using validator_new_node [OF n] gone keep v g by fastforce
qed

text \<open>A retained ledger is resumed: when a stopped node is started again with retention on the same folder, the
  start leaves the disk as the stop left it, so it loads the ledger with the blocks of the stopped node, its
  transmissions, and the proposal cache that the stop wrote.\<close>

theorem retained_state_is_resumed:
  assumes "the_validator (ap_ids A) api = Some (n, v)" "validator_api_shut_down A api flag D = (flag', D1)"
    and "start_prep A d D1 = (Inr nd, d', D2)" "ad_keep_state d" "nd_storage_path nd = va_storage_path v"
    and "proposal_cache_path (amareleo_storage_mode (va_storage_path v)) = Inr c"
  shows "D2 = D1 \<and> map_option fo_ledger (dk_folders D2 (nd_storage_path nd)) = Some (cl_ledger (bft_ledger (va_node v))) \<and>
    cache_file D2 (nd_storage_path nd) =
      pm_cache_file (bft_primary (va_node (validator_shut_down (ap_validator A n) v)))"
proof -
  have "D2 = D1" using start_prep_disk [OF assms(3)] assms(4) by simp
  moreover have "D1 = write_back (va_storage_path v) (va_node (validator_shut_down (ap_validator A n) v)) D"
    using assms(1,2) by (simp add: validator_api_shut_down_def)
  ultimately show ?thesis
    using write_back_reads [OF assms(6), of "va_node (validator_shut_down (ap_validator A n) v)" D]
      shut_down_frozen [of "ap_validator A n" v] assms(5) by auto
qed


section \<open>A concrete object\<close>

text \<open>The sample node, with or without the shutdown flag.\<close>

definition sample_flagged :: "bool \<Rightarrow> memory_service bft" where
  "sample_flagged sd = sample_started\<lparr>bft_ledger := core_ledger_new sample_ledger sd\<rparr>"

lemma sample_flagged_run:
  "\<exists>b. consensus_new sample_env (core_ledger_new sample_ledger sd) 1 mem_new 1 False None = Some b \<and>
     consensus_run sample_cp 100 True b = (Inr (), sample_flagged sd)"
proof -
  let ?L = "core_ledger_new sample_ledger sd"
  have "storage_new sample_env ?L mem_new 1 = storage_new sample_env sample_core mem_new 1"
    by (simp add: storage_new_def sample_core_def core_ledger_new_def latest_round_def current_committee_def
        latest_block_height_def Let_def)
  then have new: "consensus_new sample_env ?L 1 mem_new 1 False None =
      Some (bft_new 1 sample_s0 ?L (primary_new False None))"
    using sample_new by (simp add: consensus_new_def)
  have "consensus_run sample_cp 100 True (bft_new 1 sample_s0 ?L (primary_new False None)) = (Inr (), sample_flagged sd)"
    by (simp add: consensus_run_def bft_run_def primary_run_def sample_flagged_def sample_fresh_def sample_started_def
        bft_new_def primary_new_def node_params_def sample_cp_def sample_pp_def MAX_WORKERS_def worker_new_def
        set_workers_def sync_storage_with_ledger_at_bootup_def load_proposal_cache_def get_blocks_def get_block_def
        latest_block_def sync_height_with_block_def sync_round_with_block_def garbage_collect_certificates_def
        sync_block_def authority_certificates_def sync_bft_dag_at_bootup_def u32_saturating_add_def
        upt_rec [of "0" "Suc 0"] sample_store_defs Let_def)
  then show ?thesis using new by blast
qed

definition sample_serving :: rest_server where
  "sample_serving = rest_server_new\<lparr>sv_trigger := True, sv_complete := Some False, sv_handle := Some Serving\<rparr>"

definition sample_vp :: "memory_service validator_params" where
  "sample_vp =
     \<lparr>vp_consensus = sample_cp, vp_load = (\<lambda>_ _. Some sample_ledger), vp_open = (\<lambda>_. Some mem_new), vp_max_gc_rounds = 1,
      vp_server = \<lparr>sp_governor = (\<lambda>p n. p \<noteq> 0 \<and> n \<noteq> 0), sp_binds = (\<lambda>_. True)\<rparr>, vp_ids = gp_ids sample_genesis,
      vp_network_id = 1\<rparr>"

definition sample_api :: "(memory_service, nat, nat) api_params" where
  "sample_api =
     \<lparr>ap_ids = gp_ids sample_genesis, ap_genesis = (\<lambda>_. sample_genesis), ap_validator = (\<lambda>_. sample_vp),
      ap_files = sample_files,
      ap_log_fs = \<lparr>lf_exists = (\<lambda>_. True), lf_create_dir_all = (\<lambda>_. True), lf_open_append = (\<lambda>_. True)\<rparr>, ap_remove_ok = (\<lambda>_. True)\<rparr>"

definition sample_disk :: "memory_service disk" where
  "sample_disk = \<lparr>dk_folders = Map.empty, dk_caches = Map.empty, dk_temp = [''hash'' \<mapsto> [0]]\<rparr>"

lemma sample_api_simps [simp]:
  "ni_testnet (ap_ids sample_api) = 1" "ni_canary (ap_ids sample_api) = 2" "ni_mainnet (ap_ids sample_api) = 0"
  by (simp_all add: sample_api_def sample_genesis_def)

lemma sample_folder:
  assumes "ad_network_id d = 1" "\<not> ad_keep_state d" "ad_rest_ip d = V4 0 0 0 0 3030" "ad_ledger_base_path d = None"
  shows "get_ledger_folder (ap_files sample_api) d = Inr (custom_ledger_dir 1 False ''0'' [''src''])"
  using assms by (simp add: get_ledger_folder_def endpoint_file_tag_def default_ledger_dir_def sample_api_def
      sample_files_def DEFAULT_FILE_TAG_def)

lemma sample_start_prep:
  assumes "ad_state d \<in> {Init, Stopped}" "ad_network_id d = 1" "\<not> ad_keep_state d" "ad_rest_ip d = V4 0 0 0 0 3030"
    "ad_ledger_base_path d = None" "ad_log_mode d = NoLog"
  shows "\<exists>nd D'. start_prep sample_api d D = (Inr nd, d\<lparr>ad_tracing := None, ad_prev_state := ad_state d, ad_state := StartPending\<rparr>, D') \<and>
    nd_network_id nd = 1 \<and> \<not> nd_keep_state nd \<and> nd_rest_rps nd = ad_rest_rps d \<and> dk_temp D' = dk_temp D \<and>
    dk_folders D' (nd_storage_path nd) = None \<and> cache_file D' (nd_storage_path nd) = None"
proof -
  let ?p = "custom_ledger_dir 1 False ''0'' [''src'']"
  have "\<exists>D'. clean_tmp_ledger sample_api ?p D = (Inr (), D')"
    using proposal_cache_path_ledger [of "''0''" 1 False "[''src'']"]
    by (simp add: clean_tmp_ledger_def Let_def) (simp add: sample_api_def)
  then obtain D' where c: "clean_tmp_ledger sample_api ?p D = (Inr (), D')" by blast
  note gone = clean_tmp_ledger_gone [OF c]
  show ?thesis
    using assms sample_folder [OF assms(2-5)] c gone
    by (simp add: start_prep_def is_state_def trace_init_def Let_def)
qed

lemma sample_rest_start:
  "rest_start (vp_server sample_vp) (vp_ids sample_vp) (vp_network_id sample_vp) ip 10 = Inr sample_serving"
  "rest_start (vp_server sample_vp) (vp_ids sample_vp) (vp_network_id sample_vp) ip 0 = Inl DivisionByZero"
  by (simp_all add: rest_start_def spawn_server_def network_name_def sample_vp_def sample_serving_def rest_server_new_def
      sample_genesis_def)

lemma sample_validator_new:
  assumes "nd_network_id nd = 1" "\<not> nd_keep_state nd" "nd_rest_rps nd = 10" "dk_temp D = [''hash'' \<mapsto> [0]]"
    "dk_folders D (nd_storage_path nd) = None" "cache_file D (nd_storage_path nd) = None"
  shows "\<exists>v. validator_api_new sample_api 100 True sd nd D = (Inr (TestnetV0 v), D) \<and> va_node v = sample_flagged sd"
proof -
  obtain b where b: "consensus_new sample_env (core_ledger_new sample_ledger sd) 1 mem_new 1 False None = Some b"
    "consensus_run sample_cp 100 True b = (Inr (), sample_flagged sd)"
    using sample_flagged_run by blast
  have env: "pp_env (cn_primary sample_cp) = sample_env" by (simp add: sample_cp_def sample_pp_def)
  have account: "get_node_account sample_genesis = Inr 1" by (simp add: get_node_account_def sample_genesis_def ok_or_def)
  have genesis: "get_genesis sample_genesis [''hash'' \<mapsto> [0]] = (Inr (sample_block 0), [''hash'' \<mapsto> [0]])"
    by (rule sample_genesis_get(2))
  have rest: "rest_start (vp_server sample_vp) (vp_ids sample_vp) (vp_network_id sample_vp) (nd_rest_ip nd) (nd_rest_rps nd) =
      Inr sample_serving" using assms(3) sample_rest_start(1) by simp
  have "validator_for sample_api 100 True sd nd D =
      (Inr \<lparr>va_node = sample_flagged sd, va_rest = sample_serving, va_storage_path = nd_storage_path nd\<rparr>, D\<lparr>dk_temp := [''hash'' \<mapsto> [0]]\<rparr>)"
    using assms b rest [unfolded sample_vp_def, simplified]
    by (simp add: validator_for_def sample_api_def account genesis validator_new_def sample_vp_def env Let_def)
  moreover have "D\<lparr>dk_temp := [''hash'' \<mapsto> [0]]\<rparr> = D" using assms(4) by (cases D) simp
  ultimately show ?thesis
    using assms(1) by (simp add: validator_api_new_def Let_def)
qed

text \<open>A world in which the object can be started, and one full start or stop from it.\<close>

definition sample_idle :: "memory_service world \<Rightarrow> bool" where
  "sample_idle w \<longleftrightarrow> ad_network_id (w_data w) = 1 \<and> \<not> ad_keep_state (w_data w) \<and>
     ad_rest_ip (w_data w) = V4 0 0 0 0 3030 \<and> ad_ledger_base_path (w_data w) = None \<and>
     ad_log_mode (w_data w) = NoLog \<and> ad_rest_rps (w_data w) = 10 \<and> w_pending w = [] \<and> dk_temp (w_disk w) = [''hash'' \<mapsto> [0]]"

lemma sample_boot:
  assumes "sample_idle w" "ad_state (w_data w) \<in> {Init, Stopped}"
  shows "\<exists>w' v. (api_step sample_api)\<^sup>*\<^sup>* w w' \<and> sample_idle w' \<and> ad_state (w_data w') = Started \<and>
    ad_validator (w_data w') = TestnetV0 v \<and> va_node v = sample_flagged (ad_shutdown (w_data w))"
proof -
  let ?d = "(w_data w)\<lparr>ad_tracing := None, ad_prev_state := ad_state (w_data w), ad_state := StartPending\<rparr>"
  obtain nd D' where p: "start_prep sample_api (w_data w) (w_disk w) = (Inr nd, ?d, D')"
    "nd_network_id nd = 1" "\<not> nd_keep_state nd" "nd_rest_rps nd = 10" "dk_temp D' = dk_temp (w_disk w)"
    "dk_folders D' (nd_storage_path nd) = None" "cache_file D' (nd_storage_path nd) = None"
    using sample_start_prep [of "w_data w" "w_disk w"] assms by (auto simp: sample_idle_def)
  let ?w1 = "w\<lparr>w_data := ?d, w_disk := D', w_pending := w_pending w @ [Starting nd]\<rparr>"
  obtain v where v: "validator_api_new sample_api 100 True (ad_shutdown (w_data ?w1)) nd (w_disk ?w1) = (Inr (TestnetV0 v), D')"
    "va_node v = sample_flagged (ad_shutdown (w_data w))"
    using sample_validator_new [OF p(2-4) _ p(6,7), of "ad_shutdown (w_data w)"] p(5) assms(1) by (auto simp: sample_idle_def)
  let ?w2 = "?w1\<lparr>w_data := start_complete (TestnetV0 v) (w_data ?w1), w_disk := D',
               w_pending := remove1 (Starting nd) (w_pending ?w1)\<rparr>"
  have "api_step sample_api w ?w1" by (rule api_step.start [OF p(1)])
  moreover have "api_step sample_api ?w1 ?w2" by (rule api_step.started [OF _ v(1)]) simp
  ultimately have "(api_step sample_api)\<^sup>*\<^sup>* w ?w2" by (meson converse_rtranclp_into_rtranclp r_into_rtranclp)
  moreover have "sample_idle ?w2" using assms(1) p(5) by (simp add: sample_idle_def start_complete_def)
  moreover have "ad_state (w_data ?w2) = Started" "ad_validator (w_data ?w2) = TestnetV0 v"
    by (simp_all add: start_complete_def)
  ultimately show ?thesis using v(2) by blast
qed

lemma sample_halt:
  assumes "sample_idle w" "ad_state (w_data w) = Started" "ad_validator (w_data w) = TestnetV0 v"
  shows "\<exists>w'. (api_step sample_api)\<^sup>*\<^sup>* w w' \<and> sample_idle w' \<and> ad_state (w_data w') = Stopped \<and> ad_shutdown (w_data w')"
proof -
  let ?d = "(w_data w)\<lparr>ad_prev_state := ad_state (w_data w), ad_state := StopPending\<rparr>"
  let ?w1 = "w\<lparr>w_data := ?d, w_pending := w_pending w @ [Stopping]\<rparr>"
  obtain D where D: "validator_api_shut_down sample_api (ad_validator (w_data ?w1)) (ad_shutdown (w_data ?w1)) (w_disk ?w1) = (True, D)"
    and temp: "dk_temp D = dk_temp (w_disk w)"
    using assms(3) by (simp add: validator_api_shut_down_def write_back_def write_folder_def)
  let ?w2 = "?w1\<lparr>w_data := (end_complete (w_data ?w1))\<lparr>ad_shutdown := True\<rparr>, w_disk := D,
               w_pending := remove1 Stopping (w_pending ?w1)\<rparr>"
  have "api_step sample_api w ?w1"
    by (rule api_step.stop [of w "ad_validator (w_data w)"]) (simp add: end_prep_def is_state_def assms(2))
  moreover have "api_step sample_api ?w1 ?w2" by (rule api_step.stopped [OF _ D]) simp
  ultimately have "(api_step sample_api)\<^sup>*\<^sup>* w ?w2" by (meson converse_rtranclp_into_rtranclp r_into_rtranclp)
  moreover have "sample_idle ?w2" using assms(1) temp by (simp add: sample_idle_def end_complete_def)
  moreover have "ad_state (w_data ?w2) = Stopped" "ad_shutdown (w_data ?w2)" by (simp_all add: end_complete_def)
  ultimately show ?thesis by blast
qed

lemma sample_validator_panics:
  assumes "nd_network_id nd = 1" "\<not> nd_keep_state nd" "nd_rest_rps nd = 0" "dk_temp D = [''hash'' \<mapsto> [0]]"
    "dk_folders D (nd_storage_path nd) = None" "cache_file D (nd_storage_path nd) = None"
  shows "\<exists>D'. validator_api_new sample_api 100 True sd nd D = (Inl (ApiValidatorError RestPanicked), D')"
proof -
  obtain b where b: "consensus_new sample_env (core_ledger_new sample_ledger sd) 1 mem_new 1 False None = Some b"
    "consensus_run sample_cp 100 True b = (Inr (), sample_flagged sd)"
    using sample_flagged_run by blast
  have env: "pp_env (cn_primary sample_cp) = sample_env" by (simp add: sample_cp_def sample_pp_def)
  have account: "get_node_account sample_genesis = Inr 1" by (simp add: get_node_account_def sample_genesis_def ok_or_def)
  have genesis: "get_genesis sample_genesis [''hash'' \<mapsto> [0]] = (Inr (sample_block 0), [''hash'' \<mapsto> [0]])"
    by (rule sample_genesis_get(2))
  have "\<exists>D'. validator_for sample_api 100 True sd nd D = (Inl (ApiValidatorError RestPanicked), D')"
    using assms b sample_rest_start(2) [unfolded sample_vp_def, simplified]
    by (simp add: validator_for_def sample_api_def account genesis validator_new_def sample_vp_def env Let_def)
  then show ?thesis using assms(1) by (auto simp: validator_api_new_def Let_def)
qed

definition sample_world :: "memory_service world" where
  "sample_world = \<lparr>w_data = api_new (ap_ids sample_api), w_disk = sample_disk, w_pending = []\<rparr>"

lemma sample_world_idle: "sample_idle sample_world" "ad_state (w_data sample_world) = Init"
  "\<not> ad_shutdown (w_data sample_world)"
  by (simp_all add: sample_world_def sample_idle_def sample_disk_def api_new_def)

text \<open>The object is started, stopped and started again.\<close>

lemma sample_trace:
  "\<exists>w1 v1 w2 w3 v3. (api_step sample_api)\<^sup>*\<^sup>* sample_world w1 \<and> ad_state (w_data w1) = Started \<and>
     ad_validator (w_data w1) = TestnetV0 v1 \<and> va_node v1 = sample_flagged False \<and>
     (api_step sample_api)\<^sup>*\<^sup>* w1 w2 \<and> ad_state (w_data w2) = Stopped \<and>
     (api_step sample_api)\<^sup>*\<^sup>* w2 w3 \<and> ad_validator (w_data w3) = TestnetV0 v3 \<and> va_node v3 = sample_flagged True"
proof -
  obtain w1 v1 where w1: "(api_step sample_api)\<^sup>*\<^sup>* sample_world w1" "sample_idle w1" "ad_state (w_data w1) = Started"
    "ad_validator (w_data w1) = TestnetV0 v1" "va_node v1 = sample_flagged False"
    using sample_boot [OF sample_world_idle(1)] sample_world_idle(2,3) by auto
  obtain w2 where w2: "(api_step sample_api)\<^sup>*\<^sup>* w1 w2" "sample_idle w2" "ad_state (w_data w2) = Stopped" "ad_shutdown (w_data w2)"
    using sample_halt [OF w1(2-4)] by blast
  obtain w3 v3 where w3: "(api_step sample_api)\<^sup>*\<^sup>* w2 w3" "ad_validator (w_data w3) = TestnetV0 v3"
    "va_node v3 = sample_flagged True"
    using sample_boot [OF w2(2)] w2(3,4) by auto
  show ?thesis using w1 w2 w3 by blast
qed

section \<open>Witnesses\<close>



theorem api_life_cycle_witness:
  "\<exists>w :: memory_service world. ad_state (w_data w) = Started \<and> ad_validator (w_data w) \<noteq> NoValidator \<and> length (w_pending w) \<le> 1"
proof -
  obtain w where w: "(api_step sample_api)\<^sup>*\<^sup>* sample_world w" "ad_state (w_data w) = Started" using sample_trace by blast
  show ?thesis using api_life_cycle [OF w(1) [unfolded sample_world_def]] w(2) by blast
qed

theorem settings_locked_after_start_witness:
  "\<exists>(w :: memory_service world) (w' :: memory_service world). ad_state (w_data w) = Started \<and> ad_state (w_data w') = Stopped \<and> same_settings (w_data w) (w_data w')"
proof -
  obtain w w' where w: "(api_step sample_api)\<^sup>*\<^sup>* sample_world w" "ad_state (w_data w) = Started"
    "(api_step sample_api)\<^sup>*\<^sup>* w w'" "ad_state (w_data w') = Stopped" using sample_trace by blast
  show ?thesis using settings_locked_after_start [OF w(1) [unfolded sample_world_def] _ w(3)] w(2,4) by blast
qed

text \<open>The first node accepts a sub-DAG, the second one rejects it.\<close>

theorem restarted_node_never_advances_witness:
  "fst (process_bft_subdag sample_cp (sample_flagged False) [] []) = Advanced \<and>
   fst (process_bft_subdag sample_cp (sample_flagged True) [] []) = Rejected"
proof -
  obtain w1 w2 w3 v3 where w: "(api_step sample_api)\<^sup>*\<^sup>* sample_world w1" "(api_step sample_api)\<^sup>*\<^sup>* w1 w2"
    "ad_state (w_data w2) = Stopped" "(api_step sample_api)\<^sup>*\<^sup>* w2 w3" "ad_validator (w_data w3) = TestnetV0 v3"
    "va_node v3 = sample_flagged True" using sample_trace by blast
  have reach: "(api_step sample_api)\<^sup>*\<^sup>* sample_world w2" using w(1,2) by (rule rtranclp_trans)
  have v: "the_validator (ap_ids sample_api) (ad_validator (w_data w3)) = Some (1, v3)" by (simp add: w(5))
  have "fst (process_bft_subdag sample_cp (sample_flagged True) [] []) = Rejected"
    using restarted_node_never_advances [OF reach [unfolded sample_world_def] w(3,4) v] w(6) by metis
  moreover have "fst (process_bft_subdag sample_cp (sample_flagged False) [] []) = Advanced"
    by (simp add: process_bft_subdag_def try_advance_to_next_block_def advance_to_next_block_def sample_flagged_def
        sample_cp_def core_ledger_new_def sample_advance_def sample_block_def Let_def)
  ultimately show ?thesis by blast
qed

theorem start_without_retention_is_fresh_witness:
  "\<exists>nd d' D'. start_prep sample_api (api_new (ap_ids sample_api)) sample_disk = (Inr nd, d', D') \<and>
     dk_folders D' (nd_storage_path nd) = None"
proof -
  obtain nd D' where p: "start_prep sample_api (api_new (ap_ids sample_api)) sample_disk =
      (Inr nd, (api_new (ap_ids sample_api))\<lparr>ad_tracing := None, ad_prev_state := ad_state (api_new (ap_ids sample_api) :: memory_service api_data),
        ad_state := StartPending\<rparr>, D')"
    "nd_network_id nd = 1" "\<not> nd_keep_state nd" "nd_rest_rps nd = 10" "dk_temp D' = dk_temp sample_disk"
    "dk_folders D' (nd_storage_path nd) = None" "cache_file D' (nd_storage_path nd) = None"
    using sample_start_prep [of "api_new (ap_ids sample_api)" sample_disk] by (auto simp: api_new_def)
  obtain v where v: "validator_api_new sample_api 100 True False nd D' = (Inr (TestnetV0 v), D')"
    using sample_validator_new [OF p(2-4) _ p(6,7), of False] p(5) by (auto simp: sample_disk_def)
  have "\<not> ad_keep_state (api_new (ap_ids sample_api) :: memory_service api_data)" by (simp add: api_new_def)
  from start_without_retention_is_fresh [OF p(1) this v] show ?thesis using p(1) by blast
qed

text \<open>A stopped node with retention, started again on its folder.\<close>

definition sample_kept :: "memory_service api_data" where
  "sample_kept = (api_new (ap_ids sample_api))\<lparr>ad_keep_state := True, ad_state := Stopped\<rparr>"

definition sample_kept_path :: path where
  "sample_kept_path = custom_ledger_dir 1 True ''0'' [''src'']"

theorem retained_state_is_resumed_witness:
  "\<exists>nd d' D. start_prep sample_api sample_kept D = (Inr nd, d', D) \<and>
     map_option fo_ledger (dk_folders D (nd_storage_path nd)) = Some sample_ledger"
proof -
  let ?v = "\<lparr>va_node = sample_flagged False, va_rest = sample_serving, va_storage_path = sample_kept_path\<rparr>"
  obtain flag D1 where D1: "validator_api_shut_down sample_api (TestnetV0 ?v) False sample_disk = (flag, D1)" by fastforce
  have kept: "ad_state sample_kept = Stopped" "ad_keep_state sample_kept" "ad_log_mode sample_kept = NoLog"
    by (simp_all add: sample_kept_def api_new_def)
  have folder: "get_ledger_folder (ap_files sample_api) sample_kept = Inr sample_kept_path"
    by (simp add: get_ledger_folder_def endpoint_file_tag_def default_ledger_dir_def sample_api_def sample_files_def
        DEFAULT_FILE_TAG_def sample_kept_def sample_kept_path_def api_new_def sample_genesis_def)
  then obtain nd d' where p: "start_prep sample_api sample_kept D1 = (Inr nd, d', D1)" "nd_storage_path nd = sample_kept_path"
    using kept by (simp add: start_prep_def is_state_def trace_init_def Let_def)
  have c: "proposal_cache_path (amareleo_storage_mode (va_storage_path ?v)) = Inr [''src'', cache_file_name 1 True ''0'']"
    using proposal_cache_path_ledger [of "''0''" 1 True "[''src'']"] by (simp add: sample_kept_path_def)
  have v: "the_validator (ap_ids sample_api) (TestnetV0 ?v) = Some (1, ?v)" by simp
  have k: "ad_keep_state sample_kept" by (simp add: sample_kept_def)
  have "nd_storage_path nd = va_storage_path ?v" by (simp add: p(2))
  from retained_state_is_resumed [OF v D1 p(1) k this c] show ?thesis
    using p(1) by (auto simp: sample_flagged_def core_ledger_new_def)
qed

end
