(* ===== verification/Cli.thy ===== *)
theory Cli
  imports ApiProps
begin

text \<open>
  The command line (\<open>cli/src/commands/start.rs\<close>, \<open>clean.rs\<close>, \<open>update.rs\<close>, \<open>mod.rs\<close>, the helpers
  \<open>updater.rs\<close>, \<open>logger.rs\<close> and \<open>dynamic_format.rs\<close>, and \<open>src/lib.rs\<close>): a process that runs one command over the
  disk. The start command makes the public object, configures and starts it and then waits
  for a signal; what is on disk is what a later process finds. The parser of the arguments (\<open>clap\<close>), the
  \<open>glob\<close> and the \<open>self_update\<close> crates, terminal styles and the formatting of times are parameters; text that is only
  printed is left out, except where it is the result of a command.
\<close>

section \<open>Log output of the command line\<close>

text \<open>\<open>tty\<close> says whether the standard output is a terminal.\<close>

definition stdout_layer :: "bool \<Rightarrow> nat \<Rightarrow> fmt_layer" where
  "stdout_layer tty verbosity =
     \<lparr>la_ansi = tty, la_writer = Stdout, la_target = verbosity > 2, la_format = DynamicFormat,
      la_filter = init_env_filter verbosity\<rparr>"

definition initialize_custom_tracing ::
  "log_fs \<Rightarrow> bool \<Rightarrow> nat \<Rightarrow> path \<Rightarrow> (tracing_error, tracing_handler) result" where
  "initialize_custom_tracing fs tty verbosity logfile_path =
     rbind (init_file_writer fs logfile_path) (\<lambda>file.
       Inr (set_two_layers (file_layer verbosity file) (stdout_layer tty verbosity)))"

datatype log_level = ERROR | WARN | INFO | DEBUG | TRACE

definition fmt_level :: "log_level \<Rightarrow> string" where
  "fmt_level l = (case l of ERROR \<Rightarrow> ''ERROR'' | DEBUG \<Rightarrow> ''DEBUG'' | TRACE \<Rightarrow> ''TRACE'' | WARN \<Rightarrow> ''WARN'' | INFO \<Rightarrow> ''INFO'')"

text \<open>The width of a format is a minimum; \<open>>\<close> fills on the left.\<close>

definition pad_left :: "nat \<Rightarrow> string \<Rightarrow> string" where
  "pad_left n s = replicate (n - length s) CHR '' '' @ s"

text \<open>One event in the dimmed format: \<open>time\<close> is the formatted time of the clock, which may fail, \<open>formatted\<close> what the crate
  writes them.\<close>

definition dim_format_event ::
  "bool \<Rightarrow> string option \<Rightarrow> log_level \<Rightarrow> string \<Rightarrow> string option \<Rightarrow> string option" where
  "dim_format_event ansi time level target formatted =
     Option.bind time (\<lambda>t. Option.bind formatted (\<lambda>f.
       Some ((if ansi then CHR 0x1B # ''[2m'' else []) @ t @ '' '' @ pad_left 5 (fmt_level level) @ '' '' @
         target @ '': '' @ f @ (if ansi then CHR 0x1B # ''[0m'' else []) @ [CHR 0x0A])))"

text \<open>The formatter switches when the shutdown flag of the process is set; \<open>default_format\<close> is that of the crate.\<close>

definition dynamic_format_event ::
  "bool \<Rightarrow> string option \<Rightarrow> bool \<Rightarrow> string option \<Rightarrow> log_level \<Rightarrow> string \<Rightarrow> string option \<Rightarrow> string option" where
  "dynamic_format_event dim default_format ansi time level target formatted =
     (if dim then dim_format_event ansi time level target formatted else default_format)"

section \<open>The start command\<close>

record start_options =
  so_network :: nat
  so_rest :: "socket_addr option"
  so_rest_rps :: nat
  so_verbosity :: nat
  so_logfile :: "path option"
  so_storage :: "path option"
  so_keep_state :: bool

text \<open>The values the parser fills in for absent arguments.\<close>

definition start_default :: "network_ids \<Rightarrow> start_options" where
  "start_default ids =
     \<lparr>so_network = ni_testnet ids, so_rest = None, so_rest_rps = 10, so_verbosity = 1, so_logfile = None,
      so_storage = None, so_keep_state = False\<rparr>"

definition rest_ip_port :: "start_options \<Rightarrow> socket_addr" where
  "rest_ip_port S = (case so_rest S of Some ip \<Rightarrow> ip | None \<Rightarrow> V4 0 0 0 0 3030)"

definition start_configure ::
  "network_ids \<Rightarrow> start_options \<Rightarrow> 'ts api_data \<Rightarrow> (api_error, unit) result \<times> 'ts api_data" where
  "start_configure ids S d =
     cfg_file_log (so_logfile S) (so_verbosity S)
       (try_cfg_rest (rest_ip_port S) (so_rest_rps S)
         (try_cfg_ledger (so_keep_state S) (so_storage S) (so_keep_state S)
           (try_cfg_network ids (so_network S) d)))"

definition start_node ::
  "('ts, 'rng, 'key) api_params \<Rightarrow> bool \<Rightarrow> int \<Rightarrow> bool \<Rightarrow> start_options \<Rightarrow> 'ts api_data \<Rightarrow> 'ts disk \<Rightarrow>
   (api_error, unit) result \<times> 'ts api_data \<times> 'ts disk" where
  "start_node A tty now free S d D =
     (case get_node_account (ap_genesis A (so_network S)) of
        Inl e \<Rightarrow> (Inl (ApiGenesisError e), d, D)
      | Inr _ \<Rightarrow>
          (case start_configure (ap_ids A) S d of
             (Inl e, d1) \<Rightarrow> (Inl e, d1, D)
           | (Inr _, d1) \<Rightarrow>
               (case get_log_file (ap_files A) d1 of
                  Inl e \<Rightarrow> (Inl e, d1, D)
                | Inr logfile_path \<Rightarrow>
                    (case initialize_custom_tracing (ap_log_fs A) tty (so_verbosity S) logfile_path of
                       Inl e \<Rightarrow> (Inl (TracingError e), d1, D)
                     | Inr tracing \<Rightarrow>
                         (case cfg_custom_log tracing d1 of
                            (Inl e, d2) \<Rightarrow> (Inl e, d2, D)
                          | (Inr _, d2) \<Rightarrow>
                              (case get_ledger_folder (ap_files A) d2 of
                                 Inl e \<Rightarrow> (Inl e, d2, D)
                               | Inr _ \<Rightarrow> api_start A now free d2 D))))))"

text \<open>A process is running its node or has exited with a code. A node that fails to start panics, and the exit code of
  a panic is 101.\<close>

datatype 'ts process = Running "'ts api_data" "'ts disk" | Exited nat "'ts disk"

definition start_parse ::
  "('ts, 'rng, 'key) api_params \<Rightarrow> bool \<Rightarrow> int \<Rightarrow> bool \<Rightarrow> start_options \<Rightarrow> 'ts disk \<Rightarrow> 'ts process" where
  "start_parse A tty now free S D =
     (if so_network S = ni_mainnet (ap_ids A) \<or> so_network S = ni_testnet (ap_ids A) \<or> so_network S = ni_canary (ap_ids A)
      then case start_node A tty now free S (api_new (ap_ids A)) D of
             (Inr _, d, D') \<Rightarrow> Running d D'
           | (Inl _, _, D') \<Rightarrow> Exited 101 D'
      else Exited 101 D)"

text \<open>A signal: without retention the process ends at once, with it the object is ended first, whatever that returns.
  The databases of a process that ends keep what they hold.\<close>

definition handle_termination ::
  "('ts, 'rng, 'key) api_params \<Rightarrow> start_options \<Rightarrow> 'ts api_data \<Rightarrow> 'ts disk \<Rightarrow> 'ts process" where
  "handle_termination A S d D =
     (if \<not> so_keep_state S
      then Exited 0 (case the_validator (ap_ids A) (ad_validator d) of
             None \<Rightarrow> D | Some (n, v) \<Rightarrow> write_folder (va_storage_path v) (va_node v) D)
      else let (r, d', D') = api_end A d D in Exited 0 D')"

inductive cli_step :: "('ts, 'rng, 'key) api_params \<Rightarrow> start_options \<Rightarrow> 'ts process \<Rightarrow> 'ts process \<Rightarrow> bool" for A S where
  handler: "the_validator (ap_ids A) (ad_validator d) = Some (n, v) \<Longrightarrow>
    handler_step (vp_consensus (ap_validator A n)) (va_node v) b \<Longrightarrow>
    cli_step A S (Running d D) (Running (d\<lparr>ad_validator := map_validator (\<lambda>_. b) (ad_validator d)\<rparr>) D)"
| signal: "cli_step A S (Running d D) (handle_termination A S d D)"

inductive_cases cli_step_runningE: "cli_step A S (Running d D) p"
inductive_cases cli_step_exitedE: "cli_step A S (Exited c D) p"

section \<open>The clean command\<close>

record clean_options =
  co_network :: nat
  co_path :: "path option"

definition clean_default :: "network_ids \<Rightarrow> clean_options" where
  "clean_default ids = \<lparr>co_network = ni_testnet ids, co_path = None\<rparr>"

text \<open>\<open>glob\<close> expands a pattern over the paths that exist: it fails on a malformed pattern, and an entry that can not be
  read is an error of its own.\<close>

record clean_params =
  cl_files :: file_params
  cl_glob :: "(path \<Rightarrow> bool) \<Rightarrow> path \<Rightarrow> path option list option"
  cl_remove_ok :: "path \<Rightarrow> bool"

datatype clean_error = CacheFilesError files_error | CacheRemoveFailed path | LedgerRemoveFailed path

definition on_disk :: "'ts disk \<Rightarrow> path \<Rightarrow> bool" where
  "on_disk D p \<longleftrightarrow> dk_folders D p \<noteq> None \<or> dk_caches D p \<noteq> None"

definition get_file_list :: "clean_params \<Rightarrow> 'ts disk \<Rightarrow> path \<Rightarrow> path list" where
  "get_file_list C D pattern =
     (case cl_glob C (on_disk D) pattern of None \<Rightarrow> [] | Some entries \<Rightarrow> List.map_filter (\<lambda>e. e) entries)"

text \<open>A file is removed as a file and a folder as a folder; the other way round the call fails.\<close>

definition remove_proposal_cache :: "clean_params \<Rightarrow> path \<Rightarrow> 'ts disk \<Rightarrow> (clean_error, unit) result \<times> 'ts disk" where
  "remove_proposal_cache C p D =
     (case proposal_cache_path (amareleo_storage_mode p) of
        Inl e \<Rightarrow> (Inl (CacheFilesError e), D)
      | Inr c \<Rightarrow>
          if on_disk D c then
            if dk_caches D c = None \<or> \<not> cl_remove_ok C c then (Inl (CacheRemoveFailed c), D)
            else (Inr (), D\<lparr>dk_caches := (dk_caches D)(c := None)\<rparr>)
          else (Inr (), D))"

datatype clean_message = CleanedStorage path | NoStorageFound path

definition remove_ledger :: "clean_params \<Rightarrow> path \<Rightarrow> 'ts disk \<Rightarrow> (clean_error, clean_message) result \<times> 'ts disk" where
  "remove_ledger C p D =
     (if on_disk D p then
        if dk_folders D p = None \<or> \<not> cl_remove_ok C p then (Inl (LedgerRemoveFailed p), D)
        else (Inr (CleanedStorage p), D\<lparr>dk_folders := (dk_folders D)(p := None)\<rparr>)
      else (Inr (NoStorageFound p), D))"

fun remove_paths :: "clean_params \<Rightarrow> path list \<Rightarrow> 'ts disk \<Rightarrow> (clean_error, unit) result \<times> 'ts disk" where
  "remove_paths C [] D = (Inr (), D)"
| "remove_paths C (p # ps) D =
     (case remove_proposal_cache C p D of
        (Inl e, D1) \<Rightarrow> (Inl e, D1)
      | (Inr _, D1) \<Rightarrow>
          (case remove_ledger C p D1 of (Inl e, D2) \<Rightarrow> (Inl e, D2) | (Inr _, D2) \<Rightarrow> remove_paths C ps D2))"

definition clean_pattern :: "clean_params \<Rightarrow> clean_options \<Rightarrow> bool \<Rightarrow> path" where
  "clean_pattern C opts keep_state =
     (let file_tag = (if keep_state then DEFAULT_FILE_TAG else ''*'') in
      case co_path opts of
        Some p \<Rightarrow> custom_ledger_dir (co_network opts) keep_state file_tag p
      | None \<Rightarrow> default_ledger_dir (cl_files C) (co_network opts) keep_state file_tag)"

definition remove_all ::
  "clean_params \<Rightarrow> clean_options \<Rightarrow> bool \<Rightarrow> 'ts disk \<Rightarrow> (clean_error, unit) result \<times> 'ts disk" where
  "remove_all C opts keep_state D = remove_paths C (get_file_list C D (clean_pattern C opts keep_state)) D"

definition clean_parse :: "clean_params \<Rightarrow> clean_options \<Rightarrow> 'ts disk \<Rightarrow> (clean_error, string) result \<times> 'ts disk" where
  "clean_parse C opts D =
     (case remove_all C opts False D of
        (Inl e, D1) \<Rightarrow> (Inl e, D1)
      | (Inr _, D1) \<Rightarrow>
          (case remove_all C opts True D1 of
             (Inl e, D2) \<Rightarrow> (Inl e, D2)
           | (Inr _, D2) \<Rightarrow> (Inr ([CHR 0xE2, CHR 0x9C, CHR 0x85] @ '' Clean Completed''), D2)))"

section \<open>The update command\<close>

text \<open>What \<open>self_update\<close> does for a repository and a binary: the releases of the repository, the update to the latest or
  to a given release, the latest release and the comparison of versions. The status of an update is a value of the crate.\<close>

record 'st update_params =
  up_version :: string
  up_releases :: "string \<Rightarrow> (string, string list) result"
  up_update :: "bool \<Rightarrow> string \<Rightarrow> string \<Rightarrow> string option \<Rightarrow> (string, 'st) result"
  up_latest :: "string \<Rightarrow> string \<Rightarrow> (string, string) result"
  up_greater :: "string \<Rightarrow> string \<Rightarrow> (string, bool) result"
  up_uptodate :: "'st \<Rightarrow> bool"
  up_updated :: "'st \<Rightarrow> bool"
  up_status_version :: "'st \<Rightarrow> string"
  up_bold_green :: "string \<Rightarrow> string"
  up_bold_white :: "string \<Rightarrow> string"

datatype updater_error = Crate string string | OldReleaseVersion string string

definition updater_error_string :: "updater_error \<Rightarrow> string" where
  "updater_error_string e =
     (case e of
        Crate c s \<Rightarrow> c @ '': '' @ s
      | OldReleaseVersion v w \<Rightarrow> ''The current version '' @ v @ '' is more recent than the release version '' @ w)"

definition show_available_releases :: "'st update_params \<Rightarrow> string \<Rightarrow> (updater_error, string) result" where
  "show_available_releases U repo_name =
     rbind (map_err (Crate ''self_update'') (up_releases U repo_name)) (\<lambda>releases.
       Inr (foldl (\<lambda>output v. output @ ''  * '' @ v @ [CHR 0x0A]) (''List of available versions'' @ [CHR 0x0A]) releases))"

definition is_ascii_digit :: "char \<Rightarrow> bool" where
  "is_ascii_digit c \<longleftrightarrow> of_char c \<in> {48..57 :: nat}"

definition target_version :: "string \<Rightarrow> string" where
  "target_version v = (if (case v of [] \<Rightarrow> False | c # _ \<Rightarrow> is_ascii_digit c) then CHR ''v'' # v else v)"

definition update_to_release ::
  "'st update_params \<Rightarrow> bool \<Rightarrow> string \<Rightarrow> string \<Rightarrow> string option \<Rightarrow> (updater_error, 'st) result" where
  "update_to_release U show_output repo_name bin_name version =
     map_err (Crate ''self_update'') (up_update U show_output repo_name bin_name (map_option target_version version))"

definition update_available :: "'st update_params \<Rightarrow> string \<Rightarrow> string \<Rightarrow> (updater_error, string) result" where
  "update_available U repo_name bin_name =
     rbind (map_err (Crate ''self_update'') (up_latest U repo_name bin_name)) (\<lambda>latest.
       rbind (map_err (Crate ''self_update'') (up_greater U (up_version U) latest)) (\<lambda>greater.
         if greater then Inr latest else Inl (OldReleaseVersion (up_version U) latest)))"

definition print_cli :: "'st update_params \<Rightarrow> string \<Rightarrow> string \<Rightarrow> string" where
  "print_cli U repo_name bin_name =
     (case update_available U repo_name bin_name of
        Inl _ \<Rightarrow> []
      | Inr latest \<Rightarrow>
          up_bold_green U ([CHR 0xF0, CHR 0x9F, CHR 0x9F, CHR 0xA2] @ '' A new version is available! Run'') @
          up_bold_white U ('' `'' @ bin_name @ '' update` '') @ up_bold_green U (''to update to v'' @ latest @ ''.''))"

record update_options =
  uo_list :: bool
  uo_quiet :: bool
  uo_version :: "string option"

text \<open>The command never fails: what goes wrong is part of its output.\<close>

definition update_parse :: "'st update_params \<Rightarrow> update_options \<Rightarrow> string \<Rightarrow> string \<Rightarrow> string" where
  "update_parse U opts repo_name bin_name =
     (if uo_list opts then
        (case show_available_releases U repo_name of
           Inr output \<Rightarrow> output
         | Inl e \<Rightarrow> ''Failed to list the available versions'' @ [CHR 0x0A] @ updater_error_string e @ [CHR 0x0A])
      else
        (let r = update_to_release U (\<not> uo_quiet opts) repo_name bin_name (uo_version opts) in
         if uo_quiet opts then []
         else case r of
           Inr status \<Rightarrow>
             if up_uptodate U status then CHR 0x0A # ''The latest version is already installed.''
             else if up_updated U status then CHR 0x0A # ''Successfully updated to version '' @ up_status_version U status
             else []
         | Inl e \<Rightarrow> CHR 0x0A # ''Failed to update to the latest version'' @ [CHR 0x0A] @ updater_error_string e @ [CHR 0x0A]))"

section \<open>The program\<close>

datatype command = CleanCommand clean_options | StartCommand start_options | UpdateCommand update_options

text \<open>What is parsed. No command reads the verbosity that stands before it.\<close>

record cli =
  cli_verbosity :: nat
  cli_command :: command

text \<open>What the process meets: the parameters of the commands, whether its output is a terminal, the clock and the lock
  of the block cache while it starts.\<close>

record ('ts, 'rng, 'key, 'st) cli_params =
  cp_api :: "('ts, 'rng, 'key) api_params"
  cp_clean :: clean_params
  cp_update :: "'st update_params"
  cp_tty :: bool
  cp_now :: int
  cp_free :: bool

text \<open>A command returns its output or an error, or it is a process of its own: the start command never returns.\<close>

datatype 'ts outcome = Returned "(clean_error, string) result" "'ts disk" | Started_process "'ts process"

definition command_parse ::
  "('ts, 'rng, 'key, 'st) cli_params \<Rightarrow> command \<Rightarrow> string \<Rightarrow> string \<Rightarrow> 'ts disk \<Rightarrow> 'ts outcome" where
  "command_parse P command repo_name bin_name D =
     (case command of
        CleanCommand opts \<Rightarrow> (let (r, D') = clean_parse (cp_clean P) opts D in Returned r D')
      | StartCommand opts \<Rightarrow> Started_process (start_parse (cp_api P) (cp_tty P) (cp_now P) (cp_free P) opts D)
      | UpdateCommand opts \<Rightarrow> Returned (Inr (update_parse (cp_update P) opts repo_name bin_name)) D)"

record build_info =
  bi_bin :: string
  bi_version :: string
  bi_repo :: string
  bi_branch :: string
  bi_commit :: string
  bi_features :: string

text \<open>\<open>args\<close> are the arguments after the name of the program. The line is printed before the exit with code 0.\<close>

definition check_for_version :: "build_info \<Rightarrow> string list \<Rightarrow> string option" where
  "check_for_version build args =
     (case args of
        [] \<Rightarrow> None
      | a # _ \<Rightarrow>
          if a \<in> set [''--version'', ''-V'']
          then Some (bi_bin build @ '' '' @ bi_version build @ '' '' @ bi_branch build @ '' '' @ bi_commit build @
                 '' features=['' @ bi_features build @ '']'')
          else None)"

text \<open>\<open>clap\<close> parses the arguments, or prints its help or an error and exits with a code.\<close>

definition main_core ::
  "('ts, 'rng, 'key, 'st) cli_params \<Rightarrow> (string list \<Rightarrow> (nat, cli) result) \<Rightarrow> build_info \<Rightarrow> string list \<Rightarrow>
   'ts disk \<Rightarrow> 'ts process" where
  "main_core P clap build args D =
     (if check_for_version build args \<noteq> None then Exited 0 D
      else case clap args of
        Inl code \<Rightarrow> Exited code D
      | Inr c \<Rightarrow>
          (case command_parse P (cli_command c) (bi_repo build) (bi_bin build) D of
             Started_process p \<Rightarrow> p
           | Returned (Inr _) D' \<Rightarrow> Exited 0 D'
           | Returned (Inl _) D' \<Rightarrow> Exited 1 D'))"

text \<open>The values that the build has written down: the name and version of the package, the branch and commit, which may be
  unknown, and the features, separated by commas and spaces.\<close>

definition build_of :: "string \<Rightarrow> string \<Rightarrow> string option \<Rightarrow> string option \<Rightarrow> string \<Rightarrow> build_info" where
  "build_of pkg_name version head_ref commit_hash features =
     \<lparr>bi_bin = pkg_name, bi_version = version, bi_repo = pkg_name,
      bi_branch = (case head_ref of Some b \<Rightarrow> b | None \<Rightarrow> ''unknown_branch''),
      bi_commit = (case commit_hash of Some c \<Rightarrow> c | None \<Rightarrow> ''unknown_commit''),
      bi_features = filter (\<lambda>c. c \<noteq> CHR '' '') features\<rparr>"

end
