(* ===== verification/CliProps.thy ===== *)
theory CliProps
  imports Cli "HOL-Library.Char_ord" "HOL-Library.List_Lexorder"
begin

text \<open>
  Properties of the command line: what the start command makes of its options, that a process with retention
  resumes what an earlier one left on disk, and that the clean command removes exactly the
  ledgers of its network in its folder, those that the start command makes among them.
\<close>

section \<open>The start command\<close>

text \<open>The object after its configuration.\<close>

definition configured :: "network_ids \<Rightarrow> start_options \<Rightarrow> 'ts api_data" where
  "configured ids S = (api_new ids)\<lparr>ad_network_id := so_network S, ad_rest_ip := rest_ip_port S,
     ad_rest_rps := so_rest_rps S, ad_keep_state := so_keep_state S, ad_ledger_base_path := so_storage S,
     ad_ledger_default_naming := so_keep_state S, ad_log_mode := FileLog (so_logfile S), ad_verbosity := so_verbosity S\<rparr>"

lemma start_configure_new:
  assumes "is_valid_network_id ids (so_network S)"
  shows "start_configure ids S (api_new ids) = (Inr (), configured ids S)"
  using assms by (simp add: start_configure_def try_cfg_network_def try_cfg_ledger_def try_cfg_rest_def cfg_defs
      configured_def api_new_def)

lemma configured_simps [simp]:
  "ad_state (configured ids S) = Init" "ad_network_id (configured ids S) = so_network S"
  "ad_rest_ip (configured ids S) = rest_ip_port S" "ad_rest_rps (configured ids S) = so_rest_rps S"
  "ad_keep_state (configured ids S) = so_keep_state S" "ad_ledger_base_path (configured ids S) = so_storage S"
  "ad_ledger_default_naming (configured ids S) = so_keep_state S" "ad_shutdown (configured ids S) = False"
  "ad_log_mode (configured ids S) = FileLog (so_logfile S)" "ad_verbosity (configured ids S) = so_verbosity S"
  "ad_validator (configured ids S) = NoValidator"
  by (simp_all add: configured_def api_new_def)

text \<open>Where the ledger of the node lies.\<close>

definition start_tag :: "file_params \<Rightarrow> start_options \<Rightarrow> (files_error, string) result" where
  "start_tag F S = endpoint_file_tag F (so_keep_state S) (rest_ip_port S)"

definition storage_base :: "file_params \<Rightarrow> path option \<Rightarrow> path" where
  "storage_base F p = (case p of Some b \<Rightarrow> b | None \<Rightarrow> (case fp_current_dir F of Some d \<Rightarrow> d | None \<Rightarrow> fp_manifest_dir F))"

definition start_folder :: "file_params \<Rightarrow> start_options \<Rightarrow> (files_error, path) result" where
  "start_folder F S = rbind (start_tag F S) (\<lambda>tag.
     Inr (custom_ledger_dir (so_network S) (so_keep_state S) tag (storage_base F (so_storage S))))"

lemma get_ledger_folder_configured:
  assumes "ad_network_id d = so_network S" "ad_keep_state d = so_keep_state S" "ad_rest_ip d = rest_ip_port S"
    "ad_ledger_base_path d = so_storage S" "ad_ledger_default_naming d = so_keep_state S"
  shows "get_ledger_folder F d = map_err FilesError (start_folder F S)"
  using assms by (cases "start_tag F S")
    (auto simp: get_ledger_folder_def start_folder_def start_tag_def storage_base_def default_ledger_dir_def
      split: option.split)

lemma start_prep_tracing:
  "start_prep A d D = (Inr nd, d', D') \<Longrightarrow> ad_log_mode d = CustomLog t \<Longrightarrow> ad_tracing d' = Some t"
  by (auto simp: start_prep_def trace_init_def Let_def split: if_splits sum.splits prod.splits)

lemma api_start_ok:
  assumes "api_start A now free d D = (Inr (), d', D2)"
  shows "\<exists>nd d1 D1 v. start_prep A d D = (Inr nd, d1, D1) \<and>
    validator_api_new A now free (ad_shutdown d1) nd D1 = (Inr v, D2) \<and> d' = start_complete v d1"
  using assms by (auto simp: api_start_def split: sum.splits prod.splits)

lemma start_node_ok:
  assumes "start_node A tty now free S (api_new (ap_ids A)) D = (Inr (), d, D')"
    and "is_valid_network_id (ap_ids A) (so_network S)"
  shows "\<exists>log_path tracing. get_log_file (ap_files A) (configured (ap_ids A) S :: 'ts api_data) = Inr log_path \<and>
    initialize_custom_tracing (ap_log_fs A) tty (so_verbosity S) log_path = Inr tracing \<and>
    api_start A now free ((configured (ap_ids A) S :: 'ts api_data)\<lparr>ad_log_mode := CustomLog tracing\<rparr>) D = (Inr (), d, D')"
proof -
  have cfg: "start_configure (ap_ids A) S (api_new (ap_ids A)) = (Inr (), configured (ap_ids A) S :: 'ts api_data)"
    by (rule start_configure_new [OF assms(2)])
  have log: "cfg_custom_log t (configured (ap_ids A) S :: 'ts api_data) =
      (Inr (), (configured (ap_ids A) S)\<lparr>ad_log_mode := CustomLog t\<rparr>)" for t
    by (simp add: cfg_custom_log_def is_state_def)
  show ?thesis using assms(1) by (auto simp: start_node_def cfg log split: sum.splits)
qed

text \<open>The networks of a validator and its folder.\<close>

lemma validator_api_new_ok:
  assumes "validator_api_new A now free sd nd D = (Inr api, D')"
  shows "\<exists>v genesis account l ts b. the_validator (ap_ids A) api = Some (nd_network_id nd, v) \<and>
    va_storage_path v = nd_storage_path nd \<and>
    fst (get_genesis (ap_genesis A (nd_network_id nd)) (dk_temp D)) = Inr genesis \<and>
    vp_load (ap_validator A (nd_network_id nd)) genesis (map_option fo_ledger (dk_folders D (nd_storage_path nd))) = Some l \<and>
    vp_open (ap_validator A (nd_network_id nd)) (map_option fo_transmissions (dk_folders D (nd_storage_path nd))) = Some ts \<and>
    consensus_new (pp_env (cn_primary (vp_consensus (ap_validator A (nd_network_id nd))))) (core_ledger_new l sd) account ts
      (vp_max_gc_rounds (ap_validator A (nd_network_id nd))) (nd_keep_state nd) (cache_file D (nd_storage_path nd)) = Some b \<and>
    consensus_run (vp_consensus (ap_validator A (nd_network_id nd))) now free b = (Inr (), va_node v)"
proof -
  obtain v where v: "the_validator (ap_ids A) api = Some (nd_network_id nd, v)"
    "fst (validator_for A now free sd nd D) = Inr v"
    using validator_api_new_network [OF assms] by blast
  obtain account genesis files D3 where g: "fst (get_genesis (ap_genesis A (nd_network_id nd)) (dk_temp D)) = Inr genesis"
    and n: "validator_new (ap_validator A (nd_network_id nd)) now free (nd_rest_ip nd) (nd_rest_rps nd) account genesis
      (nd_keep_state nd) (nd_storage_path nd) sd (D\<lparr>dk_temp := files\<rparr>) = (Inr v, D3)"
    using validator_for_new [OF v(2)] by blast
  show ?thesis using n v(1) g
    by (auto simp: validator_new_def Let_def split: option.splits sum.splits prod.splits if_splits) blast
qed

text \<open>What a running start command has done.\<close>

lemma start_parse_running:
  fixes A :: "('ts, 'rng, 'key) api_params"
  assumes "start_parse A tty now free S D = Running d D'"
  shows "\<exists>log_path tracing nd d1 D1 api p.
    is_valid_network_id (ap_ids A) (so_network S) \<and>
    initialize_custom_tracing (ap_log_fs A) tty (so_verbosity S) log_path = Inr tracing \<and>
    start_folder (ap_files A) S = Inr p \<and>
    start_prep A ((configured (ap_ids A) S)\<lparr>ad_log_mode := CustomLog tracing\<rparr>) D = (Inr nd, d1, D1) \<and>
    nd_storage_path nd = p \<and> nd_network_id nd = so_network S \<and> nd_keep_state nd = so_keep_state S \<and>
    validator_api_new A now free False nd D1 = (Inr api, D') \<and> d = start_complete api d1 \<and>
    same_settings (configured (ap_ids A) S) d \<and> ad_tracing d = Some tracing \<and> \<not> ad_shutdown d"
proof -
  have valid: "is_valid_network_id (ap_ids A) (so_network S)"
    using assms by (auto simp: start_parse_def is_valid_network_id_def split: if_splits)
  have "start_node A tty now free S (api_new (ap_ids A)) D = (Inr (), d, D')"
    using assms by (auto simp: start_parse_def split: if_splits sum.splits prod.splits)
  from start_node_ok [OF this valid] obtain log_path tracing where
    t: "initialize_custom_tracing (ap_log_fs A) tty (so_verbosity S) log_path = Inr tracing" and
    a: "api_start A now free ((configured (ap_ids A) S)\<lparr>ad_log_mode := CustomLog tracing\<rparr>) D = (Inr (), d, D')"
    by blast
  from api_start_ok [OF a] obtain nd d1 D1 api where
    p: "start_prep A ((configured (ap_ids A) S)\<lparr>ad_log_mode := CustomLog tracing\<rparr>) D = (Inr nd, d1, D1)" and
    v: "validator_api_new A now free (ad_shutdown d1) nd D1 = (Inr api, D')" and d: "d = start_complete api d1" by blast
  note ok = start_prep_ok [OF p]
  have "get_ledger_folder (ap_files A) ((configured (ap_ids A) S :: 'ts api_data)\<lparr>ad_log_mode := CustomLog tracing\<rparr>) =
      map_err FilesError (start_folder (ap_files A) S)"
    by (rule get_ledger_folder_configured) simp_all
  then have folder: "start_folder (ap_files A) S = Inr (nd_storage_path nd)"
    using ok by (cases "start_folder (ap_files A) S") auto
  have "same_settings (configured (ap_ids A) S) d"
    using ok d by (simp add: same_settings_def start_complete_def)
  moreover have "ad_tracing d = Some tracing" using start_prep_tracing [OF p] d by (simp add: start_complete_def)
  moreover have "nd_network_id nd = so_network S" "nd_keep_state nd = so_keep_state S" "\<not> ad_shutdown d1"
    using ok by simp_all
  moreover from this have "validator_api_new A now free False nd D1 = (Inr api, D')" "\<not> ad_shutdown d"
    using v d by (simp_all add: start_complete_def)
  ultimately show ?thesis using valid t p d folder by blast
qed

lemma start_parse_validator:
  assumes "start_parse A tty now free S D = Running d D'"
  shows "\<exists>v log_path tracing genesis account l ts b D1.
    ad_state d = Started \<and> the_validator (ap_ids A) (ad_validator d) = Some (so_network S, v) \<and>
    start_folder (ap_files A) S = Inr (va_storage_path v) \<and>
    initialize_custom_tracing (ap_log_fs A) tty (so_verbosity S) log_path = Inr tracing \<and> ad_tracing d = Some tracing \<and>
    same_settings (configured (ap_ids A) S) d \<and> \<not> ad_shutdown d \<and> (so_keep_state S \<longrightarrow> D1 = D) \<and>
    vp_load (ap_validator A (so_network S)) genesis (map_option fo_ledger (dk_folders D1 (va_storage_path v))) = Some l \<and>
    consensus_new (pp_env (cn_primary (vp_consensus (ap_validator A (so_network S))))) (core_ledger_new l False) account ts
      (vp_max_gc_rounds (ap_validator A (so_network S))) (so_keep_state S) (cache_file D1 (va_storage_path v)) = Some b \<and>
    consensus_run (vp_consensus (ap_validator A (so_network S))) now free b = (Inr (), va_node v)"
proof -
  from start_parse_running [OF assms] obtain log_path tracing nd d1 D1 api p where r:
    "initialize_custom_tracing (ap_log_fs A) tty (so_verbosity S) log_path = Inr tracing"
    "start_folder (ap_files A) S = Inr p"
    "start_prep A ((configured (ap_ids A) S)\<lparr>ad_log_mode := CustomLog tracing\<rparr>) D = (Inr nd, d1, D1)"
    "nd_storage_path nd = p" "nd_network_id nd = so_network S" "nd_keep_state nd = so_keep_state S"
    "validator_api_new A now free False nd D1 = (Inr api, D')" "d = start_complete api d1"
    "same_settings (configured (ap_ids A) S) d" "ad_tracing d = Some tracing" "\<not> ad_shutdown d" by blast
  have disk: "so_keep_state S \<longrightarrow> D1 = D" using start_prep_disk [OF r(3)] by simp
  have d: "ad_state d = Started" "ad_validator d = api" using r(8) by (simp_all add: start_complete_def)
  show ?thesis
    using validator_api_new_ok [OF r(7), unfolded r(4-6)] r(1,2,9-11) disk d by blast
qed

lemma initialize_custom_tracing_guard:
  "initialize_custom_tracing fs tty v log_path = Inr t \<Longrightarrow>
     get_tracing_guard t = Some [file_layer v log_path, stdout_layer tty v]"
  by (auto simp: initialize_custom_tracing_def rbind_Inr_iff init_file_writer_ok)

text \<open>What the handlers leave alone.\<close>

lemma map_validator_map: "map_validator (\<lambda>_. b) (map_validator f api) = map_validator (\<lambda>_. b) api"
  by (cases api) auto

lemma map_validator_same:
  "the_validator ids api = Some (n, v) \<Longrightarrow> map_validator (\<lambda>_. va_node v) api = api"
  by (cases api) auto

lemma handle_termination_validator:
  assumes "the_validator (ap_ids A) (ad_validator d) = Some (n, v)" "ad_state d = Started"
  shows "handle_termination A S d D = Exited 0
    (if so_keep_state S then write_back (va_storage_path v) (va_node (validator_shut_down (ap_validator A n) v)) D
     else write_folder (va_storage_path v) (va_node v) D)"
  using assms by (simp add: handle_termination_def api_end_def end_prep_def is_state_def validator_api_shut_down_def)

lemma handle_termination_exits: "\<exists>D'. handle_termination A S d D = Exited 0 D'"
  by (simp add: handle_termination_def split_beta)

lemma cli_step_running:
  assumes "cli_step A S (Running d D) z" "the_validator (ap_ids A) (ad_validator d) = Some (n, v)"
  shows "(\<exists>b. handler_step (vp_consensus (ap_validator A n)) (va_node v) b \<and>
      z = Running (d\<lparr>ad_validator := map_validator (\<lambda>_. b) (ad_validator d)\<rparr>) D) \<or> z = handle_termination A S d D"
  using assms(1)
proof (rule cli_step_runningE)
  fix m w b assume "z = Running (d\<lparr>ad_validator := map_validator (\<lambda>_. b) (ad_validator d)\<rparr>) D"
    "the_validator (ap_ids A) (ad_validator d) = Some (m, w)" "handler_step (vp_consensus (ap_validator A m)) (va_node w) b"
  then show ?thesis using assms(2) by auto
qed simp

lemma cli_steps_running:
  assumes "(cli_step A S)\<^sup>*\<^sup>* (Running d D) p" "the_validator (ap_ids A) (ad_validator d) = Some (n, v)"
  shows "case p of Exited c E \<Rightarrow> \<exists>b. (handler_step (vp_consensus (ap_validator A n)))\<^sup>*\<^sup>* (va_node v) b \<and>
        p = handle_termination A S (d\<lparr>ad_validator := map_validator (\<lambda>_. b) (ad_validator d)\<rparr>) D
    | Running d' D' \<Rightarrow> D' = D \<and> (\<exists>b. (handler_step (vp_consensus (ap_validator A n)))\<^sup>*\<^sup>* (va_node v) b \<and>
        d' = d\<lparr>ad_validator := map_validator (\<lambda>_. b) (ad_validator d)\<rparr>)"
  using assms(1)
proof (induction rule: rtranclp_induct)
  case base
  have "d = d\<lparr>ad_validator := map_validator (\<lambda>_. va_node v) (ad_validator d)\<rparr>"
    by (simp add: map_validator_same [OF assms(2)])
  then show ?case by auto
next
  case (step y z)
  show ?case
  proof (cases y)
    case (Exited c E)
    then show ?thesis using step.hyps(2) by (auto elim: cli_step_exitedE)
  next
    case (Running d1 D1)
    with step.IH obtain b where b: "D1 = D"
      "(handler_step (vp_consensus (ap_validator A n)))\<^sup>*\<^sup>* (va_node v) b"
      "d1 = d\<lparr>ad_validator := map_validator (\<lambda>_. b) (ad_validator d)\<rparr>" by auto
    have v1: "the_validator (ap_ids A) (ad_validator d1) = Some (n, v\<lparr>va_node := b\<rparr>)"
      using the_validator_map [OF assms(2), of "\<lambda>_. b"] b(3) by simp
    consider (handler) b' where "handler_step (vp_consensus (ap_validator A n)) b b'"
        "z = Running (d1\<lparr>ad_validator := map_validator (\<lambda>_. b') (ad_validator d1)\<rparr>) D1"
      | (signal) "z = handle_termination A S d1 D1"
      using cli_step_running [OF step.hyps(2) [unfolded Running] v1] by auto
    then show ?thesis
    proof cases
      case handler
      then show ?thesis using b rtranclp.rtrancl_into_rtrancl [OF b(2) handler(1)] by (auto simp: map_validator_map)
    next
      case signal
      obtain E where E: "z = Exited 0 E" using signal handle_termination_exits [of A S d1 D1] by auto
      show ?thesis unfolding E using E signal b by auto
    qed
  qed
qed

text \<open>What an ended process leaves on disk.\<close>

lemma process_ended:
  assumes "start_parse A tty now free S D = Running d D0" "(cli_step A S)\<^sup>*\<^sup>* (Running d D0) (Exited c D1)"
    and "the_validator (ap_ids A) (ad_validator d) = Some (n, v)"
  shows "\<exists>b. (handler_step (vp_consensus (ap_validator A n)))\<^sup>*\<^sup>* (va_node v) b \<and>
    D1 = (if so_keep_state S
          then write_back (va_storage_path v) (consensus_shut_down (vp_consensus (ap_validator A n)) (set_shutdown b)) D0
          else write_folder (va_storage_path v) b D0)"
proof -
  obtain b where b: "(handler_step (vp_consensus (ap_validator A n)))\<^sup>*\<^sup>* (va_node v) b"
    "Exited c D1 = handle_termination A S (d\<lparr>ad_validator := map_validator (\<lambda>_. b) (ad_validator d)\<rparr>) D0"
    using cli_steps_running [OF assms(2,3)] by auto
  have s: "ad_state (d\<lparr>ad_validator := map_validator (\<lambda>_. b) (ad_validator d)\<rparr>) = Started"
    using start_parse_validator [OF assms(1)] by auto
  have v: "the_validator (ap_ids A) (ad_validator (d\<lparr>ad_validator := map_validator (\<lambda>_. b) (ad_validator d)\<rparr>)) =
      Some (n, v\<lparr>va_node := b\<rparr>)"
    using the_validator_map [OF assms(3), of "\<lambda>_. b"] by simp
  show ?thesis using b handle_termination_validator [OF v s, of S D0]
    by (auto simp: validator_shut_down_def split: if_splits)
qed

lemma start_folder_kept:
  "so_keep_state S \<Longrightarrow> start_folder F S =
     Inr (custom_ledger_dir (so_network S) True DEFAULT_FILE_TAG (storage_base F (so_storage S)))"
  by (simp add: start_folder_def start_tag_def endpoint_file_tag_def)

lemma start_folder_target:
  assumes "start_folder F S = Inr p"
  shows "\<exists>tag. p = custom_ledger_dir (so_network S) (so_keep_state S) tag (storage_base F (so_storage S)) \<and>
    (so_keep_state S \<longrightarrow> tag = DEFAULT_FILE_TAG)"
proof -
  obtain tag where "start_tag F S = Inr tag"
    "p = custom_ledger_dir (so_network S) (so_keep_state S) tag (storage_base F (so_storage S))"
    using assms by (auto simp: start_folder_def rbind_Inr_iff)
  then show ?thesis by (auto simp: start_tag_def endpoint_file_tag_def)
qed

section \<open>The clean command\<close>

text \<open>Characters that \<open>glob\<close> reads as part of a pattern, and what its documentation promises for the patterns of the
  command below folders without such characters: a plain path matches itself, and a last component that ends in
  a star matches every component with that beginning, where such paths exist, of which there are finitely many; no
  entry is unreadable.\<close>

definition plain :: "path \<Rightarrow> bool" where
  "plain p \<longleftrightarrow> (\<forall>s\<in>set p. set s \<inter> {CHR ''*'', CHR ''?'', CHR ''[''} = {})"

definition glob_documented :: "clean_params \<Rightarrow> bool" where
  "glob_documented C \<longleftrightarrow> (\<forall>ex base f. finite {p. ex p} \<and> plain (base @ [f]) \<longrightarrow>
     (\<exists>es. cl_glob C ex (base @ [f]) = Some es \<and> set es = Some ` {p. p = base @ [f] \<and> ex p}) \<and>
     (\<exists>es. cl_glob C ex (base @ [f @ ''*'']) = Some es \<and> set es = Some ` {p. \<exists>x. p = base @ [f @ x] \<and> ex p}))"

lemma glob_documentedD:
  assumes "glob_documented C" "plain (base @ [f])" "finite {p. ex p}"
  shows "\<exists>es. cl_glob C ex (base @ [f]) = Some es \<and> set es = Some ` {p. p = base @ [f] \<and> ex p}"
    "\<exists>es. cl_glob C ex (base @ [f @ ''*'']) = Some es \<and> set es = Some ` {p. \<exists>x. p = base @ [f @ x] \<and> ex p}"
  using assms by (simp_all add: glob_documented_def)

text \<open>The ledger folders that the command is about, and the cache file of a folder.\<close>

definition clean_base :: "clean_params \<Rightarrow> clean_options \<Rightarrow> path" where
  "clean_base C opts = storage_base (cl_files C) (co_path opts)"

definition clean_target :: "clean_params \<Rightarrow> clean_options \<Rightarrow> path \<Rightarrow> bool" where
  "clean_target C opts p \<longleftrightarrow> (\<exists>k tag. p = custom_ledger_dir (co_network opts) k tag (clean_base C opts) \<and>
     (k \<longrightarrow> tag = DEFAULT_FILE_TAG))"

definition ledger_cache :: "path \<Rightarrow> path \<Rightarrow> bool" where
  "ledger_cache p c \<longleftrightarrow> proposal_cache_path (amareleo_storage_mode p) = Inr c"

lemma decimal_digits: "c \<in> set (decimal n) \<Longrightarrow> 48 \<le> (of_char c :: nat) \<and> (of_char c :: nat) \<le> 57"
proof (induction n rule: decimal.induct)
  case (1 n)
  have digit: "(of_char (char_of (48 + k)) :: nat) = 48 + k" if "k < 10" for k :: nat
    using that by (simp add: of_char_of)
  show ?case using 1 digit [of n] digit [of "n mod 10"]
    by (subst (asm) decimal.simps) (auto split: if_splits)
qed

lemma plain_ledger_name:
  "plain (base @ [ledger_dir_name n True DEFAULT_FILE_TAG]) \<longleftrightarrow> plain base"
  "plain (base @ [ledger_dir_name n False []]) \<longleftrightarrow> plain base"
proof -
  have "CHR ''*'' \<notin> set (decimal n)" "CHR ''?'' \<notin> set (decimal n)" "CHR ''['' \<notin> set (decimal n)"
    using decimal_digits [of "CHR ''*''" n] decimal_digits [of "CHR ''?''" n] decimal_digits [of "CHR ''[''" n] by auto
  then show "plain (base @ [ledger_dir_name n True DEFAULT_FILE_TAG]) \<longleftrightarrow> plain base"
    "plain (base @ [ledger_dir_name n False []]) \<longleftrightarrow> plain base"
    by (auto simp: plain_def ledger_dir_name_def DEFAULT_FILE_TAG_def LEDGER_STD_DIR_def LEDGER_TMP_DIR_def)
qed

lemma ledger_dir_name_append: "ledger_dir_name n k (x @ y) = ledger_dir_name n k x @ y"
  by (simp add: ledger_dir_name_def)

lemma clean_pattern_eq:
  "clean_pattern C opts True = clean_base C opts @ [ledger_dir_name (co_network opts) True DEFAULT_FILE_TAG]"
  "clean_pattern C opts False = clean_base C opts @ [ledger_dir_name (co_network opts) False [] @ ''*'']"
  by (simp_all add: clean_pattern_def clean_base_def storage_base_def default_ledger_dir_def custom_ledger_dir_def
      ledger_dir_name_append [symmetric] split: option.split)

lemma set_map_filter_Some: "set es = Some ` S \<Longrightarrow> set (List.map_filter (\<lambda>e. e) es) = S"
  by (force simp: List.map_filter_def image_iff)

lemma get_file_list_set:
  assumes "glob_documented C" "plain (clean_base C opts)" "finite {p. on_disk D p}"
  shows "set (get_file_list C D (clean_pattern C opts k)) =
    {p. \<exists>tag. p = custom_ledger_dir (co_network opts) k tag (clean_base C opts) \<and> (k \<longrightarrow> tag = DEFAULT_FILE_TAG) \<and> on_disk D p}"
proof (cases k)
  case True
  obtain es where "cl_glob C (on_disk D) (clean_pattern C opts True) = Some es"
    "set es = Some ` {p. p = clean_pattern C opts True \<and> on_disk D p}"
    using glob_documentedD(1) [OF assms(1) iffD2 [OF plain_ledger_name(1) assms(2)] assms(3), of "co_network opts"]
    unfolding clean_pattern_eq by blast
  then show ?thesis using True set_map_filter_Some
    by (simp add: get_file_list_def clean_pattern_eq custom_ledger_dir_def)
next
  case False
  obtain es where "cl_glob C (on_disk D) (clean_pattern C opts False) = Some es"
    "set es = Some ` {p. \<exists>x. p = clean_base C opts @ [ledger_dir_name (co_network opts) False [] @ x] \<and> on_disk D p}"
    using glob_documentedD(2) [OF assms(1) iffD2 [OF plain_ledger_name(2) assms(2)] assms(3), of "co_network opts"]
    unfolding clean_pattern_eq by blast
  then show ?thesis using False set_map_filter_Some
    by (simp add: get_file_list_def clean_pattern_eq custom_ledger_dir_def ledger_dir_name_append [symmetric])
qed

text \<open>Every folder the pattern finds has a cache file path of its own.\<close>

lemma starts_with_self: "starts_with p (p @ v)"
  by (induction p) auto

lemma str_contains_infix: "str_contains p (u @ p @ v)"
proof (induction u)
  case Nil
  show ?case using starts_with_self [of p v] by (cases "p @ v") auto
qed simp

lemma ledger_cache_exists: "\<exists>c. ledger_cache (custom_ledger_dir n k tag base) c"
proof -
  have "ledger_dir_name n k tag = (if k then ''.amareleo'' else ''.amareleo-tmp'') @ LEDGER_DIR_TAG @ decimal n @ ''-'' @ tag"
    by (simp add: ledger_dir_name_def LEDGER_STD_DIR_def LEDGER_TMP_DIR_def LEDGER_DIR_TAG_def)
  then have "str_contains LEDGER_DIR_TAG (ledger_dir_name n k tag)" using str_contains_infix by metis
  moreover have "file_name (custom_ledger_dir n k tag base) = Some (ledger_dir_name n k tag)"
    by (simp add: file_name_def custom_ledger_dir_def ledger_dir_name_def LEDGER_STD_DIR_def LEDGER_TMP_DIR_def)
  ultimately show ?thesis by (simp add: ledger_cache_def proposal_cache_path_def amareleo_storage_mode_def)
qed

text \<open>Removing a list of folders with their caches.\<close>

definition without :: "path set \<Rightarrow> 'ts disk \<Rightarrow> 'ts disk" where
  "without ps D = D\<lparr>dk_folders := dk_folders D |` (- ps), dk_caches := dk_caches D |` (- {c. \<exists>p\<in>ps. ledger_cache p c})\<rparr>"

lemma without_without: "without s (without r D) = without (r \<union> s) D"
proof -
  have "- r \<inter> - s = - (r \<union> s)"
    "- {c. \<exists>p\<in>r. ledger_cache p c} \<inter> - {c. \<exists>p\<in>s. ledger_cache p c} = - {c. \<exists>p\<in>r \<union> s. ledger_cache p c}"
    by auto
  then show ?thesis by (simp only: without_def) simp
qed

lemma remove_paths_ok:
  assumes "\<forall>p\<in>set ps. dk_caches D p = None \<and> (\<exists>c. ledger_cache p c \<and> dk_folders D c = None)" "\<forall>p. cl_remove_ok C p"
  shows "remove_paths C ps D = (Inr (), without (set ps) D)"
  using assms(1)
proof (induction ps arbitrary: D)
  case (Cons p ps)
  from Cons.prems obtain c where c: "ledger_cache p c" "dk_folders D c = None" "dk_caches D p = None" by auto
  let ?D1 = "D\<lparr>dk_caches := (dk_caches D)(c := None)\<rparr>"
  let ?D2 = "?D1\<lparr>dk_folders := (dk_folders D)(p := None)\<rparr>"
  have 1: "remove_proposal_cache C p D = (Inr (), ?D1)"
    using c assms(2) by (auto simp: remove_proposal_cache_def ledger_cache_def on_disk_def fun_upd_idem)
  have 2: "\<exists>m. remove_ledger C p ?D1 = (Inr m, ?D2)"
    using c assms(2) by (auto simp: remove_ledger_def on_disk_def fun_upd_idem)
  have only: "ledger_cache p c' \<longleftrightarrow> c' = c" for c' using c(1) by (auto simp: ledger_cache_def)
  have "without (set ps) ?D2 = without (set (p # ps)) D"
    by (auto simp: without_def only restrict_map_def fun_eq_iff)
  moreover have "remove_paths C ps ?D2 = (Inr (), without (set ps) ?D2)"
    by (rule Cons.IH) (use Cons.prems in fastforce)
  ultimately show ?case using 1 2 by auto
qed (simp add: without_def restrict_map_def)

lemma first_separator:
  assumes "xs @ c # ys = xs' @ c # ys'" "c \<notin> set xs" "c \<notin> set xs'"
  shows "xs = xs' \<and> ys = ys'"
proof -
  from assms(1) obtain us where "xs = xs' @ us \<and> us @ c # ys = c # ys' \<or> xs @ us = xs' \<and> c # ys = us @ c # ys'"
    by (auto simp: append_eq_append_conv2)
  then show ?thesis using assms(2,3) by (cases us) auto
qed

text \<open>Whatever the tags are, the name of a ledger folder determines its network and its retention flag.\<close>

lemma ledger_dir_name_network:
  assumes "ledger_dir_name n k tag = ledger_dir_name n' k' tag'"
  shows "n = n' \<and> k = k' \<and> tag = tag'"
proof -
  have "k = k'" using assms
    by (cases k; cases k') (simp_all add: ledger_dir_name_def LEDGER_STD_DIR_def LEDGER_TMP_DIR_def)
  then have "decimal n @ CHR ''-'' # tag = decimal n' @ CHR ''-'' # tag'"
    using assms by (simp add: ledger_dir_name_def split: if_splits)
  then show ?thesis
    using first_separator [of "decimal n" "CHR ''-''" tag "decimal n'" tag'] decimal_not_dash decimal_inj \<open>k = k'\<close> by blast
qed

lemma custom_ledger_dir_inj:
  "custom_ledger_dir n k tag base = custom_ledger_dir n' k' tag' base' \<longleftrightarrow> n = n' \<and> k = k' \<and> tag = tag' \<and> base = base'"
  by (auto simp: custom_ledger_dir_def dest: ledger_dir_name_network)

text \<open>What the command leaves, of which \<open>clean_removes_exactly\<close> and \<open>clean_after_start\<close> are uses.\<close>

lemma clean_removes_targets:
  assumes "glob_documented C" "plain (clean_base C opts)" "\<forall>p. cl_remove_ok C p"
    and "\<forall>p. clean_target C opts p \<longrightarrow> dk_caches D p = None \<and> (\<forall>c. ledger_cache p c \<longrightarrow> dk_folders D c = None)"
    and "finite (dom (dk_folders D))" "finite (dom (dk_caches D))"
  shows "\<exists>msg D'. clean_parse C opts D = (Inr msg, D') \<and>
    dk_folders D' = dk_folders D |` (- {p. clean_target C opts p}) \<and>
    dk_caches D' = dk_caches D |` (- {c. \<exists>p. clean_target C opts p \<and> dk_folders D p \<noteq> None \<and> ledger_cache p c}) \<and>
    dk_temp D' = dk_temp D"
proof -
  define found where "found k E = set (get_file_list C E (clean_pattern C opts k))" for k and E :: "'a disk"
  have found: "found k E = {p. \<exists>tag. p = custom_ledger_dir (co_network opts) k tag (clean_base C opts) \<and>
      (k \<longrightarrow> tag = DEFAULT_FILE_TAG) \<and> on_disk E p}"
    if "dk_caches E \<subseteq>\<^sub>m dk_caches D" "dk_folders E \<subseteq>\<^sub>m dk_folders D" for k and E :: "'a disk"
  proof -
    have "{p. on_disk E p} \<subseteq> dom (dk_folders D) \<union> dom (dk_caches D)"
      using map_le_implies_dom_le [OF that(1)] map_le_implies_dom_le [OF that(2)] by (auto simp: on_disk_def)
    then have "finite {p. on_disk E p}" using assms(5,6) finite_subset by blast
    then show ?thesis unfolding found_def by (rule get_file_list_set [OF assms(1,2)])
  qed
  have target: "clean_target C opts p"
    if "p \<in> found k E" "dk_caches E \<subseteq>\<^sub>m dk_caches D" "dk_folders E \<subseteq>\<^sub>m dk_folders D" for p k and E :: "'a disk"
    using that(1) found [OF that(2,3)] by (auto simp: clean_target_def)
  have ok: "remove_all C opts k E = (Inr (), without (found k E) E)"
    if "dk_caches E \<subseteq>\<^sub>m dk_caches D" "dk_folders E \<subseteq>\<^sub>m dk_folders D" for k and E :: "'a disk"
    unfolding remove_all_def found_def
  proof (rule remove_paths_ok [OF _ assms(3)], rule ballI)
    fix p assume "p \<in> set (get_file_list C E (clean_pattern C opts k))"
    then have t: "clean_target C opts p" using target that by (auto simp: found_def)
    then obtain c where c: "ledger_cache p c" using ledger_cache_exists unfolding clean_target_def by blast
    have "dk_caches D p = None" "dk_folders D c = None" using assms(4) t c by auto
    then show "dk_caches E p = None \<and> (\<exists>c. ledger_cache p c \<and> dk_folders E c = None)"
      using that c by (metis domIff map_le_implies_dom_le subset_iff)
  qed
  let ?D1 = "without (found False D) D" and ?D2 = "without (found True (without (found False D) D)) (without (found False D) D)"
  have sub: "dk_caches ?D1 \<subseteq>\<^sub>m dk_caches D" "dk_folders ?D1 \<subseteq>\<^sub>m dk_folders D"
    by (auto simp: without_def map_le_def restrict_map_def split: if_splits)
  note found0 = found [OF map_le_refl map_le_refl] and found1 = found [OF sub]
  have 1: "remove_all C opts False D = (Inr (), ?D1)" by (rule ok) simp_all
  have 2: "remove_all C opts True ?D1 = (Inr (), ?D2)"
    by (rule ok [OF sub])
  have both: "p \<in> found False D \<or> p \<in> found True ?D1 \<longleftrightarrow> clean_target C opts p \<and> dk_folders D p \<noteq> None" for p
  proof (cases "clean_target C opts p")
    case True
    then have "dk_caches D p = None" using assms(4) by blast
    then have disk: "on_disk D p \<longleftrightarrow> dk_folders D p \<noteq> None" "dk_caches ?D1 p = None"
      by (simp_all add: on_disk_def without_def restrict_map_def)
    from True obtain k tag where p: "p = custom_ledger_dir (co_network opts) k tag (clean_base C opts)"
      "k \<longrightarrow> tag = DEFAULT_FILE_TAG" unfolding clean_target_def by blast
    show ?thesis
    proof (cases k)
      case kept: True
      then have "p \<notin> found False D" using p(1) by (auto simp: found0 custom_ledger_dir_inj)
      then have "on_disk ?D1 p \<longleftrightarrow> dk_folders D p \<noteq> None"
        using disk(2) by (simp add: on_disk_def) (simp add: without_def)
      moreover have "p \<in> found True ?D1 \<longleftrightarrow> on_disk ?D1 p" using p kept by (simp add: found1)
      ultimately show ?thesis using True \<open>p \<notin> found False D\<close> by blast
    next
      case temporary: False
      then have "p \<notin> found True ?D1" using p(1) by (auto simp: found1 custom_ledger_dir_inj)
      moreover have "p \<in> found False D \<longleftrightarrow> on_disk D p" using p(1) temporary by (auto simp: found0)
      ultimately show ?thesis using True disk(1) by blast
    qed
  next
    case False
    then show ?thesis using target sub by (metis map_le_refl)
  qed
  let ?T = "{p. clean_target C opts p \<and> dk_folders D p \<noteq> None}"
  have union: "found False D \<union> found True ?D1 = ?T" using both by blast
  have D2: "?D2 = without ?T D" unfolding without_without union ..
  have "dk_folders ?D2 = dk_folders D |` (- {p. clean_target C opts p})"
    unfolding D2 by (auto simp: without_def restrict_map_def fun_eq_iff)
  moreover have "dk_caches ?D2 = dk_caches D |` (- {c. \<exists>p. clean_target C opts p \<and> dk_folders D p \<noteq> None \<and> ledger_cache p c})"
    unfolding D2 by (auto simp: without_def restrict_map_def fun_eq_iff)
  moreover have "dk_temp ?D2 = dk_temp D" by (simp add: without_def)
  ultimately show ?thesis using 1 2 by (auto simp: clean_parse_def)
qed

section \<open>Properties\<close>


text \<open>What a start command runs is what its options say: the node runs in state \<open>Started\<close> on the chosen network, its REST
  address and rate, its retention and its ledger folder are the chosen ones (so no setter has failed silently), the
  shutdown flag is clear, and everything that is logged goes to one log file and to the terminal, both with
  the filter of the verbosity.\<close>

theorem start_runs_its_options:
  assumes "start_parse A tty now free S D = Running d D'"
  shows "\<exists>v log_path. ad_state d = Started \<and> the_validator (ap_ids A) (ad_validator d) = Some (so_network S, v) \<and>
    start_folder (ap_files A) S = Inr (va_storage_path v) \<and> ad_rest_ip d = rest_ip_port S \<and>
    ad_rest_rps d = so_rest_rps S \<and> ad_keep_state d = so_keep_state S \<and> \<not> ad_shutdown d \<and>
    Option.bind (ad_tracing d) get_tracing_guard =
      Some [file_layer (so_verbosity S) log_path, stdout_layer tty (so_verbosity S)]"
proof -
  from start_parse_validator [OF assms] obtain v log_path tracing where
    r: "ad_state d = Started" "the_validator (ap_ids A) (ad_validator d) = Some (so_network S, v)"
    "start_folder (ap_files A) S = Inr (va_storage_path v)"
    "initialize_custom_tracing (ap_log_fs A) tty (so_verbosity S) log_path = Inr tracing" "ad_tracing d = Some tracing"
    "same_settings (configured (ap_ids A) S) d" "\<not> ad_shutdown d" by blast
  then show ?thesis using initialize_custom_tracing_guard [OF r(4)] by (auto simp: same_settings_def)
qed

text \<open>C21: a process with retention is resumed by the next one: when the node has run and a signal has ended the process,
  a later start on the same network and storage directory, with whatever address, rate and verbosity, loads the ledger with
  all the blocks of the first node and the proposal cache it wrote; its shutdown flag is clear, so it can advance.\<close>

theorem next_process_resumes:
  assumes "start_parse A tty now free S D = Running d D0" "(cli_step A S)\<^sup>*\<^sup>* (Running d D0) (Exited c D1)"
    and "start_parse A tty' now' free' S' D1 = Running d' D2"
    and "so_keep_state S" "so_keep_state S'" "so_network S' = so_network S" "so_storage S' = so_storage S"
  shows "\<exists>v v' b genesis account l ts m. the_validator (ap_ids A) (ad_validator d) = Some (so_network S, v) \<and>
    (handler_step (vp_consensus (ap_validator A (so_network S))))\<^sup>*\<^sup>* (va_node v) b \<and>
    the_validator (ap_ids A) (ad_validator d') = Some (so_network S, v') \<and>
    va_storage_path v' = va_storage_path v \<and>
    vp_load (ap_validator A (so_network S)) genesis (Some (cl_ledger (bft_ledger b))) = Some l \<and>
    consensus_new (pp_env (cn_primary (vp_consensus (ap_validator A (so_network S))))) (core_ledger_new l False) account ts
      (vp_max_gc_rounds (ap_validator A (so_network S))) True
      (pm_cache_file (bft_primary (consensus_shut_down (vp_consensus (ap_validator A (so_network S))) (set_shutdown b)))) = Some m \<and>
    consensus_run (vp_consensus (ap_validator A (so_network S))) now' free' m = (Inr (), va_node v')"
proof -
  obtain v where v: "the_validator (ap_ids A) (ad_validator d) = Some (so_network S, v)"
    "start_folder (ap_files A) S = Inr (va_storage_path v)"
    using start_parse_validator [OF assms(1)] by blast
  obtain b where b: "(handler_step (vp_consensus (ap_validator A (so_network S))))\<^sup>*\<^sup>* (va_node v) b"
    "D1 = write_back (va_storage_path v) (consensus_shut_down (vp_consensus (ap_validator A (so_network S))) (set_shutdown b)) D0"
    using process_ended [OF assms(1,2) v(1)] assms(4) by auto
  have path: "start_folder (ap_files A) S' = Inr (va_storage_path v)"
    using v(2) start_folder_kept [OF assms(4)] start_folder_kept [OF assms(5)] assms(6,7) by simp
  have "\<exists>c. proposal_cache_path (amareleo_storage_mode (va_storage_path v)) = Inr c"
    using start_folder_target [OF v(2)] ledger_cache_exists by (auto simp: ledger_cache_def)
  then obtain cache where cache: "proposal_cache_path (amareleo_storage_mode (va_storage_path v)) = Inr cache" by blast
  have ledger: "cl_ledger (bft_ledger (consensus_shut_down C (set_shutdown b))) = cl_ledger (bft_ledger b)" for C :: "'a consensus_params"
    using frozen.node_step_R [OF refl node_step.stop [of C "set_shutdown b"]] by (simp add: ledger_frozen_def set_shutdown_def)
  have disk: "map_option fo_ledger (dk_folders D1 (va_storage_path v)) = Some (cl_ledger (bft_ledger b))"
    "cache_file D1 (va_storage_path v) =
       pm_cache_file (bft_primary (consensus_shut_down (vp_consensus (ap_validator A (so_network S))) (set_shutdown b)))"
    unfolding b(2) by (simp_all add: write_back_reads [OF cache] ledger)
  show ?thesis
    using start_parse_validator [OF assms(3)] assms(5,6) path v(1) b(1) disk by auto metis
qed

text \<open>What a start command leaves behind, the clean command with the same network and directory takes away: after the
  process has ended, however long its node ran, the clean succeeds and neither the ledger folder of the node nor its proposal
  cache is left, while the folders of the other networks stay.\<close>

theorem clean_after_start:
  assumes "start_parse A tty now free S D = Running d D0" "(cli_step A S)\<^sup>*\<^sup>* (Running d D0) (Exited c D1)"
    and "cl_files C = ap_files A" "co_network opts = so_network S" "co_path opts = so_storage S"
    and "glob_documented C" "plain (clean_base C opts)" "\<forall>p. cl_remove_ok C p"
    and "\<forall>p. clean_target C opts p \<longrightarrow> dk_caches D1 p = None \<and> (\<forall>c. ledger_cache p c \<longrightarrow> dk_folders D1 c = None)"
    and "finite (dom (dk_folders D1))" "finite (dom (dk_caches D1))"
  shows "\<exists>v msg D2. the_validator (ap_ids A) (ad_validator d) = Some (so_network S, v) \<and>
    dk_folders D1 (va_storage_path v) \<noteq> None \<and> clean_parse C opts D1 = (Inr msg, D2) \<and>
    dk_folders D2 (va_storage_path v) = None \<and> cache_file D2 (va_storage_path v) = None \<and>
    (\<forall>n k tag base. n \<noteq> so_network S \<longrightarrow>
      dk_folders D2 (custom_ledger_dir n k tag base) = dk_folders D1 (custom_ledger_dir n k tag base))"
proof -
  obtain v where v: "the_validator (ap_ids A) (ad_validator d) = Some (so_network S, v)"
    "start_folder (ap_files A) S = Inr (va_storage_path v)"
    using start_parse_validator [OF assms(1)] by blast
  have base: "clean_base C opts = storage_base (ap_files A) (so_storage S)" by (simp add: clean_base_def assms(3,5))
  have target: "clean_target C opts (va_storage_path v)"
    using start_folder_target [OF v(2)] unfolding clean_target_def base assms(4) by blast
  have there: "dk_folders D1 (va_storage_path v) \<noteq> None"
    using process_ended [OF assms(1,2) v(1)] by (auto simp: write_back_def write_folder_def)
  obtain msg D2 where D2: "clean_parse C opts D1 = (Inr msg, D2)"
    "dk_folders D2 = dk_folders D1 |` (- {p. clean_target C opts p})"
    "dk_caches D2 = dk_caches D1 |` (- {c. \<exists>p. clean_target C opts p \<and> dk_folders D1 p \<noteq> None \<and> ledger_cache p c})"
    using clean_removes_targets [OF assms(6-11)] by blast
  have "cache_file D2 (va_storage_path v) = None"
    using target there by (auto simp: cache_file_def D2(3) restrict_map_def ledger_cache_def split: sum.split)
  moreover have "dk_folders D2 (custom_ledger_dir n k tag base) = dk_folders D1 (custom_ledger_dir n k tag base)"
    if "n \<noteq> so_network S" for n k tag base
    using that by (auto simp: D2(2) restrict_map_def clean_target_def custom_ledger_dir_inj assms(4))
  ultimately show ?thesis using v(1) there D2 target by (auto simp: restrict_map_def)
qed

section \<open>A concrete process\<close>

definition sample_empty_cache :: proposal_cache where
  "sample_empty_cache =
     \<lparr>pc_latest_round = 0, pc_proposal = None, pc_signed_proposals = [], pc_pending_certificates = []\<rparr>"

definition sample_cache_bytes :: bytes where
  "sample_cache_bytes = (case cache_store sample_codecs sample_empty_cache of Inl _ \<Rightarrow> [] | Inr bs \<Rightarrow> bs)"

lemma sample_cache_store: "cache_store sample_codecs sample_empty_cache = Inr sample_cache_bytes"
  by (simp add: sample_cache_bytes_def sample_empty_cache_def cache_store_def cache_write_le_def signed_write_le_def
      write_len_def)

lemma sample_cache_load:
  "cache_load sample_codecs sample_network sample_crypto 1 (Some sample_cache_bytes) = Inr sample_empty_cache"
proof -
  have "cache_write_le sample_codecs sample_empty_cache = Some sample_cache_bytes"
    using sample_cache_store by (simp add: cache_store_def ok_or_def split: option.splits)
  moreover have "cache_storable sample_codecs sample_network sample_empty_cache"
    by (simp add: sample_empty_cache_def cache_storable_def)
  ultimately have "cache_read_le sample_codecs sample_network sample_cache_bytes = Some (sample_empty_cache, [])"
    using cache_write_read [OF sample_codecs_ok, of sample_network sample_empty_cache sample_cache_bytes "[]"] by simp
  then show ?thesis
    by (simp add: cache_load_def cache_is_valid_def signed_is_valid_def sample_empty_cache_def)
qed

text \<open>The sample node with retention, run on a cache file that is absent or the one it writes.\<close>

definition sample_kept_node :: "bytes option \<Rightarrow> memory_service bft" where
  "sample_kept_node file = (sample_flagged False)\<lparr>bft_primary := (bft_primary (sample_flagged False))
     \<lparr>pm_keep_state := True, pm_save_pending := True, pm_cache_file := file\<rparr>\<rparr>"

lemma sample_kept_run:
  assumes "file = None \<or> file = Some sample_cache_bytes"
  shows "\<exists>b. consensus_new sample_env (core_ledger_new sample_ledger False) 1 mem_new 1 True file = Some b \<and>
     consensus_run sample_cp 100 True b = (Inr (), sample_kept_node file)"
proof -
  let ?L = "core_ledger_new sample_ledger False"
  have "storage_new sample_env ?L mem_new 1 = storage_new sample_env sample_core mem_new 1"
    by (simp add: storage_new_def sample_core_def core_ledger_new_def latest_round_def current_committee_def
        latest_block_height_def Let_def)
  then have new: "consensus_new sample_env ?L 1 mem_new 1 True file =
      Some (bft_new 1 sample_s0 ?L (primary_new True file))"
    using sample_new by (simp add: consensus_new_def)
  have load: "cache_load sample_codecs sample_network sample_crypto (Suc 0) (Some sample_cache_bytes) = Inr sample_empty_cache"
    using sample_cache_load by simp
  have "consensus_run sample_cp 100 True (bft_new 1 sample_s0 ?L (primary_new True file)) = (Inr (), sample_kept_node file)"
    using assms
    by (elim disjE)
      (simp_all add: consensus_run_def bft_run_def primary_run_def sample_kept_node_def sample_flagged_def sample_fresh_def sample_started_def
        bft_new_def primary_new_def node_params_def sample_cp_def sample_pp_def MAX_WORKERS_def worker_new_def
        set_workers_def sync_storage_with_ledger_at_bootup_def load_proposal_cache_def get_blocks_def get_block_def
        latest_block_def sync_height_with_block_def sync_round_with_block_def garbage_collect_certificates_def
        sync_block_def authority_certificates_def sync_bft_dag_at_bootup_def u32_saturating_add_def
        upt_rec [of "0" "Suc 0"] sample_store_defs load [unfolded sample_network_def sample_crypto_def] sample_empty_cache_def Let_def)
  then show ?thesis using new by blast
qed

definition sample_options :: start_options where
  "sample_options = (start_default (ap_ids sample_api))\<lparr>so_keep_state := True\<rparr>"

definition sample_path :: path where
  "sample_path = custom_ledger_dir 1 True ''0'' [''src'']"

lemma sample_options_simps [simp]:
  "so_network sample_options = 1" "so_rest sample_options = None" "so_rest_rps sample_options = 10"
  "so_storage sample_options = None" "so_keep_state sample_options" "so_logfile sample_options = None"
  "so_verbosity sample_options = 1" "rest_ip_port sample_options = V4 0 0 0 0 3030"
  by (simp_all add: sample_options_def start_default_def rest_ip_port_def)

lemma sample_path_folder: "start_folder (ap_files sample_api) sample_options = Inr sample_path"
  by (simp add: start_folder_kept sample_path_def storage_base_def sample_api_def sample_files_def DEFAULT_FILE_TAG_def)

lemma sample_path_cache:
  "proposal_cache_path (amareleo_storage_mode sample_path) = Inr [''src'', cache_file_name 1 True ''0'']"
  using proposal_cache_path_ledger [of "''0''" 1 True "[''src'']"] by (simp add: sample_path_def)

lemma sample_configured:
  obtains nd d1 t where "start_node sample_api False 100 True sample_options (api_new (ap_ids sample_api)) D =
      api_start sample_api 100 True ((configured (ap_ids sample_api) sample_options)\<lparr>ad_log_mode := CustomLog t\<rparr>) D"
    "start_prep sample_api ((configured (ap_ids sample_api) sample_options)\<lparr>ad_log_mode := CustomLog t\<rparr>) D = (Inr nd, d1, D)"
    "nd_network_id nd = 1" "nd_keep_state nd" "nd_rest_rps nd = 10" "nd_storage_path nd = sample_path" "\<not> ad_shutdown d1"
proof -
  have valid: "is_valid_network_id (ap_ids sample_api) (so_network sample_options)" by (simp add: is_valid_network_id_def)
  note cfg = start_configure_new [OF valid]
  have account: "get_node_account (ap_genesis sample_api 1) = Inr 1"
    by (simp add: sample_api_def get_node_account_def sample_genesis_def ok_or_def)
  obtain lp where lp: "get_log_file (ap_files sample_api) (configured (ap_ids sample_api) sample_options :: memory_service api_data) = Inr lp"
    "lp \<noteq> []"
    by (simp add: get_log_file_def log_is_file_def log_get_path_def endpoint_file_tag_def amareleo_log_file_def)
  obtain t where t: "initialize_custom_tracing (ap_log_fs sample_api) False 1 lp = Inr t"
    using lp(2) by (simp add: initialize_custom_tracing_def init_file_writer_def path_parent_def sample_api_def)
  let ?d = "(configured (ap_ids sample_api) sample_options :: memory_service api_data)\<lparr>ad_log_mode := CustomLog t\<rparr>"
  have folder: "get_ledger_folder (ap_files sample_api) ?d = Inr sample_path"
    using get_ledger_folder_configured [of ?d sample_options "ap_files sample_api"] sample_path_folder by simp
  have node: "start_node sample_api False 100 True sample_options (api_new (ap_ids sample_api)) D =
      api_start sample_api 100 True ?d D"
    using folder by (simp add: start_node_def account cfg lp t cfg_custom_log_def is_state_def del: One_nat_def)
  obtain nd d1 where p: "start_prep sample_api ?d D = (Inr nd, d1, D)"
    using folder by (simp add: start_prep_def is_state_def trace_init_def Let_def)
  show ?thesis using that [OF node p] start_prep_ok [OF p] folder by simp
qed

lemma sample_start_parse:
  assumes "dk_temp D = [''hash'' \<mapsto> [0]]" "cache_file D sample_path = file" "file = None \<or> file = Some sample_cache_bytes"
  shows "\<exists>d v. start_parse sample_api False 100 True sample_options D = Running d D \<and>
    the_validator (ap_ids sample_api) (ad_validator d) = Some (1, v) \<and> va_node v = sample_kept_node file"
proof -
  from sample_configured [of D] obtain nd d1 t where n: "start_node sample_api False 100 True sample_options (api_new (ap_ids sample_api)) D =
      api_start sample_api 100 True ((configured (ap_ids sample_api) sample_options)\<lparr>ad_log_mode := CustomLog t\<rparr>) D"
    "start_prep sample_api ((configured (ap_ids sample_api) sample_options)\<lparr>ad_log_mode := CustomLog t\<rparr>) D = (Inr nd, d1, D)"
    "nd_network_id nd = 1" "nd_keep_state nd" "nd_rest_rps nd = 10" "nd_storage_path nd = sample_path" "\<not> ad_shutdown d1" .
  obtain b where b: "consensus_new sample_env (core_ledger_new sample_ledger False) 1 mem_new 1 True file = Some b"
    "consensus_run sample_cp 100 True b = (Inr (), sample_kept_node file)"
    using sample_kept_run [OF assms(3)] by blast
  have env: "pp_env (cn_primary sample_cp) = sample_env" by (simp add: sample_cp_def sample_pp_def)
  have account: "get_node_account sample_genesis = Inr 1" by (simp add: get_node_account_def sample_genesis_def ok_or_def)
  have genesis: "get_genesis sample_genesis [''hash'' \<mapsto> [0]] = (Inr (sample_block 0), [''hash'' \<mapsto> [0]])"
    by (rule sample_genesis_get(2))
  let ?v = "\<lparr>va_node = sample_kept_node file, va_rest = sample_serving, va_storage_path = sample_path\<rparr>"
  have "D\<lparr>dk_temp := [''hash'' \<mapsto> [0]]\<rparr> = D" using assms(1) by (cases D) simp
  then have "validator_for sample_api 100 True False nd D = (Inr ?v, D)"
    using n(3-6) assms(1,2) b sample_rest_start(1) [unfolded sample_vp_def, simplified]
    by (simp add: validator_for_def sample_api_def account genesis validator_new_def sample_vp_def env Let_def)
  then have "validator_api_new sample_api 100 True False nd D = (Inr (TestnetV0 ?v), D)"
    using n(3) by (simp add: validator_api_new_def Let_def)
  then have "start_parse sample_api False 100 True sample_options D = Running (start_complete (TestnetV0 ?v) d1) D"
    using n(1,2,7) by (simp add: start_parse_def api_start_def)
  moreover have "the_validator (ap_ids sample_api) (ad_validator (start_complete (TestnetV0 ?v) d1)) = Some (1, ?v)"
    by (simp add: start_complete_def)
  ultimately show ?thesis by (metis validator.select_convs(1))
qed

text \<open>The first process ends on a signal; the disk it leaves.\<close>

definition sample_left :: "memory_service disk" where
  "sample_left = write_back sample_path (consensus_shut_down sample_cp (set_shutdown (sample_kept_node None))) sample_disk"

lemma sample_left_simps:
  "dk_temp sample_left = [''hash'' \<mapsto> [0]]" "cache_file sample_left sample_path = Some sample_cache_bytes"
proof -
  let ?b = "set_shutdown (sample_kept_node None)"
  have p: "pm_save_pending (bft_primary ?b)" "pm_proposed_batch (bft_primary ?b) = None"
    "pm_signed_proposals (bft_primary ?b) = []" "pm_propose_lock (bft_primary ?b) = 0"
    "get_pending_certificates (bft_ledger ?b) (bft_storage ?b) = []"
    by (simp_all add: set_shutdown_def sample_kept_node_def sample_flagged_def sample_started_def sample_fresh_def bft_new_def
        primary_new_def get_pending_certificates_def sample_s0_def iset_collect_def)
  have codecs: "pp_codecs (node_params sample_cp) = sample_codecs"
    by (simp add: node_params_def sample_cp_def sample_pp_def)
  have "pm_cache_file (bft_primary (consensus_shut_down sample_cp ?b)) = Some sample_cache_bytes"
    using sample_cache_store
    by (simp add: consensus_shut_down_def bft_shut_down_def primary_shut_down_def p codecs sample_empty_cache_def Let_def)
  then show "cache_file sample_left sample_path = Some sample_cache_bytes"
    by (simp add: sample_left_def write_back_reads [OF sample_path_cache])
  show "dk_temp sample_left = [''hash'' \<mapsto> [0]]"
    by (simp add: sample_left_def write_back_def write_folder_def sample_disk_def)
qed

lemma sample_first:
  obtains d where "start_parse sample_api False 100 True sample_options sample_disk = Running d sample_disk"
    "(cli_step sample_api sample_options)\<^sup>*\<^sup>* (Running d sample_disk) (Exited 0 sample_left)"
proof -
  have "cache_file sample_disk sample_path = None" by (simp add: cache_file_def sample_disk_def split: sum.split)
  then obtain d v where d: "start_parse sample_api False 100 True sample_options sample_disk = Running d sample_disk"
    "the_validator (ap_ids sample_api) (ad_validator d) = Some (1, v)" "va_node v = sample_kept_node None"
    using sample_start_parse [of sample_disk None] by (auto simp: sample_disk_def)
  have s: "ad_state d = Started" "va_storage_path v = sample_path"
    using start_parse_validator [OF d(1)] d(2) sample_path_folder by auto
  have "cli_step sample_api sample_options (Running d sample_disk) (handle_termination sample_api sample_options d sample_disk)"
    by (rule cli_step.signal)
  moreover have "handle_termination sample_api sample_options d sample_disk = Exited 0 sample_left"
    using handle_termination_validator [OF d(2) s(1), of sample_options sample_disk] d(3) s(2)
    by (simp add: validator_shut_down_def sample_left_def sample_api_def sample_vp_def)
  ultimately show ?thesis using that [OF d(1)] r_into_rtranclp [of "cli_step sample_api sample_options"] by metis
qed

section \<open>Witnesses\<close>

theorem start_runs_its_options_witness:
  "\<exists>d :: memory_service api_data. ad_state d = Started \<and> ad_keep_state d \<and> ad_rest_rps d = 10 \<and>
     (\<exists>lp. Option.bind (ad_tracing d) get_tracing_guard = Some [file_layer 1 lp, stdout_layer False 1])"
proof -
  obtain d where d: "start_parse sample_api False 100 True sample_options sample_disk = Running d sample_disk"
    using sample_first by blast
  show ?thesis using start_runs_its_options [OF d] by auto
qed

text \<open>The second process runs the node on the cache file of the first one.\<close>

theorem next_process_resumes_witness:
  "\<exists>(d :: memory_service api_data) v m. start_parse sample_api False 100 True sample_options sample_left = Running d sample_left \<and>
     the_validator (ap_ids sample_api) (ad_validator d) = Some (1, v) \<and> va_node v = sample_kept_node (Some sample_cache_bytes) \<and>
     consensus_run sample_cp 100 True m = (Inr (), va_node v)"
proof -
  obtain d0 where d0: "start_parse sample_api False 100 True sample_options sample_disk = Running d0 sample_disk"
    "(cli_step sample_api sample_options)\<^sup>*\<^sup>* (Running d0 sample_disk) (Exited 0 sample_left)" by (rule sample_first)
  obtain d v where d: "start_parse sample_api False 100 True sample_options sample_left = Running d sample_left"
    "the_validator (ap_ids sample_api) (ad_validator d) = Some (1, v)" "va_node v = sample_kept_node (Some sample_cache_bytes)"
    using sample_start_parse [OF sample_left_simps] by blast
  have "vp_consensus (ap_validator sample_api (so_network sample_options)) = sample_cp"
    by (simp add: sample_api_def sample_vp_def)
  then show ?thesis using next_process_resumes [OF d0 d(1)] d by fastforce
qed

text \<open>A pattern library that keeps what is documented: it goes through the paths that exist in order.\<close>

definition sample_match :: "path \<Rightarrow> path \<Rightarrow> bool" where
  "sample_match pattern p \<longleftrightarrow> p \<noteq> [] \<and> butlast p = butlast pattern \<and>
     (if last pattern \<noteq> [] \<and> last (last pattern) = CHR ''*'' then starts_with (butlast (last pattern)) (last p)
      else last p = last pattern)"

definition sample_clean :: clean_params where
  "sample_clean = \<lparr>cl_files = sample_files,
     cl_glob = (\<lambda>ex pattern. Some (map Some (filter (sample_match pattern) (sorted_list_of_set {p. ex p})))),
     cl_remove_ok = (\<lambda>_. True)\<rparr>"

definition sample_clean_options :: clean_options where
  "sample_clean_options = clean_default (ap_ids sample_api)"

lemma sample_match_plain:
  assumes "plain (base @ [f])"
  shows "sample_match (base @ [f]) p \<longleftrightarrow> p = base @ [f]"
    "sample_match (base @ [f @ ''*'']) p \<longleftrightarrow> (\<exists>x. p = base @ [f @ x])"
proof -
  have "f = [] \<or> last f \<noteq> CHR ''*''" using assms by (cases f rule: rev_cases) (auto simp: plain_def)
  then show "sample_match (base @ [f]) p \<longleftrightarrow> p = base @ [f]"
    by (cases p rule: rev_cases) (auto simp: sample_match_def)
  have "starts_with f s \<longleftrightarrow> (\<exists>x. s = f @ x)" for s
    using starts_with_append starts_with_self by blast
  then show "sample_match (base @ [f @ ''*'']) p \<longleftrightarrow> (\<exists>x. p = base @ [f @ x])"
    by (cases p rule: rev_cases) (auto simp: sample_match_def butlast_append)
qed

lemma sample_glob_documented: "glob_documented sample_clean"
  unfolding glob_documented_def
proof (intro allI impI conjI; elim conjE)
  fix ex :: "path \<Rightarrow> bool" and base f assume fin: "finite {p. ex p}" and pl: "plain (base @ [f])"
  show "\<exists>es. cl_glob sample_clean ex (base @ [f]) = Some es \<and> set es = Some ` {p. p = base @ [f] \<and> ex p}"
    using fin by (auto simp: sample_clean_def sample_match_plain(1) [OF pl])
  show "\<exists>es. cl_glob sample_clean ex (base @ [f @ ''*'']) = Some es \<and> set es = Some ` {p. \<exists>x. p = base @ [f @ x] \<and> ex p}"
    using fin by (auto simp: sample_clean_def sample_match_plain(2) [OF pl])
qed

lemma sample_clean_base: "clean_base sample_clean sample_clean_options = [''src'']"
  by (simp add: clean_base_def storage_base_def sample_clean_def sample_clean_options_def clean_default_def sample_files_def)

lemma sample_left_disk:
  "dom (dk_folders sample_left) = {sample_path}" "dom (dk_caches sample_left) \<subseteq> {[''src'', cache_file_name 1 True ''0'']}"
  by (auto simp: sample_left_def write_back_def write_folder_def sample_disk_def sample_path_cache)

lemma sample_left_target:
  assumes "clean_target sample_clean sample_clean_options p"
  shows "dk_caches sample_left p = None \<and> (\<forall>c. ledger_cache p c \<longrightarrow> dk_folders sample_left c = None)"
proof -
  obtain k tag where p: "p = custom_ledger_dir 1 k tag [''src'']"
    using assms by (auto simp: clean_target_def sample_clean_base) (auto simp: sample_clean_options_def clean_default_def)
  have "p \<noteq> [''src'', cache_file_name 1 True ''0'']"
    by (auto simp: p custom_ledger_dir_def ledger_dir_name_def cache_file_name_def LEDGER_STD_DIR_def LEDGER_TMP_DIR_def)
  moreover have "c \<noteq> sample_path" if "ledger_cache p c" for c
    using that by (auto simp: ledger_cache_def p proposal_cache_path_def amareleo_storage_mode_def custom_ledger_dir_def
        file_name_def ledger_dir_name_def LEDGER_STD_DIR_def LEDGER_TMP_DIR_def LEDGER_DIR_TAG_def PROPOSAL_CACHE_TAG_def
        sample_path_def split: if_splits)
  ultimately show ?thesis using sample_left_disk by (auto simp: domIff)
qed

lemma sample_clean_hyps:
  "plain (clean_base sample_clean sample_clean_options)" "\<forall>p. cl_remove_ok sample_clean p"
  "finite (dom (dk_folders sample_left))" "finite (dom (dk_caches sample_left))"
  using finite_subset [OF sample_left_disk(2)]
  by (simp_all add: sample_clean_base plain_def sample_left_disk(1)) (simp add: sample_clean_def)


theorem clean_after_start_witness:
  "\<exists>msg D2. clean_parse sample_clean sample_clean_options sample_left = (Inr msg, D2) \<and>
     dk_folders D2 sample_path = None \<and> cache_file D2 sample_path = None"
proof -
  obtain d where d: "start_parse sample_api False 100 True sample_options sample_disk = Running d sample_disk"
    "(cli_step sample_api sample_options)\<^sup>*\<^sup>* (Running d sample_disk) (Exited 0 sample_left)" by (rule sample_first)
  have same: "cl_files sample_clean = ap_files sample_api" "co_network sample_clean_options = so_network sample_options"
    "co_path sample_clean_options = so_storage sample_options"
    by (simp_all add: sample_clean_def sample_api_def sample_clean_options_def clean_default_def)
      (simp add: sample_genesis_def)
  have path: "va_storage_path v = sample_path"
    if "the_validator (ap_ids sample_api) (ad_validator d) = Some (so_network sample_options, v)" for v
    using start_parse_validator [OF d(1)] sample_path_folder that by auto
  have target: "\<forall>p. clean_target sample_clean sample_clean_options p \<longrightarrow>
      dk_caches sample_left p = None \<and> (\<forall>c. ledger_cache p c \<longrightarrow> dk_folders sample_left c = None)"
    using sample_left_target by blast
  show ?thesis
    using clean_after_start [OF d same sample_glob_documented sample_clean_hyps(1,2) target sample_clean_hyps(3,4)] path
    by metis
qed

end
