(* ===== verification/RestProps.thy ===== *)
theory RestProps
  imports RestServer NodeProps
begin

text \<open>
  Properties of the REST server: what a request can do to the node, the bounds of a block query, the
  protected routes and the life of a token, the routes themselves, repeated broadcasts and the
  shutdown.
\<close>

section \<open>Requests and the node\<close>

lemma transaction_broadcast_step:
  "\<exists>b'. snd (rest_transaction_broadcast R tx (WithConsensus b)) = WithConsensus b' \<and>
     (b' = b \<or> handler_step (rp_consensus R) b b')"
proof -
  obtain x b' where a: "add_unconfirmed_transaction (rp_consensus R) tx b = (x, b')" by fastforce
  show ?thesis using handler_step.transaction [OF a] by (auto simp: rest_transaction_broadcast_def a split: sum.split)
qed

lemma solution_broadcast_step:
  "\<exists>b'. snd (rest_solution_broadcast R x (WithConsensus b)) = WithConsensus b' \<and> handler_step (rp_consensus R) b b'"
proof -
  obtain y b' where a: "add_unconfirmed_solution (rp_consensus R) x b = (y, b')" by fastforce
  show ?thesis using handler_step.solution [OF a] by (auto simp: rest_solution_broadcast_def a split: sum.split)
qed

lemma post_response_step:
  "\<exists>b'. snd (post_response R A body (WithConsensus b) e) = WithConsensus b' \<and>
     (b' = b \<or> handler_step (rp_consensus R) b b')"
  using transaction_broadcast_step [of R _ b] solution_broadcast_step [of R _ b]
  by (auto simp: post_response_def split_beta Let_def split: sum.split)


section \<open>Block queries\<close>

lemma rest_collect_blocks_ok:
  "rest_collect_blocks l hs = Inr bs \<longleftrightarrow> map (sl_get_block l) hs = map Some bs"
  by (induction hs arbitrary: bs) (auto simp: rbind_Inr_iff)

text \<open>\<open>get_blocks\<close> answers with blocks exactly for a range of at most 50 heights, each of which the ledger holds;
  the answer lists the blocks of the range in order, the end excluded.\<close>

theorem rest_blocks_exact:
  "rest_get_blocks l lo hi = Inr j \<longleftrightarrow>
     lo \<le> hi \<and> hi - lo \<le> 50 \<and> (\<exists>bs. j = JList (map JBlock bs) \<and> length bs = hi - lo \<and>
       (\<forall>i < hi - lo. sl_get_block l (lo + i) = Some (bs ! i)))"
proof -
  have "map (sl_get_block l) [lo..<hi] = map Some bs \<longleftrightarrow>
      length bs = hi - lo \<and> (\<forall>i < hi - lo. sl_get_block l (lo + i) = Some (bs ! i))" for bs
    by (auto simp: list_eq_iff_nth_eq)
  then show ?thesis
    by (auto simp: rest_get_blocks_def rbind_Inr_iff rest_collect_blocks_ok MAX_BLOCK_RANGE_def not_less)
qed

section \<open>Tokens\<close>

text \<open>What the token library documents: it reads back what it wrote with the same secret, and may refuse
  it once it has expired.\<close>

definition jwt_law :: "jwt \<Rightarrow> bool" where
  "jwt_law J \<longleftrightarrow> (\<forall>c t now. jw_encode J (jw_secret J) c = Some t \<longrightarrow>
     (now < ck_exp c \<longrightarrow> jw_decode J now (jw_secret J) t = Some c) \<and>
     (\<forall>d. jw_decode J now (jw_secret J) t = Some d \<longrightarrow> d = c))"

text \<open>C23: the protected routes, and no others, are behind the token: without a token that decodes to claims that
  have not expired, a request to a protected route is answered with 401 and its handler is not reached, and the
  answer on any other route does not depend on the token.\<close>

theorem protected_routes_need_token:
  assumes "route p = Some e" "limited = None" "ht_path rq = network # p" "ht_method rq \<noteq> OPTIONS"
  shows "if protected_route e
    then (\<exists>t c. ht_bearer rq = Some t \<and> jw_decode J now (jw_secret J) t = Some c \<and> now < ck_exp c) \<or>
      (rsp_status (fst (serve R A J network now limited rq be)) = 401 \<and> snd (serve R A J network now limited rq be) = be)
    else serve R A J network now limited (rq\<lparr>ht_bearer := t'\<rparr>) be = serve R A J network now limited rq be"
  using assms
  by (auto simp: serve_def auth_middleware_def is_expired_def status_response_def not_le split: option.split http_method.split)

text \<open>A token is good for exactly ten years: the token made at time \<open>issued\<close> opens the protected routes until
  \<open>EXPIRATION\<close> seconds later, and from then on it does not.\<close>

theorem token_life_time:
  assumes "jwt_law J" "to_jwt_string J (claims_new issued address) = Some t" "0 \<le> issued" "issued < 2 ^ 62"
  shows "auth_middleware J now (Some t) = Inr () \<longleftrightarrow> now < issued + 10 * 365 * 24 * 60 * 60"
proof -
  have e: "ck_exp (claims_new issued address) = issued + 10 * 365 * 24 * 60 * 60"
    using assms(3,4) by (simp add: claims_new_def i64_saturating_add_def EXPIRATION_def)
  show ?thesis
  proof (cases "now < issued + 10 * 365 * 24 * 60 * 60")
    case True
    then have "jw_decode J now (jw_secret J) t = Some (claims_new issued address)"
      using assms(1,2) e by (simp add: jwt_law_def to_jwt_string_def)
    then show ?thesis using True e by (simp add: auth_middleware_def is_expired_def)
  next
    case False
    moreover have "d = claims_new issued address" if "jw_decode J now (jw_secret J) t = Some d" for d
      using assms(1,2) that by (auto simp: jwt_law_def to_jwt_string_def)
    ultimately show ?thesis
      using e by (auto simp: auth_middleware_def is_expired_def split: option.split)
  qed
qed

section \<open>Routes\<close>

fun endpoint_path :: "endpoint \<Rightarrow> string list" where
  "endpoint_path GetNodeAddress = [''node'', ''address'']"
| "endpoint_path (GetMappingValues p n) = [''program'', p, ''mapping'', n]"
| "endpoint_path GetBlockHeightLatest = [''block'', ''height'', ''latest'']"
| "endpoint_path GetBlockHashLatest = [''block'', ''hash'', ''latest'']"
| "endpoint_path GetBlockLatest = [''block'', ''latest'']"
| "endpoint_path (GetBlock x) = [''block'', x]"
| "endpoint_path (GetBlockHeader x) = [''block'', x, ''header'']"
| "endpoint_path (GetBlockTransactions x) = [''block'', x, ''transactions'']"
| "endpoint_path (GetTransaction x) = [''transaction'', x]"
| "endpoint_path (GetConfirmedTransaction x) = [''transaction'', ''confirmed'', x]"
| "endpoint_path (GetUnconfirmedTransaction x) = [''transaction'', ''unconfirmed'', x]"
| "endpoint_path TransactionBroadcast = [''transaction'', ''broadcast'']"
| "endpoint_path SolutionBroadcast = [''solution'', ''broadcast'']"
| "endpoint_path (FindBlockHash x) = [''find'', ''blockHash'', x]"
| "endpoint_path (FindBlockHeight x) = [''find'', ''blockHeight'', x]"
| "endpoint_path (FindDeployment x) = [''find'', ''transactionID'', ''deployment'', x]"
| "endpoint_path (FindTransaction x) = [''find'', ''transactionID'', x]"
| "endpoint_path (FindTransition x) = [''find'', ''transitionID'', x]"
| "endpoint_path GetPeersCount = [''peers'', ''count'']"
| "endpoint_path GetPeersAll = [''peers'', ''all'']"
| "endpoint_path GetPeersAllMetrics = [''peers'', ''all'', ''metrics'']"
| "endpoint_path (GetProgram x) = [''program'', x]"
| "endpoint_path (GetMappingNames x) = [''program'', x, ''mappings'']"
| "endpoint_path (GetMappingValue p n k) = [''program'', p, ''mapping'', n, k]"
| "endpoint_path GetBlocks = [''blocks'']"
| "endpoint_path (GetHeight x) = [''height'', x]"
| "endpoint_path GetMemoryPoolTransmissions = [''memoryPool'', ''transmissions'']"
| "endpoint_path GetMemoryPoolSolutions = [''memoryPool'', ''solutions'']"
| "endpoint_path GetMemoryPoolTransactions = [''memoryPool'', ''transactions'']"
| "endpoint_path (GetStatePath x) = [''statePath'', x]"
| "endpoint_path GetStateRootLatest = [''stateRoot'', ''latest'']"
| "endpoint_path (GetStateRoot x) = [''stateRoot'', x]"
| "endpoint_path GetCommitteeLatest = [''committee'', ''latest'']"
| "endpoint_path (GetCommittee x) = [''committee'', x]"
| "endpoint_path (GetDelegators x) = [''delegators'', x]"

text \<open>A parameter that a literal segment would take away.\<close>

fun shadowed :: "endpoint \<Rightarrow> bool" where
  "shadowed (GetBlock x) = (x = ''latest'')"
| "shadowed (GetTransaction x) = (x = ''broadcast'')"
| "shadowed (GetStateRoot x) = (x = ''latest'')"
| "shadowed (GetCommittee x) = (x = ''latest'')"
| "shadowed _ = False"

lemma route2_sound: "route2 a b = Some e \<Longrightarrow> endpoint_path e = [a, b] \<and> \<not> shadowed e"
  unfolding route2_def by (simp split: if_split_asm; clarsimp)

lemma route3_sound: "route3 a b c = Some e \<Longrightarrow> endpoint_path e = [a, b, c] \<and> \<not> shadowed e"
  unfolding route3_def by (simp split: if_split_asm; clarsimp)

lemma route4_sound: "route4 a b c d = Some e \<Longrightarrow> endpoint_path e = [a, b, c, d] \<and> \<not> shadowed e"
  unfolding route4_def by (simp split: if_split_asm; clarsimp)

lemma route_complete: "[] \<notin> set (endpoint_path e) \<Longrightarrow> \<not> shadowed e \<Longrightarrow> route (endpoint_path e) = Some e"
  by (cases e) (auto simp: route2_def route3_def route4_def)

text \<open>The routes: a path leads to an endpoint exactly if it is the path of that endpoint, with no segment empty
  and no parameter that a literal route takes (a block called latest, a transaction called broadcast). So no
  endpoint is out of reach and no two share a path.\<close>

theorem routes_exact:
  "route p = Some e \<longleftrightarrow> p = endpoint_path e \<and> [] \<notin> set p \<and> \<not> shadowed e"
proof
  assume r: "route p = Some e"
  have "p = endpoint_path e \<and> \<not> shadowed e"
    using r by (cases p rule: route.cases) (auto dest: route2_sound route3_sound route4_sound split: if_splits)
  moreover have "[] \<notin> set p"
    using r by (cases p rule: route.cases) (auto simp: route2_def route3_def route4_def split: if_splits)
  ultimately show "p = endpoint_path e \<and> [] \<notin> set p \<and> \<not> shadowed e" by simp
qed (auto simp: route_complete)

section \<open>Repeated broadcasts\<close>

lemma lru_put_again:
  assumes "0 < cap"
  shows "lru_put cap k v (lru_put cap k v c) = lru_put cap k v c"
proof -
  obtain n where n: "cap = Suc n" using assms by (cases cap) auto
  have "AList.delete k (take n (AList.delete k c)) = take n (AList.delete k c)"
  proof (rule delete_id)
    have "k \<notin> set (map fst (AList.delete k c))" by (simp add: delete_keys)
    then show "k \<notin> fst ` set (take n (AList.delete k c))" by (metis in_set_takeD list.set_map take_map)
  qed
  then show ?thesis by (simp add: lru_put_def n)
qed

lemma imap_contains_lru_put: "0 < cap \<Longrightarrow> imap_contains_key k (lru_put cap k v c)"
  by (cases cap) (simp_all add: lru_put_def imap_contains_key_def)

text \<open>The queues are emptied without touching the IDs already seen.\<close>

lemma inbound_send: "bft_inbound (send_unconfirmed_transaction P b x) = bft_inbound b"
  by (auto simp: send_unconfirmed_transaction_def process_unconfirmed_transaction_def process_on_worker_def
      set_workers_def Let_def split: option.splits sum.splits prod.splits)

lemma inbound_foldl: "bft_inbound (foldl (send_unconfirmed_transaction P) b xs) = bft_inbound b"
  by (induction xs arbitrary: b) (simp_all add: inbound_send)

lemma seen_process:
  "in_seen_transactions (bft_inbound (process_unconfirmed_transactions C b)) = in_seen_transactions (bft_inbound b)"
  by (auto simp: process_unconfirmed_transactions_def inbound_foldl Let_def split: prod.split)

text \<open>Broadcasting a transaction again does nothing: once a transaction has been accepted, repeating the request
  is answered the same way and leaves the node exactly as it is, however full the queues are.\<close>

theorem rebroadcast_changes_nothing:
  assumes "rest_transaction_broadcast R tx (WithConsensus b) = (Inr j, be1)"
  shows "rest_transaction_broadcast R tx be1 = (Inr j, be1)"
proof -
  obtain b1 where a: "add_unconfirmed_transaction (rp_consensus R) tx b = (Inr (), b1)" and fits: "rp_fits R tx"
    and be1: "be1 = WithConsensus b1" and j: "j = JField (tx_id tx)"
    using assms by (auto simp: rest_transaction_broadcast_def split: if_splits sum.splits prod.splits)
  have seen: "\<exists>c. in_seen_transactions (bft_inbound b1) = lru_put CAPACITY_FOR_SEEN (tx_id tx) () c"
    using a by (auto simp: add_unconfirmed_transaction_def Let_def seen_process
        split: option.splits if_splits sum.splits bool.splits)
  then have "b1\<lparr>bft_inbound := (bft_inbound b1)\<lparr>in_seen_transactions :=
      lru_put CAPACITY_FOR_SEEN (tx_id tx) () (in_seen_transactions (bft_inbound b1))\<rparr>\<rparr> = b1"
    by (auto simp: lru_put_again CAPACITY_FOR_SEEN_def)
  moreover have "imap_contains_key (tx_id tx) (in_seen_transactions (bft_inbound b1))"
    using seen imap_contains_lru_put [of CAPACITY_FOR_SEEN] by (metis CAPACITY_FOR_SEEN_def zero_less_numeral)
  ultimately have "add_unconfirmed_transaction (rp_consensus R) tx b1 = (Inr (), b1)"
    using a by (auto simp: add_unconfirmed_transaction_def Let_def split: option.splits if_splits)
  then show ?thesis by (simp add: rest_transaction_broadcast_def fits be1 j)
qed

section \<open>Shutdown of the server\<close>

definition server_wf :: "rest_server \<Rightarrow> bool" where
  "server_wf sv \<longleftrightarrow> (sv_handle sv = Some Finished \<longleftrightarrow> sv_complete sv = Some True) \<and>
     sv_handle sv \<noteq> None \<and> sv_complete sv \<noteq> None \<and> (sv_trigger sv \<or> sv_signalled sv)"

lemma server_step_wf: "server_step sv sv' \<Longrightarrow> server_wf sv \<Longrightarrow> server_wf sv'"
  by (auto simp: server_wf_def elim!: server_stepE)


section \<open>A concrete server\<close>

definition sample_queries :: rest_queries where
  "sample_queries =
     \<lparr>rq_latest_hash = (\<lambda>_. 0), rq_latest_state_root = (\<lambda>_. 0), rq_block_by_hash = (\<lambda>_ _. None),
      rq_height_of_hash = (\<lambda>_ _. None), rq_header = (\<lambda>_ _. None), rq_transactions = (\<lambda>_ _. None),
      rq_transaction = (\<lambda>_ _. None), rq_confirmed_transaction = (\<lambda>_ _. None), rq_program = (\<lambda>_ _. None),
      rq_mapping_names = (\<lambda>_ _. None), rq_mapping_value = (\<lambda>_ _ _ _. None), rq_mapping = (\<lambda>_ _ _. None),
      rq_state_path = (\<lambda>_ _. None), rq_state_root = (\<lambda>_ _. None), rq_committee = (\<lambda>_ _. None),
      rq_delegators = (\<lambda>_ _. None), rq_block_hash_of_transaction = (\<lambda>_ _. None), rq_height_of_state_root = (\<lambda>_ _. None),
      rq_deployment_of_program = (\<lambda>_ _. None), rq_transaction_of_transition = (\<lambda>_ _. None), rq_transition_of = (\<lambda>_ _. None),
      rq_epoch_hash = (\<lambda>_. None), rq_proof_target = (\<lambda>_. 0), rq_check_solution = (\<lambda>_ _ _ _. True)\<rparr>"

definition sample_rest :: "memory_service rest_params" where
  "sample_rest = \<lparr>rp_consensus = sample_cp, rp_queries = sample_queries, rp_fits = (\<lambda>_. True)\<rparr>"

definition sample_parsers :: rest_parsers where
  "sample_parsers =
     \<lparr>pa_transaction_id = (\<lambda>_. None), pa_transition_id = (\<lambda>_. None), pa_block_hash = (\<lambda>_. None), pa_state_root = (\<lambda>_. None),
      pa_field = (\<lambda>_. None), pa_program_id = (\<lambda>_. None), pa_identifier = (\<lambda>_. None), pa_plaintext = (\<lambda>_. None),
      pa_address = (\<lambda>_. None), pa_range = (\<lambda>_. None), pa_metadata = (\<lambda>_. None),
      pa_transaction = (\<lambda>_. Inr (sample_transaction 5)), pa_solution = (\<lambda>_. Inl 400)\<rparr>"

definition sample_jwt :: jwt where
  "sample_jwt =
     \<lparr>jw_secret = [], jw_encode = (\<lambda>_ c. if c = claims_new 0 ''a'' then Some ''t'' else None),
      jw_decode = (\<lambda>_ _ t. if t = ''t'' then Some (claims_new 0 ''a'') else None)\<rparr>"

definition sample_broadcast :: request where
  "sample_broadcast =
     \<lparr>ht_method = POST, ht_path = [''testnet'', ''transaction'', ''broadcast''], ht_query = [], ht_bearer = None, ht_body = []\<rparr>"

definition sample_lookup :: request where
  "sample_lookup =
     \<lparr>ht_method = GET, ht_path = [''testnet'', ''node'', ''address''], ht_query = [], ht_bearer = None, ht_body = []\<rparr>"

text \<open>The broadcast is answered with the ID of the transaction, which is then seen.\<close>

definition sample_seen :: "memory_service bft" where
  "sample_seen = sample_started\<lparr>bft_inbound := inbound_new\<lparr>in_seen_transactions := [(5, ())]\<rparr>\<rparr>"

lemma sample_broadcast_seen:
  "rest_transaction_broadcast sample_rest (sample_transaction 5) (WithConsensus sample_seen) =
     (Inr (JField 5), WithConsensus sample_seen)"
  by (simp add: rest_transaction_broadcast_def sample_rest_def add_unconfirmed_transaction_def sample_cp_def sample_pp_def
      sample_env_def sample_crypto_def sample_transaction_def sample_seen_def sample_started_def sample_fresh_def bft_new_def
      imap_contains_key_def lru_put_def CAPACITY_FOR_SEEN_def Let_def)

theorem rebroadcast_changes_nothing_witness:
  "rest_transaction_broadcast sample_rest (sample_transaction 5) (WithConsensus sample_seen) =
     (Inr (JField 5), WithConsensus sample_seen)"
  by (rule rebroadcast_changes_nothing [OF sample_broadcast_seen])


theorem rest_blocks_exact_witness:
  "rest_get_blocks sample_ledger 0 1 = Inr (JList [JBlock (sample_block 0)])"
  by (subst rest_blocks_exact) (auto simp: sample_ledger_def intro!: exI [of _ "[sample_block 0]"])

theorem protected_routes_need_token_witness:
  "rsp_status (fst (serve sample_rest sample_parsers sample_jwt ''testnet'' 0 None sample_lookup (WithConsensus sample_started))) = 401"
  using protected_routes_need_token [of "[''node'', ''address'']" GetNodeAddress None sample_lookup "''testnet''" sample_jwt 0
      sample_rest sample_parsers "WithConsensus sample_started"]
  by (simp add: route2_def sample_lookup_def protected_route_def)

theorem token_life_time_witness:
  "auth_middleware sample_jwt 5 (Some ''t'') = Inr () \<and> auth_middleware sample_jwt 400000000 (Some ''t'') \<noteq> Inr ()"
proof -
  have law: "jwt_law sample_jwt" by (simp add: jwt_law_def sample_jwt_def)
  have t: "to_jwt_string sample_jwt (claims_new 0 ''a'') = Some ''t''" by (simp add: to_jwt_string_def sample_jwt_def)
  show ?thesis
    using token_life_time [OF law t, of 5] token_life_time [OF law t, of 400000000] by simp
qed


end
