(* ===== verification/Liveness.thy ===== *)
theory Liveness
  imports NodeProps
begin

text \<open>
  Progress of the rounds. A proposal that goes through leaves a certificate of each of the four
  development accounts in its round; a round that the node has certified is left by the next
  iteration of the batch proposer exactly if its certificates reach the quorum, once the leader
  timer has expired; and a round in which the node's own certificate was stored but the others were
  not is never left, whatever handlers run.
\<close>

section \<open>The next iteration of the batch proposer\<close>

text \<open>What a call that finds no quorum leaves as it was: only the elected leader may be cached.\<close>

definition same_progress :: "'ts bft \<Rightarrow> 'ts bft \<Rightarrow> bool" where
  "same_progress b b' \<longleftrightarrow> bft_storage b' = bft_storage b \<and> bft_dag b' = bft_dag b \<and>
     cl_ledger (bft_ledger b') = cl_ledger (bft_ledger b) \<and> bft_address b' = bft_address b \<and>
     pm_bft_sender (bft_primary b') = pm_bft_sender (bft_primary b)"

lemma same_progress_refl [simp]: "same_progress b b"
  by (simp add: same_progress_def)

lemma same_progress_trans: "same_progress b1 b2 \<Longrightarrow> same_progress b2 b3 \<Longrightarrow> same_progress b1 b3"
  by (simp add: same_progress_def)

lemma elect_leader_progress:
  "elect_leader r b = (a, b') \<Longrightarrow> same_progress b b' \<and> bft_leader_certificate_timer b' = bft_leader_certificate_timer b"
  by (auto simp: elect_leader_def same_progress_def update_latest_leader_def split: option.splits if_splits)

text \<open>The certificates of the current round reach the quorum of its committee.\<close>

definition round_has_quorum :: "network \<Rightarrow> 'ts bft \<Rightarrow> nat \<Rightarrow> bool" where
  "round_has_quorum N b r \<longleftrightarrow> (\<exists>com. get_committee_lookback_for_round N (bft_ledger b) r = Inr com \<and>
     com_quorum_reached com (cert_author ` set (get_certificates_for_round (bft_storage b) r)))"

lemma round_has_quorum_cong: "same_progress b b' \<Longrightarrow> round_has_quorum N b' r = round_has_quorum N b r"
  by (simp add: round_has_quorum_def same_progress_def get_committee_lookback_for_round_def get_committee_for_round_def)

lemma update_to_next_round_no_quorum:
  assumes "st_current_round (bft_storage b) = r" "\<not> round_has_quorum N b r"
    and "update_to_next_round N now r b = (x, b')"
  shows "\<not> x \<and> same_progress b b'"
proof -
  obtain a b1 where e: "elect_leader r b = (a, b1)" by fastforce
  have "same_progress b (b1\<lparr>bft_leader_certificate := lc\<rparr>)" for lc
    using elect_leader_progress [OF e] by (simp add: same_progress_def)
  moreover have "same_progress b (b\<lparr>bft_leader_certificate := lc\<rparr>)" for lc
    by (simp add: same_progress_def)
  moreover have "\<not> com_quorum_reached com (cert_author ` set (get_certificates_for_round (bft_storage b) r))"
    if "get_committee_lookback_for_round N (bft_ledger b) r = Inr com" for com
    using assms(2) that by (auto simp: round_has_quorum_def)
  ultimately show ?thesis
    using assms(1,3) e
    by (auto simp: update_to_next_round_def update_leader_certificate_to_even_round_def Let_def
        is_even_round_ready_for_next_round_def is_leader_quorum_or_nonleaders_available_def
        split: if_splits sum.splits)
qed

lemma update_to_next_round_quorum:
  assumes r: "st_current_round (bft_storage b) = r" "0 < r" and q: "round_has_quorum N b r"
    and t: "is_timer_expired now b" and ne: "get_certificates_for_round (bft_storage b) r \<noteq> []"
    and c: "current_committee (bft_ledger b) = Inr com" "com_starting_round com \<le> Suc r"
    and g: "st_gc_round (bft_storage b) \<le> Suc r" "Suc r < 2 ^ 64"
  shows "\<exists>b'. update_to_next_round N now r b = (True, b') \<and> st_current_round (bft_storage b') = Suc r"
proof -
  obtain com' where com': "get_committee_lookback_for_round N (bft_ledger b) r = Inr com'"
    "com_quorum_reached com' (cert_author ` set (get_certificates_for_round (bft_storage b) r))"
    using q by (auto simp: round_has_quorum_def)
  obtain a b1 where e: "elect_leader r b = (a, b1)" by fastforce
  note p = elect_leader_progress [OF e]
  have inc: "increment_to_next_round (bft_ledger b2) r (bft_storage b) =
      (Inr (Suc r), (bft_storage b)\<lparr>st_current_round := Suc r\<rparr>)" if "cl_ledger (bft_ledger b2) = cl_ledger (bft_ledger b)" for b2 :: "'a bft"
    using increment_started [of "bft_ledger b2" com r "bft_storage b"] c g r that by (simp add: current_committee_def)
  show ?thesis
  proof (cases "r mod 2 = 0")
    case True
    then have "2 \<le> r" using r(2) by presburger
    then show ?thesis
      using True r com' e p t ne inc [of b1]
      by (auto simp: update_to_next_round_def update_leader_certificate_to_even_round_def Let_def same_progress_def
          is_even_round_ready_for_next_round_def is_timer_expired_def)
  next
    case False
    then show ?thesis
      using r com' t inc [of b]
      by (auto simp: update_to_next_round_def is_leader_quorum_or_nonleaders_available_def Let_def
          compute_stake_for_leader_certificate_def split: option.split prod.split)
  qed
qed

text \<open>The node has certified its batch for the current round and may propose again.\<close>

definition certified_round :: "'ts primary_params \<Rightarrow> int \<Rightarrow> 'ts bft \<Rightarrow> nat \<Rightarrow> bool" where
  "certified_round P now b r \<longleftrightarrow>
     pm_is_block_synced (bft_primary b) \<and> pm_bft_sender (bft_primary b) = Open \<and>
     st_current_round (bft_storage b) = r \<and> 0 < r \<and> pm_propose_lock (bft_primary b) \<le> r \<and>
     is_ok (check_proposal_timestamp b (r - 1) (bft_address b) now) \<and>
     contains_certificate_in_round_from (bft_storage b) r (bft_address b)"

lemma batch_proposer_certified:
  assumes "certified_round P now b r" "is_ok (dev_accounts P [0..<4])"
  shows "batch_proposer_tick P now False b = snd (update_to_next_round (pp_network P) now r b)"
proof -
  obtain ready b' where u: "update_to_next_round (pp_network P) now r b = (ready, b')" by fastforce
  have lite: "propose_batch_lite P now others True b = (Inr 0, b')" for others
    using assms(1) u
    by (auto simp: propose_batch_lite_def certified_round_def send_primary_round_to_bft_def Let_def)
  show ?thesis
    using assms u lite
    by (auto simp: batch_proposer_tick_def certified_round_def propose_batch_def is_ok_def split: sum.splits)
qed

lemma certificate_of_author:
  assumes wf: "storage_wf s" and own: "contains_certificate_in_round_from s r a"
  shows "\<exists>c \<in> set (get_certificates_for_round s r). cert_author c = a"
proof -
  obtain es i where "map_of (st_rounds s) r = Some es" "(i, a) \<in> set es"
    using own by (auto simp: contains_certificate_in_round_from_def list_ex_iff split: option.splits)
  then show ?thesis
    using storage_wf_round_entries [OF wf] get_certificates_for_round_wf [OF wf, of r] by fastforce
qed

lemma contains_from_certificate:
  assumes wf: "storage_wf s"
  shows "contains_certificate_in_round_from s r a \<longleftrightarrow> (\<exists>i c. certs s i = Some c \<and> cert_round c = r \<and> cert_author c = a)"
proof (cases "map_of (st_rounds s) r")
  case None
  then show ?thesis
    using storage_wf_no_round [OF wf None] by (auto simp: contains_certificate_in_round_from_def)
next
  case (Some es)
  have "list_ex (\<lambda>(_, b). b = a) es \<longleftrightarrow> (\<exists>i. (i, a) \<in> set es)" by (auto simp: list_ex_iff)
  then show ?thesis
    using storage_wf_round_entries [OF wf Some]
    by (simp add: contains_certificate_in_round_from_def Some)
qed

text \<open>C17: a round that the node has certified is left exactly with a quorum: once the leader timer has expired, an
  iteration of the batch proposer moves on to the next round if the certificates of the round reach the quorum of
  its committee, and otherwise stays.\<close>

theorem certified_round_left_iff_quorum:
  assumes "certified_round P now b r" "is_ok (dev_accounts P [0..<4])" "storage_wf (bft_storage b)"
    and "current_committee (bft_ledger b) = Inr com" "com_starting_round com \<le> r"
    and "st_gc_round (bft_storage b) \<le> r" "r < 2 ^ 64 - 1" "is_timer_expired now b"
  shows "st_current_round (bft_storage (batch_proposer_tick P now False b)) =
    (if round_has_quorum (pp_network P) b r then Suc r else r)"
proof (cases "round_has_quorum (pp_network P) b r")
  case True
  have "get_certificates_for_round (bft_storage b) r \<noteq> []"
    using certificate_of_author [OF assms(3), of r "bft_address b"] assms(1) by (auto simp: certified_round_def)
  then obtain b' where "update_to_next_round (pp_network P) now r b = (True, b')"
    "st_current_round (bft_storage b') = Suc r"
    using update_to_next_round_quorum [of b r, OF _ _ True assms(8) _ assms(4)] assms(1,5-7)
    by (auto simp: certified_round_def)
  then show ?thesis using True batch_proposer_certified [OF assms(1,2)] by simp
next
  case False
  obtain x b' where u: "update_to_next_round (pp_network P) now r b = (x, b')" by fastforce
  have "same_progress b b'"
    using update_to_next_round_no_quorum [OF _ False u] assms(1) by (simp add: certified_round_def)
  then show ?thesis
    using False assms(1) u batch_proposer_certified [OF assms(1,2)] by (simp add: same_progress_def certified_round_def)
qed

section \<open>A round that is certified without a quorum\<close>

definition half_certified :: "'ts consensus_params \<Rightarrow> nat \<Rightarrow> 'ts bft \<Rightarrow> bool" where
  "half_certified C r b \<longleftrightarrow>
     pm_bft_sender (bft_primary b) = Open \<and> st_current_round (bft_storage b) = r \<and> 0 < r \<and>
     contains_certificate_in_round_from (bft_storage b) r (bft_address b) \<and>
     \<not> round_has_quorum (cn_network C) b r \<and>
     get_certificate_authors_for_round (bft_storage b) (u64_saturating_add r 1) = {}"

lemma half_certified_cong: "same_progress b b' \<Longrightarrow> half_certified C r b \<Longrightarrow> half_certified C r b'"
  using round_has_quorum_cong [of b b'] by (auto simp: half_certified_def same_progress_def)

lemma same_progress_workers: "same_progress b (snd (process_on_worker P t op b))"
  by (auto simp: process_on_worker_def set_workers_def same_progress_def Let_def split: sum.splits prod.splits)

lemma same_progress_send:
  "same_progress b (send_unconfirmed_solution P b x)" "same_progress b (send_unconfirmed_transaction P b y)"
  using same_progress_workers
  by (auto simp: send_unconfirmed_solution_def send_unconfirmed_transaction_def process_unconfirmed_solution_def
      process_unconfirmed_transaction_def split: option.split)

lemma same_progress_foldl: "(\<And>b x. same_progress b (f b x)) \<Longrightarrow> same_progress b (foldl f b xs)"
proof (induction xs arbitrary: b)
  case (Cons x xs)
  then show ?case using same_progress_trans [of b "f b x"] by simp
qed simp

lemma same_progress_inbound: "same_progress (b\<lparr>bft_inbound := q\<rparr>) b' \<Longrightarrow> same_progress b b'"
  by (simp add: same_progress_def)

lemma same_progress_process:
  "same_progress b (process_unconfirmed_solutions C b)" "same_progress b (process_unconfirmed_transactions C b)"
  by (auto simp: process_unconfirmed_solutions_def process_unconfirmed_transactions_def Let_def
      intro!: same_progress_inbound [OF same_progress_foldl] same_progress_send split: prod.split)

lemma same_progress_solution: "add_unconfirmed_solution C x b = (r, b') \<Longrightarrow> same_progress b b'"
  using same_progress_process(1) [THEN same_progress_inbound]
  by (auto simp: add_unconfirmed_solution_def same_progress_def Let_def split: option.splits if_splits sum.splits bool.splits)

lemma same_progress_transaction: "add_unconfirmed_transaction C x b = (r, b') \<Longrightarrow> same_progress b b'"
  using same_progress_process(2) [THEN same_progress_inbound]
  by (auto simp: add_unconfirmed_transaction_def same_progress_def Let_def split: option.splits if_splits sum.splits bool.splits)

lemma same_progress_mempool: "same_progress b (mempool_tick C b)"
  unfolding mempool_tick_def by (rule same_progress_trans [OF same_progress_process(2) same_progress_process(1)])

lemma half_certified_lite:
  assumes "half_certified C r b" "propose_batch_lite (node_params C) now others cm b = (x, b')"
  shows "same_progress b b' \<and> x = Inr 0"
proof -
  obtain ready b1 where u: "update_to_next_round (pp_network (node_params C)) now r b = (ready, b1)" by fastforce
  have "same_progress b b1"
    using update_to_next_round_no_quorum [OF _ _ u] assms(1) by (simp add: half_certified_def)
  then show ?thesis
    using assms u
    by (auto simp: propose_batch_lite_def half_certified_def send_primary_round_to_bft_def Let_def split: if_splits)
qed

lemma half_certified_propose:
  assumes "half_certified C r b"
  shows "same_progress b (batch_proposer_tick (node_params C) now locked b)"
proof -
  have "same_progress b (snd (propose_batch (node_params C) now True b))"
  proof (cases "dev_accounts (node_params C) [0..<4]")
    case (Inr accounts)
    obtain x b' where l: "propose_batch_lite (node_params C) now (drop 1 accounts) True b = (x, b')" by fastforce
    then show ?thesis
      using half_certified_lite [OF assms l] by (simp add: propose_batch_def Inr)
  qed (simp add: propose_batch_def)
  then show ?thesis by (simp add: batch_proposer_tick_def)
qed

lemma half_certified_step:
  assumes "handler_step C b b'" "half_certified C r b"
  shows "same_progress b b'"
  using assms(1)
proof (cases rule: handler_step.cases)
  case (propose now locked)
  then show ?thesis using half_certified_propose [OF assms(2)] by simp
next
  case (increment now)
  then show ?thesis using assms(2) by (simp add: round_increment_tick_def half_certified_def Let_def)
qed (auto intro: same_progress_mempool same_progress_solution same_progress_transaction)

text \<open>C18: a round that is certified by the node alone is never left: if storage holds the node's own certificate
  for the current round while the round lacks a quorum and the next round is empty, as after a shutdown between the
  node's own proposal and those of the other accounts, then no sequence of handler steps changes storage, the DAG
  or the blocks of the ledger. The node does not propose for the other accounts again.\<close>

theorem half_certified_round_stalls:
  assumes "half_certified C r b" "(handler_step C)\<^sup>*\<^sup>* b b'"
  shows "bft_storage b' = bft_storage b \<and> st_current_round (bft_storage b') = r \<and>
    bft_dag b' = bft_dag b \<and> cl_ledger (bft_ledger b') = cl_ledger (bft_ledger b)"
proof -
  have "same_progress b b' \<and> half_certified C r b'"
    using assms(2)
  proof (induction rule: rtranclp_induct)
    case (step b1 b2)
    then show ?case
      using half_certified_step same_progress_trans half_certified_cong by blast
  qed (simp add: assms(1))
  then show ?thesis by (auto simp: same_progress_def half_certified_def)
qed

section \<open>A proposal fills its round\<close>

text \<open>What snarkVM documents of headers and certificates: they carry what they are made from.\<close>

definition headers_faithful :: "'ts primary_params \<Rightarrow> bool" where
  "headers_faithful P \<longleftrightarrow>
     (\<forall>a r now i ts prev h. pp_header_new P a r now i ts prev = Some h \<longrightarrow> bh_author h = a \<and> bh_round h = r) \<and>
     (\<forall>h sgs c. pp_certificate_from P h sgs = Some c \<longrightarrow> cert_header c = h)"

text \<open>A certificate of the author in the round, unless the round has been collected since.\<close>

definition certified_by :: "'ts bft \<Rightarrow> nat \<Rightarrow> address \<Rightarrow> bool" where
  "certified_by b r a \<longleftrightarrow> r \<le> st_gc_round (bft_storage b) \<or>
     contains_certificate_in_round_from (bft_storage b) r a"

lemma certified_by_evolves:
  assumes "certified_by b r a" "storage_inv (bft_storage b)" "node_evolves E b b'"
  shows "certified_by b' r a"
proof -
  have steps: "(storage_step E)\<^sup>*\<^sup>* (bft_storage b) (bft_storage b')" using assms(3) by (simp add: node_evolves_def)
  have inv: "storage_inv (bft_storage b')" by (rule reachable_storage_inv [OF steps assms(2)])
  have gc: "st_gc_round (bft_storage b) \<le> st_gc_round (bft_storage b')"
    using steps
  proof (induction rule: rtranclp_induct)
    case (step s1 s2)
    then show ?case
      using storage_step_monotone [OF step.hyps(2) reachable_storage_inv [OF step.hyps(1) assms(2)]] by simp
  qed simp
  show ?thesis
  proof (cases "r \<le> st_gc_round (bft_storage b)")
    case False
    then obtain i c where "certs (bft_storage b) i = Some c" "cert_round c = r" "cert_author c = a"
      using assms(1,2) contains_from_certificate [of "bft_storage b" r a] by (auto simp: certified_by_def storage_inv_def)
    then show ?thesis
      using storage_steps_certs [OF steps assms(2), of i c] inv contains_from_certificate [of "bft_storage b'" r a]
      by (auto simp: certified_by_def storage_inv_def)
  qed (use gc in \<open>simp add: certified_by_def\<close>)
qed

lemma insert_certifies:
  assumes "insert_certificate E L now (bft_storage b) c ts [] = Inr s" "storage_inv (bft_storage b)"
    "bft_storage b' = s"
  shows "certified_by b' (cert_round c) (cert_author c)" "storage_inv (bft_storage b')"
proof -
  have I: "storage_inv s" "certs s (cert_id c) = Some c"
    using insert_certificate_inv [OF assms(1)] assms(2) by (auto simp: storage_inv_def)
  then show "storage_inv (bft_storage b')" by (simp add: assms(3))
  show "certified_by b' (cert_round c) (cert_author c)"
    using I contains_from_certificate [of s "cert_round c" "cert_author c"]
    by (auto simp: certified_by_def storage_inv_def assms(3))
qed

lemma forge_signatures_header:
  "forge_signatures K com own i others our p = Inr (p', o') \<Longrightarrow> pr_batch_header p' = pr_batch_header p"
  by (induction others arbitrary: our p)
    (auto simp: rbind_Inr_iff add_signature_def split: option.splits sum.splits if_splits)

lemma new_proposal_header:
  assumes "headers_faithful P" "new_proposal P a r now com ts prev = Inr (h, p)"
  shows "bh_author h = a" "bh_round h = r" "pr_batch_header p = h"
  using assms
  by (auto simp: new_proposal_def rbind_Inr_iff proposal_new_def headers_faithful_def ok_or_def
      split: option.splits sum.splits if_splits)

lemma to_certificate_header:
  "headers_faithful P \<Longrightarrow> to_certificate K (pp_certificate_from P) com p = Inr (c, ts) \<Longrightarrow>
   cert_header c = pr_batch_header p"
  by (auto simp: to_certificate_def headers_faithful_def split: if_splits option.splits)

lemma lite_certifies:
  assumes "propose_batch_lite P now others True b = (Inr r, b')" "r \<noteq> 0"
    and hf: "headers_faithful P" and inv: "storage_inv (bft_storage b)"
  shows "certified_by b' r (bft_address b)" "storage_inv (bft_storage b')"
proof -
  obtain com prev ts ws where
    pt: "propose_transmissions P now others True (st_current_round (bft_storage b)) com prev ts (set_workers ws b) = (Inr r, b')"
    using assms(1,2) by (auto simp: propose_batch_lite_def Let_def split: if_splits sum.splits prod.splits bool.splits)
  let ?r = "st_current_round (bft_storage b)"
  obtain h p b1 where n: "new_proposal P (bft_address b) ?r now com ts prev = Inr (h, p)"
    and cb: "complete_batch_lite P now others h p com b1 = (Inr (), b')" and r: "r = ?r"
    and b1: "bft_storage b1 = bft_storage b"
    using pt by (auto simp: propose_transmissions_def set_workers_def Let_def split: sum.splits prod.splits)
  obtain p' sg where f: "forge_signatures (pp_crypto P) com (bft_address b1) (bh_batch_id h) others None p = Inr (p', sg)"
    and st: "store_and_broadcast_certificate_lite P now p' com b1 = (Inr (), b')"
    using cb by (auto simp: complete_batch_lite_def split: sum.splits prod.splits)
  obtain c cts s b2 where c: "to_certificate (pp_crypto P) (pp_certificate_from P) com p' = Inr (c, cts)"
    and ins: "insert_certificate (pp_env P) (bft_ledger b1) now (bft_storage b1) c cts [] = Inr s"
    and send: "send_certificate P c (b1\<lparr>bft_storage := s\<rparr>) = (Inr (), b2)"
    and inc: "try_increment_to_the_next_round_lite P now (u64_add (cert_round c) 1) b2 = (Inr (), b')"
    using st by (auto simp: store_and_broadcast_certificate_lite_def split: sum.splits prod.splits)
  have hc: "cert_header c = h"
    using to_certificate_header [OF hf c] forge_signatures_header [OF f] new_proposal_header(3) [OF hf n] by simp
  have ev: "node_evolves (pp_env P) (b1\<lparr>bft_storage := s\<rparr>) b'"
    by (rule evolves.R_trans [OF evolves.R_send_certificate [OF send] evolves.R_try_increment_lite [OF inc]])
      (simp add: insert_certificate_stored [OF ins])
  note I = insert_certifies [OF ins, of "b1\<lparr>bft_storage := s\<rparr>"]
  show "certified_by b' r (bft_address b)"
    using certified_by_evolves [OF _ _ ev] I inv b1 hc new_proposal_header(1,2) [OF hf n] r by simp
  show "storage_inv (bft_storage b')"
    using ev I(2) inv b1 reachable_storage_inv by (auto simp: node_evolves_def)
qed

lemma fake_certifies:
  assumes "fake_proposal P now author others r b = (Inr (), b')"
    and hf: "headers_faithful P" and inv: "storage_inv (bft_storage b)"
  shows "certified_by b' r author" "storage_inv (bft_storage b')"
proof -
  obtain com h p p' sg c cts s where
    n: "new_proposal P author r now com [] (get_certificates_for_round (bft_storage b) (r - 1)) = Inr (h, p)"
    and f: "forge_signatures (pp_crypto P) com (bft_address b) (bh_batch_id h) others None p = Inr (p', Some sg)"
    and c: "to_certificate (pp_crypto P) (pp_certificate_from P) com p' = Inr (c, cts)"
    and ins: "insert_certificate (pp_env P) (bft_ledger b) now (bft_storage b) c cts [] = Inr s"
    and b': "b' = b\<lparr>bft_storage := s\<rparr> \<or> (\<exists>b1. bft_storage b1 = s \<and> send_certificate P c b1 = (Inr (), b'))"
    using assms(1)
    by (auto simp: fake_proposal_def Let_def split: sum.splits prod.splits option.splits) force
  have hc: "cert_header c = h"
    using to_certificate_header [OF hf c] forge_signatures_header [OF f] new_proposal_header(3) [OF hf n] by simp
  obtain b1 where b1: "bft_storage b1 = s" "node_evolves (pp_env P) b1 b'"
    using b' evolves.R_send_certificate evolves.R_refl insert_certificate_stored [OF ins]
    by (metis bft.select_convs(2) bft.surjective bft.update_convs(2))
  note I = insert_certifies [OF ins inv b1(1)]
  show "certified_by b' r author"
    using certified_by_evolves [OF _ _ b1(2)] I hc new_proposal_header(1,2) [OF hf n] by simp
  show "storage_inv (bft_storage b')"
    using b1(2) I(2) reachable_storage_inv by (auto simp: node_evolves_def)
qed

lemma fakes_certify:
  "fake_proposals P now accounts r vids b = (Inr (), b') \<Longrightarrow> headers_faithful P \<Longrightarrow> storage_inv (bft_storage b) \<Longrightarrow>
   storage_inv (bft_storage b') \<and> (\<forall>v \<in> set vids. certified_by b' r (accounts ! v)) \<and>
   (\<forall>a. certified_by b r a \<longrightarrow> certified_by b' r a)"
proof (induction vids arbitrary: b)
  case (Cons v vids)
  obtain b1 where f: "fake_proposal P now (accounts ! v) (filter (\<lambda>a. a \<noteq> accounts ! v) accounts) r b = (Inr (), b1)"
    and rest: "fake_proposals P now accounts r vids b1 = (Inr (), b')"
    using Cons.prems(1) by (auto split: sum.splits prod.splits)
  note F = fake_certifies [OF f Cons.prems(2,3)]
  have "certified_by b r a \<Longrightarrow> certified_by b1 r a" for a
    by (rule certified_by_evolves [OF _ Cons.prems(3) evolves.R_fake_proposal [OF f]])
  then show ?case using Cons.IH [OF rest Cons.prems(2) F(2)] F(1) by auto
qed simp

lemma dev_accounts_length: "dev_accounts P is = Inr accounts \<Longrightarrow> length accounts = length is"
  by (induction "is" arbitrary: accounts) (auto simp: rbind_Inr_iff)

text \<open>C15: a proposal fills its round: when the call succeeds, storage holds a certificate of each of the
  four development accounts for the proposed round, unless the round has been collected since.\<close>

theorem proposal_fills_round:
  assumes "headers_faithful P" "storage_inv (bft_storage b)"
    and "dev_accounts P [0..<4] = Inr accounts" "accounts ! 0 = bft_address b"
    and "propose_batch_lite P now (drop 1 accounts) True b = (Inr r, b1)" "r \<noteq> 0"
    and "propose_batch P now True b = (Inr (), b')"
  shows "storage_inv (bft_storage b') \<and> (\<forall>a \<in> set accounts. certified_by b' r a)"
proof -
  have fakes: "fake_proposals P now accounts r [1..<4] b1 = (Inr (), b')"
    using assms(3,5-7) by (simp add: propose_batch_def)
  note L = lite_certifies [OF assms(5,6,1,2)]
  note F = fakes_certify [OF fakes assms(1) L(2)]
  have len: "length accounts = 4" using dev_accounts_length [OF assms(3)] by simp
  have "certified_by b' r (accounts ! v)" if "v < 4" for v
    using F L(1) assms(4) that by (cases "v = 0") auto
  then show ?thesis using F len by (auto simp: in_set_conv_nth)
qed

text \<open>C16: the round of a successful proposal is left: if the node is still in it, the next iteration of the
  batch proposer after the leader timer has expired moves to the next round. The four development
  accounts have to make a quorum of the round's committee.\<close>

theorem proposed_round_is_left:
  assumes "headers_faithful P" "storage_inv (bft_storage b)"
    and "dev_accounts P [0..<4] = Inr accounts" "accounts ! 0 = bft_address b"
    and "propose_batch_lite P now (drop 1 accounts) True b = (Inr r, b1)" "r \<noteq> 0"
    and "propose_batch P now True b = (Inr (), b')"
    and still: "st_current_round (bft_storage b') = r" "pm_propose_lock (bft_primary b') \<le> r"
    and running: "pm_is_block_synced (bft_primary b')" "pm_bft_sender (bft_primary b') = Open"
    and times: "is_ok (check_proposal_timestamp b' (r - 1) (bft_address b') later)" "is_timer_expired later b'"
    and com: "get_committee_lookback_for_round (pp_network P) (bft_ledger b') r = Inr com"
      "\<forall>A. set accounts \<subseteq> A \<longrightarrow> com_quorum_reached com A"
    and start: "current_committee (bft_ledger b') = Inr com'" "com_starting_round com' \<le> r"
    and gc: "st_gc_round (bft_storage b') < r" "r < 2 ^ 64 - 1"
  shows "st_current_round (bft_storage (batch_proposer_tick P later False b')) = Suc r"
proof -
  note F = proposal_fills_round [OF assms(1-7)]
  then have wf: "storage_wf (bft_storage b')" by (simp add: storage_inv_def)
  have all: "contains_certificate_in_round_from (bft_storage b') r a" if "a \<in> set accounts" for a
    using F gc(1) that by (auto simp: certified_by_def)
  have own: "bft_address b' \<in> set accounts"
    using evolves.R_propose_batch [OF assms(7)] assms(4) dev_accounts_length [OF assms(3)]
    by (auto simp: node_evolves_def in_set_conv_nth intro!: exI [of _ 0])
  have "set accounts \<subseteq> cert_author ` set (get_certificates_for_round (bft_storage b') r)"
    using certificate_of_author [OF wf all] by fastforce
  then have q: "round_has_quorum (pp_network P) b' r"
    using com by (auto simp: round_has_quorum_def)
  have "certified_round P later b' r"
    using still running times(1) assms(6) all [OF own] by (simp add: certified_round_def)
  from certified_round_left_iff_quorum [OF this _ wf start _ gc(2) times(2)] show ?thesis
    using q assms(3) gc(1) by (simp add: is_ok_def)
qed

section \<open>A concrete run\<close>

text \<open>The concrete node of the samples proposes in round 1.\<close>

definition sample_certified :: "address \<Rightarrow> certificate" where
  "sample_certified a =
     \<lparr>cert_id = 10 + a, cert_header =
        \<lparr>bh_batch_id = 10 + a, bh_author = a, bh_round = 1, bh_timestamp = 100, bh_committee_id = 0,
         bh_transmission_ids = [], bh_previous_certificate_ids = [], bh_signature = a\<rparr>,
      cert_signatures = filter (\<lambda>x. x \<noteq> a) [1, 2, 3, 4]\<rparr>"

definition sample_half :: "memory_service bft" where
  "sample_half = sample_started\<lparr>
     bft_storage := insert_certificate_atomic sample_env sample_s0 (sample_certified 1) [] [],
     bft_dag := dag_insert (sample_certified 1) dag_new,
     bft_primary := (bft_primary sample_started)\<lparr>pm_propose_lock := 1, pm_latest_proposed_batch_timestamp := 100\<rparr>\<rparr>"

definition sample_next :: "address \<Rightarrow> memory_service bft \<Rightarrow> memory_service bft" where
  "sample_next a b = b\<lparr>
     bft_storage := insert_certificate_atomic sample_env (bft_storage b) (sample_certified a) [] [],
     bft_dag := dag_insert (sample_certified a) (bft_dag b),
     bft_primary := (bft_primary b)\<lparr>pm_signed_proposals := pm_signed_proposals (bft_primary b) @ [(a, 1, 10 + a, 1)]\<rparr>\<rparr>"

definition sample_full :: "memory_service bft" where
  "sample_full = sample_next 4 (sample_next 3 (sample_next 2 sample_half))"

lemmas node_eval = sample_half_def sample_full_def sample_next_def sample_certified_def sample_started_def sample_fresh_def bft_new_def primary_new_def
  sample_cp_def sample_pp_def sample_certificate_from_def insert_certificate_atomic_def iset_insert_def
  complete_batch_lite_def store_and_broadcast_certificate_lite_def to_certificate_def proposal_quorum_reached_def
  signers_def add_signature_def send_certificate_def send_primary_certificate_to_bft_def update_dag_def
  try_increment_to_the_next_round_lite_def advance_round_def send_primary_round_to_bft_def update_to_next_round_def
  is_leader_quorum_or_nonleaders_available_def fast_forward_fuel_def set_workers_def

lemma drain_empty [simp]: "drain_worker E L s n ts c \<lparr>wk_id = i, wk_ready = ready_new\<rparr> = (Drained, ts, c, \<lparr>wk_id = i, wk_ready = ready_new\<rparr>)"
  by (simp add: drain_worker.simps drain_eval ready_new_def)

lemma fast_forward_done [simp]: "\<not> r < t \<Longrightarrow> fast_forward fuel t r b = (Inr (), b)"
  by (cases fuel) auto

lemma sample_lite:
  "propose_batch_lite sample_pp 100 [2, 3, 4] True sample_started = (Inr 1, sample_half)"
  "propose_batch_lite (node_params sample_cp) 100 [2, 3, 4] True sample_started = (Inr 1, sample_half)"
  by (simp_all add: node_params_def propose_eval node_eval insert_eval sample_store_defs Let_def)

lemma sample_fakes:
  "fake_proposal sample_pp 100 2 [1, 3, 4] 1 sample_half = (Inr (), sample_next 2 sample_half)"
  "fake_proposal sample_pp 100 3 [1, 2, 4] 1 (sample_next 2 sample_half) = (Inr (), sample_next 3 (sample_next 2 sample_half))"
  "fake_proposal sample_pp 100 4 [1, 2, 3] 1 (sample_next 3 (sample_next 2 sample_half)) = (Inr (), sample_full)"
  by (simp_all add: fake_proposal_def cache_signature_def propose_eval node_eval insert_eval sample_store_defs Let_def)

lemma sample_accounts: "dev_accounts sample_pp [0..<4] = Inr [1, 2, 3, 4]" "dev_accounts (node_params sample_cp) [0..<4] = Inr [1, 2, 3, 4]"
  by (simp_all add: node_params_def sample_cp_def sample_pp_def upt_rec)

lemma sample_batch: "propose_batch sample_pp 100 True sample_started = (Inr (), sample_full)"
proof -
  have "[1..<4] = [1, 2, 3::nat]" "drop 1 [1, 2, 3, 4::nat] = [2, 3, 4]" "[1, 2, 3, 4::nat] ! 1 = 2" by (simp_all add: upt_rec)
  then show ?thesis
    using sample_fakes by (simp add: propose_batch_def sample_accounts sample_lite del: One_nat_def)
qed

text \<open>A shutdown after the node's own proposal leaves the round half certified.\<close>

lemma sample_aborted: "batch_proposer_aborted (node_params sample_cp) 100 0 sample_started = sample_half"
  using sample_lite(2) by (simp add: batch_proposer_aborted_def sample_accounts) (simp add: sample_started_def)

lemma sample_headers: "headers_faithful sample_pp"
  by (auto simp: headers_faithful_def sample_pp_def sample_header_new_def sample_certificate_from_def)

lemma sample_started_inv: "storage_inv (bft_storage sample_started)"
  by (simp add: sample_started_def sample_fresh_def bft_new_def sample_s0_def empty_storage_inv)

theorem proposal_fills_round_witness:
  "certified_by sample_full 1 1 \<and> certified_by sample_full 1 2 \<and> certified_by sample_full 1 3 \<and> certified_by sample_full 1 4"
proof -
  have "bft_address sample_started = 1" by (simp add: sample_started_def sample_fresh_def bft_new_def)
  then show ?thesis
    using proposal_fills_round [OF sample_headers sample_started_inv sample_accounts(1), of 100 1 sample_half sample_full]
      sample_batch sample_lite by simp
qed

lemmas tick_eval = check_proposal_timestamp_def get_certificate_for_round_with_author_def i64_checked_sub_def in_i64_def
  MIN_BATCH_DELAY_IN_SECS_def is_timer_expired_def MAX_LEADER_CERTIFICATE_DELAY_IN_SECS_def MAX_BATCH_DELAY_IN_MS_def
  get_committee_lookback_for_round_def get_committee_for_round_def current_committee_def i64_add_def i64_wrap_def
  contains_certificate_in_round_from_def get_certificates_for_round_def iset_collect_def
  get_certificate_authors_for_round_def u64_saturating_add_def List.map_filter_def

lemma sample_half_certified: "half_certified sample_cp 1 sample_half" "certified_round sample_pp 110 sample_half 1"
  by (auto simp: half_certified_def certified_round_def round_has_quorum_def tick_eval node_eval sample_store_defs)

theorem half_certified_round_stalls_witness:
  "batch_proposer_aborted (node_params sample_cp) 100 0 sample_started = sample_half \<and>
   st_current_round (bft_storage (batch_proposer_tick (node_params sample_cp) 1000 False sample_half)) = 1"
  using half_certified_round_stalls [OF sample_half_certified(1) r_into_rtranclp, OF handler_step.propose] sample_aborted
  by blast

theorem certified_round_left_iff_quorum_witness:
  "st_current_round (bft_storage (batch_proposer_tick sample_pp 110 False sample_half)) = 1 \<and>
   st_current_round (bft_storage (batch_proposer_tick sample_pp 110 False sample_full)) = 2"
proof -
  have full: "certified_round sample_pp 110 sample_full 1" "round_has_quorum (pp_network sample_pp) sample_full 1"
    and half: "\<not> round_has_quorum (pp_network sample_pp) sample_half 1"
    by (auto simp: certified_round_def round_has_quorum_def tick_eval node_eval sample_store_defs)
  have inv: "storage_wf (bft_storage sample_half)" "storage_wf (bft_storage sample_full)"
    using lite_certifies(2) [OF sample_lite(1) _ sample_headers sample_started_inv]
      proposal_fills_round [OF sample_headers sample_started_inv sample_accounts(1) _ _ _ sample_batch, of 1 sample_half]
      sample_lite(1) by (auto simp: storage_inv_def sample_started_def sample_fresh_def bft_new_def)
  have acc: "is_ok (dev_accounts sample_pp [0..<4])" by (simp only: sample_accounts is_ok_def) simp
  have com: "current_committee (bft_ledger b) = Inr sample_committee" if "b = sample_half \<or> b = sample_full" for b
    using that by (auto simp: tick_eval node_eval sample_store_defs)
  have rest: "st_gc_round (bft_storage b) \<le> 1" "is_timer_expired 110 b" if "b = sample_half \<or> b = sample_full" for b
    using that by (auto simp: tick_eval node_eval sample_store_defs)
  have start: "com_starting_round sample_committee \<le> 1" by (simp add: sample_committee_def)
  have "st_current_round (bft_storage (batch_proposer_tick sample_pp 110 False sample_half)) = 1"
    using certified_round_left_iff_quorum [OF sample_half_certified(2) acc inv(1) com start rest(1) _ rest(2)] half by simp
  moreover have "st_current_round (bft_storage (batch_proposer_tick sample_pp 110 False sample_full)) = 2"
    using certified_round_left_iff_quorum [OF full(1) acc inv(2) com start rest(1) _ rest(2)] full(2) by simp
  ultimately show ?thesis ..
qed

theorem proposed_round_is_left_witness:
  "st_current_round (bft_storage (batch_proposer_tick sample_pp 110 False sample_full)) = Suc 1"
proof (rule proposed_round_is_left [OF sample_headers sample_started_inv sample_accounts(1) _ _ _ sample_batch,
      where com = sample_committee and com' = sample_committee])
  show "propose_batch_lite sample_pp 100 (drop 1 [1, 2, 3, 4]) True sample_started = (Inr 1, sample_half)"
    using sample_lite(1) by simp
  show "\<forall>A. set [1, 2, 3, 4] \<subseteq> A \<longrightarrow> com_quorum_reached sample_committee A"
    by (simp add: sample_committee_def)
qed (simp_all add: tick_eval node_eval sample_store_defs)

end
