(* ===== verification/CommitLive.thy ===== *)
theory CommitLive
  imports BftProps
begin

text \<open>
  When a commit happens, the counterpart of the conditions that a commit needs. Once the
  certificates above a leader certificate reach the availability threshold, the leader
  certificate is committed with every earlier anchor that it links to, and only consensus can
  stop the commit. The lemmas go through the stages of \<open>update_dag\<close>: the links between anchors, the
  collection of the anchors, the sub-DAG of each anchor and the commit of its certificates.
\<close>

section \<open>Links and anchors\<close>

lemma is_linked_loop_total:
  "(\<And>r. r \<in> set rounds \<Longrightarrow> dag_get_certificates_for_round d r \<noteq> None) \<Longrightarrow> \<exists>t. is_linked_loop d rounds tr = Inr t"
  by (induction rounds arbitrary: tr) (auto split: option.splits)

lemma is_linked_total:
  assumes "\<And>r. cert_round p \<le> r \<Longrightarrow> r < cert_round c \<Longrightarrow> dag_get_certificates_for_round d r \<noteq> None"
  shows "\<exists>v. is_linked d p c = Inr v"
proof -
  have "\<exists>t. is_linked_loop d (rev [cert_round p..<cert_round c]) [c] = Inr t"
    by (rule is_linked_loop_total) (use assms in auto)
  then show ?thesis by (auto simp: is_linked_def)
qed

lemma collect_leaders_total:
  assumes "dag_wf (bft_dag b)" "\<forall>r\<in>set rounds. lo \<le> r"
    and "\<And>r. lo \<le> r \<Longrightarrow> r < cert_round cur \<Longrightarrow> dag_get_certificates_for_round (bft_dag b) r \<noteq> None"
    and "sorted_wrt (>) rounds" "\<forall>r\<in>set rounds. r < cert_round cur"
  shows "\<exists>ls b'. collect_leaders rounds cur acc b = (Inr (acc @ ls), b') \<and>
    (\<forall>c\<in>set ls. \<exists>r\<in>set rounds. \<exists>a. vertex (bft_dag b) r a = Some c)"
  using assms
proof (induction rounds arbitrary: cur acc b)
  case (Cons round rounds)
  obtain a b1 where el: "elect_leader round b = (a, b1)" by fastforce
  then have b1: "bft_dag b1 = bft_dag b" using elect_leader_pair by blast
  have wf: "dag_wf (bft_dag b1)" using Cons.prems(1) b1 by simp
  have lo: "lo \<le> round" "\<forall>r\<in>set rounds. lo \<le> r" using Cons.prems(2) by auto
  have rounds: "sorted_wrt (>) rounds" "\<forall>r\<in>set rounds. r < round" "\<forall>r\<in>set rounds. r < cert_round cur"
    "round < cert_round cur"
    using Cons.prems(4,5) by auto
  have full: "dag_get_certificates_for_round (bft_dag b1) r \<noteq> None" if "lo \<le> r" "r < cert_round cur" for r
    using Cons.prems(3) that b1 by simp
  have keep: ?case if "collect_leaders (round # rounds) cur acc b = collect_leaders rounds cur acc b1"
    using Cons.IH [OF wf lo(2) full rounds(1,3), of acc] that b1 by auto
  show ?case
  proof (cases "vertex (bft_dag b1) round a")
    case None
    then show ?thesis using keep el by simp
  next
    case (Some p)
    have p: "cert_round p = round" using vertex_round_author [OF wf Some] by simp
    have "\<exists>v. is_linked (bft_dag b1) p cur = Inr v" by (rule is_linked_total) (use full lo(1) p in auto)
    then obtain v where v: "is_linked (bft_dag b1) p cur = Inr v" by blast
    show ?thesis
    proof (cases v)
      case True
      have "dag_get_certificates_for_round (bft_dag b1) r \<noteq> None" if "lo \<le> r" "r < cert_round p" for r
        using full that p rounds(4) by auto
      from Cons.IH [where acc = "acc @ [p]" and cur = p, OF wf lo(2) this rounds(1)] rounds(2) p obtain ls b' where
        "collect_leaders rounds p (acc @ [p]) b1 = (Inr ((acc @ [p]) @ ls), b')"
        "\<forall>c\<in>set ls. \<exists>r\<in>set rounds. \<exists>a. vertex (bft_dag b1) r a = Some c" by auto
      then have "collect_leaders (round # rounds) cur acc b = (Inr (acc @ (p # ls)), b')"
        "\<forall>c\<in>set (p # ls). \<exists>r\<in>set (round # rounds). \<exists>a. vertex (bft_dag b) r a = Some c"
        using el Some v True b1 by auto
      then show ?thesis by blast
    next
      case False
      then show ?thesis using keep el Some v by simp
    qed
  qed
qed simp

section \<open>The commit of one anchor\<close>

definition same_certificates :: "'ts storage \<Rightarrow> 'ts storage \<Rightarrow> bool" where
  "same_certificates s s' \<longleftrightarrow> st_certificates s' = st_certificates s \<and> st_gc_round s' = st_gc_round s \<and>
     st_max_gc_rounds s' = st_max_gc_rounds s \<and> (storage_inv s \<longrightarrow> storage_inv s')"

lemma same_certificates_refl [simp]: "same_certificates s s"
  by (simp add: same_certificates_def)

lemma same_certificates_trans: "same_certificates s t \<Longrightarrow> same_certificates t u \<Longrightarrow> same_certificates s u"
  by (simp add: same_certificates_def)

lemma get_transmission_same: "get_transmission E s t = (x, s') \<Longrightarrow> same_certificates s s'"
proof -
  assume "get_transmission E s t = (x, s')"
  then have s': "\<exists>ts. s' = s\<lparr>st_transmissions := ts\<rparr>" by (auto simp: get_transmission_def split: prod.splits)
  have "storage_inv s \<Longrightarrow> storage_inv s'"
    by (rule storage_inv_cong [of s' s]) (use s' in \<open>auto simp: storage_inv_def dest: storage_wfD(10)\<close>)
  then show ?thesis using s' by (auto simp: same_certificates_def)
qed

lemma collect_transmissions_same:
  "collect_transmissions E L ts acc s = (r, s') \<Longrightarrow> same_certificates s s'"
proof (induction ts arbitrary: acc s)
  case (Cons t ts)
  obtain x s1 where g: "get_transmission E s t = (x, s1)" by fastforce
  note same = get_transmission_same [OF g]
  show ?case
    using Cons.prems g same Cons.IH same_certificates_trans [OF same]
    by (cases x) (auto split: if_splits)
qed simp

lemma trigger_consensus_frame:
  assumes "trigger_consensus P lr sd b = (r, b')"
  shows "bft_dag b' = bft_dag b \<and> same_certificates (bft_storage b) (bft_storage b')"
proof -
  obtain x s where c: "collect_transmissions (bp_env P) (bft_ledger b)
      (concat (map cert_transmission_ids (subdag_certificates sd))) co_empty (bft_storage b) = (x, s)" by fastforce
  have "bft_dag b' = bft_dag b \<and> bft_storage b' = s"
    using assms by (auto simp: trigger_consensus_def c Let_def split: sum.splits if_splits prod.splits consensus_reply.splits)
  then show ?thesis using collect_transmissions_same [OF c] by simp
qed

abbreviation commit_all :: "nat \<Rightarrow> certificate list \<Rightarrow> dag \<Rightarrow> dag" where
  "commit_all g \<equiv> fold (\<lambda>c d. dag_commit c g d)"

lemma commit_all_wf: "dag_wf d \<Longrightarrow> dag_wf (commit_all g cs d)"
  by (induction cs arbitrary: d) (simp_all add: dag_wf_commit)

lemma commit_all_last:
  "dag_last_committed_round (commit_all g cs d) =
     fold (\<lambda>c m. max m (cert_round c)) cs (dag_last_committed_round d)"
  by (induction cs arbitrary: d) simp_all

lemma commit_all_vertex:
  "dag_wf d \<Longrightarrow> vertex (commit_all g cs d) r a = Some c \<Longrightarrow> vertex d r a = Some c"
proof (induction cs arbitrary: d)
  case (Cons x cs)
  have "vertex (dag_commit x g d) r a = Some c"
    using Cons.IH [OF dag_wf_commit [OF Cons.prems(1)]] Cons.prems(2) by simp
  then show ?case using vertex_commit [OF Cons.prems(1), of x g r a] by (auto split: if_splits)
qed simp

lemma fold_max_eq:
  fixes f :: "'c \<Rightarrow> nat"
  assumes "\<forall>c\<in>set cs. f c \<le> n" "m \<le> n" "c \<in> set cs" "f c = n"
  shows "fold (\<lambda>c m. max m (f c)) cs m = n"
proof -
  have ge: "m \<le> fold (\<lambda>c m. max m (f c)) cs m \<and> (\<forall>c\<in>set cs. f c \<le> fold (\<lambda>c m. max m (f c)) cs m)" for cs and m :: nat
    by (induction cs arbitrary: m) (auto intro: order_trans [OF max.cobounded1] order_trans [OF max.cobounded2])
  have "fold (\<lambda>c m. max m (f c)) cs m \<le> n" using assms(1,2) by (induction cs arbitrary: m) auto
  then show ?thesis using ge [where cs = cs and m = m] assms(3,4) by fastforce
qed

section \<open>The commit of a chain of anchors\<close>

text \<open>
  What a commit relies on: the conditions of the ordering, for the state and not for one leader.
\<close>

definition search_ready :: "'ts bft \<Rightarrow> bool" where
  "search_ready b \<longleftrightarrow> bft_wf b \<and> ids_identify (known_certificates b) \<and>
     (\<forall>c \<in> known_certificates b. (cert_round c \<le> 1 \<longrightarrow> cert_previous_ids c = []) \<and>
        cert_round c + st_max_gc_rounds (bft_storage b) < 2 ^ 64) \<and>
     st_gc_round (bft_storage b) \<le> dag_last_committed_round (bft_dag b) - st_max_gc_rounds (bft_storage b)"

lemma search_ready_order:
  "order_ready b lc \<longleftrightarrow> search_ready b \<and> get_certificate (bft_storage b) (cert_id lc) = Some lc"
  by (auto simp: order_ready_def search_ready_def)

lemma stored_ran: "get_certificate s (cert_id c) = Some c \<Longrightarrow> c \<in> ran (certs s)"
  by (auto simp: get_certificate_def ran_def)

lemma commit_edge_stored:
  assumes rdy: "order_ready b lc" and c: "c \<in> ran (certs (bft_storage b))" and e: "commit_edge al b c p"
  shows "p \<in> ran (certs (bft_storage b)) \<and> cert_round p < cert_round c"
proof -
  obtain i where i: "i \<in> set (cert_previous_ids c)" "find_previous b (cert_round c - 1) i = Some p"
    and above: "\<not> u64_add (cert_round c - 1) (st_max_gc_rounds (bft_storage b)) \<le> dag_last_committed_round (bft_dag b)"
    using e by (auto simp: commit_edge_def)
  have p: "p \<in> ran (certs (bft_storage b))" using order_ready_closed [OF rdy c above i(1)] i(2) by auto
  have known: "c \<in> known_certificates b" using c by (simp add: known_certificates_def)
  have rc: "\<not> cert_round c \<le> 1" "cert_round c + st_max_gc_rounds (bft_storage b) < 2 ^ 64"
    using rdy known i(1) by (auto simp: order_ready_def)
  have "u64_add (cert_round c - 1) (st_max_gc_rounds (bft_storage b)) =
      cert_round c - 1 + st_max_gc_rounds (bft_storage b)"
    using rc by (intro u64_add_exact) simp
  then have "cert_round c - 1 > st_gc_round (bft_storage b)"
    using above rdy rc(1) unfolding order_ready_def by linarith
  moreover obtain j where "certs (bft_storage b) j = Some c" using c by (auto simp: ran_def)
  moreover have wf: "bft_wf b" using rdy by (simp add: order_ready_def)
  ultimately obtain d where d: "certs (bft_storage b) i = Some d" "cert_round d = cert_round c - 1"
    using bft_wfD(3) [OF wf] i(1) unfolding causally_closed_def by blast
  have "certs (bft_storage b) i = Some p"
    using p find_previous_id(1) [OF wf i(2)] storage_wfD(4) [OF bft_wfD(2) [OF wf]] by (auto simp: ran_def)
  then show ?thesis using p d rc(1) by simp
qed

lemma subdag_of_leader:
  assumes rdy: "order_ready b lc" and ok: "order_dag_with_dfs al b lc = Inr sd"
    and above: "dag_last_committed_round (bft_dag b) < cert_round lc"
  shows "lc \<in> set (subdag_certificates sd)" "\<forall>c\<in>set (subdag_certificates sd). cert_round c \<le> cert_round lc"
proof -
  have wf: "bft_wf b" using rdy by (simp add: order_ready_def)
  have lc: "lc \<in> ran (certs (bft_storage b))" using rdy by (simp add: order_ready_def stored_ran)
  then have known: "lc \<in> known_certificates b" by (simp add: known_certificates_def)
  then have ids: "ids_identify (insert lc (known_certificates b))" using rdy by (simp add: order_ready_def insert_absorb)
  have sd: "subdag_wf sd" "subdag_set sd = {c. (commit_edge al b)\<^sup>*\<^sup>* lc c \<and>
      dag_last_committed_round (bft_dag b) < u64_add (cert_round c) (st_max_gc_rounds (bft_storage b))}"
    using order_dag_exact [OF wf ids ok] by blast+
  have set: "set (subdag_certificates sd) = subdag_set sd"
    using map_of_eq_Some_iff [OF btree_wf_distinct, of sd] sd(1)
    by (force simp: subdag_certificates_def subdag_set_def subdag_wf_def)
  have "cert_round lc + st_max_gc_rounds (bft_storage b) < 2 ^ 64" using rdy known by (simp add: order_ready_def)
  then have "lc \<in> subdag_set sd" using above by (simp add: sd(2) u64_add_exact)
  then show "lc \<in> set (subdag_certificates sd)" by (simp add: set)
  have "c \<in> ran (certs (bft_storage b)) \<and> cert_round c \<le> cert_round lc" if "(commit_edge al b)\<^sup>*\<^sup>* lc c" for c
    using that by (induction rule: rtranclp_induct) (use lc commit_edge_stored [OF rdy] in fastforce)+
  then show "\<forall>c\<in>set (subdag_certificates sd). cert_round c \<le> cert_round lc" by (simp add: set sd(2))
qed

lemma search_ready_step:
  assumes "search_ready b" "dag_wf (bft_dag b')" "same_certificates (bft_storage b) (bft_storage b')"
    and "dag_last_committed_round (bft_dag b) \<le> dag_last_committed_round (bft_dag b')"
    and "\<And>r a c. vertex (bft_dag b') r a = Some c \<Longrightarrow> vertex (bft_dag b) r a = Some c"
  shows "search_ready b'"
proof -
  have "known_certificates b' \<subseteq> known_certificates b"
    using assms(3) by (auto simp: known_certificates_def same_certificates_def dest: assms(5))
  then have "ids_identify (known_certificates b')"
    "\<forall>c \<in> known_certificates b'. (cert_round c \<le> 1 \<longrightarrow> cert_previous_ids c = []) \<and>
       cert_round c + st_max_gc_rounds (bft_storage b) < 2 ^ 64"
    using assms(1) unfolding search_ready_def ids_identify_def by blast+
  then show ?thesis
    using assms(1-4) by (simp add: search_ready_def bft_wf_def same_certificates_def) linarith
qed

lemma commit_subdag_last:
  assumes rdy: "order_ready b lc" and ok: "order_dag_with_dfs al b lc = Inr sd"
    and above: "dag_last_committed_round (bft_dag b) < cert_round lc" and same: "bft_dag b1 = bft_dag b"
  shows "dag_last_committed_round (bft_dag (commit_subdag sd b1)) = cert_round lc"
  using subdag_of_leader [OF rdy ok above] above
  by (simp add: commit_subdag_def commit_all_last same fold_max_eq [of _ cert_round "cert_round lc" _ lc])

lemma commit_subdag_ready:
  assumes "search_ready b" "bft_dag b1 = bft_dag b" "same_certificates (bft_storage b) (bft_storage b1)"
    and "dag_last_committed_round (bft_dag b) \<le> dag_last_committed_round (bft_dag (commit_subdag sd b1))"
  shows "search_ready (commit_subdag sd b1)"
proof -
  have wf: "dag_wf (bft_dag b)" using assms(1) by (simp add: search_ready_def bft_wf_def)
  show ?thesis
    by (rule search_ready_step [OF assms(1) _ _ assms(4)])
      (use assms(2,3) wf commit_all_wf commit_all_vertex [OF wf] in \<open>auto simp: commit_subdag_def\<close>)
qed

definition consensus_stopped ::
  "'ts bft_params \<Rightarrow> bool \<Rightarrow> certificate set \<Rightarrow> (bft_error, bool) result \<Rightarrow> 'ts bft \<Rightarrow> bool" where
  "consensus_stopped P al A x b' \<longleftrightarrow> x \<noteq> Inr True \<and>
     (\<exists>lc\<in>A. \<exists>b sd. order_dag_with_dfs al b lc = Inr sd \<and> trigger_consensus P (cert_round lc) sd b = (x, b'))"

lemma consensus_stopped_mono: "consensus_stopped P al A x b \<Longrightarrow> A \<subseteq> B \<Longrightarrow> consensus_stopped P al B x b"
  unfolding consensus_stopped_def by blast

lemma commit_leaders_outcome:
  assumes "search_ready b" "\<forall>c\<in>set ls. get_certificate (bft_storage b) (cert_id c) = Some c"
    and "sorted_wrt (\<lambda>c d. cert_round c < cert_round d) ls"
    and "\<forall>c\<in>set ls. dag_last_committed_round (bft_dag b) < cert_round c"
    and "commit_leaders P al sy ls b = (r, b')"
  shows "r = Inr True \<and> dag_last_committed_round (bft_dag b') =
      (if ls = [] then dag_last_committed_round (bft_dag b) else cert_round (last ls)) \<or>
    \<not> sy \<and> consensus_stopped P al (set ls) r b'"
  using assms
proof (induction ls arbitrary: b)
  case (Cons lc ls)
  have rdy: "order_ready b lc" using Cons.prems(1,2) by (simp add: search_ready_order)
  obtain sd where sd: "order_dag_with_dfs al b lc = Inr sd" using order_dag_total [OF rdy] by blast
  obtain x b1 where t: "(if sy then (Inr True, b) else trigger_consensus P (cert_round lc) sd b) = (x, b1)" by fastforce
  have same: "bft_dag b1 = bft_dag b" "same_certificates (bft_storage b) (bft_storage b1)"
    using t trigger_consensus_frame [of P "cert_round lc" sd b x b1] by (auto split: if_splits)
  show ?case
  proof (cases "x = Inr True")
    case True
    let ?b = "commit_subdag sd b1"
    have above: "dag_last_committed_round (bft_dag b) < cert_round lc" using Cons.prems(4) by simp
    note last = commit_subdag_last [OF rdy sd above same(1)]
    have "search_ready ?b" using commit_subdag_ready [OF Cons.prems(1) same] last above by simp
    moreover have "\<forall>c\<in>set ls. get_certificate (bft_storage ?b) (cert_id c) = Some c"
      using Cons.prems(2) same(2) by (simp add: commit_subdag_def get_certificate_def same_certificates_def)
    moreover have "commit_leaders P al sy ls ?b = (r, b')" using Cons.prems(5) sd t True by simp
    ultimately have "r = Inr True \<and> dag_last_committed_round (bft_dag b') =
        (if ls = [] then dag_last_committed_round (bft_dag ?b) else cert_round (last ls)) \<or>
        \<not> sy \<and> consensus_stopped P al (set ls) r b'"
      using Cons.IH [of ?b] Cons.prems(3) last by simp
    then show ?thesis
      using last consensus_stopped_mono [of P al "set ls" r b' "set (lc # ls)"] by auto
  next
    case False
    then have "r = x" "b' = b1" using Cons.prems(5) sd t by (auto split: sum.splits bool.splits)
    then have "\<not> sy \<and> trigger_consensus P (cert_round lc) sd b = (r, b') \<and> r \<noteq> Inr True"
      using False t by (simp split: if_splits)
    then show ?thesis using sd unfolding consensus_stopped_def by (meson list.set_intros(1))
  qed
qed simp

text \<open>
  The state of the DAG for a commit of round \<open>r\<close>: the certificates that may be anchors are in storage, and
  no round between the last committed one and \<open>r\<close> is missing.
\<close>

definition commit_ready :: "'ts bft \<Rightarrow> nat \<Rightarrow> bool" where
  "commit_ready b r \<longleftrightarrow> search_ready b \<and>
     (\<forall>q a c. dag_last_committed_round (bft_dag b) < q \<longrightarrow> q \<le> r \<longrightarrow> vertex (bft_dag b) q a = Some c \<longrightarrow>
        get_certificate (bft_storage b) (cert_id c) = Some c) \<and>
     (\<forall>q. dag_last_committed_round (bft_dag b) + 2 \<le> q \<longrightarrow> q < r \<longrightarrow> dag_get_certificates_for_round (bft_dag b) q \<noteq> None)"

lemma commit_ready_cong:
  "bft_dag b' = bft_dag b \<Longrightarrow> bft_storage b' = bft_storage b \<Longrightarrow> commit_ready b' r = commit_ready b r"
  by (simp add: commit_ready_def search_ready_def bft_wf_def known_certificates_def)

lemma commit_leader_outcome:
  assumes rdy: "commit_ready b r" and v: "vertex (bft_dag b) r a = Some lc" and r: "r + 1 < 2 ^ 64"
    and above: "dag_last_committed_round (bft_dag b) < r"
    and res: "commit_leader_certificate P al sy lc b = (res, b')"
  shows "res = Inr () \<and> dag_last_committed_round (bft_dag b') = r \<or>
    \<not> sy \<and> (\<exists>x A. consensus_stopped P al A x b' \<and> res = map_sum id (\<lambda>_. ()) x)"
proof -
  let ?last = "dag_last_committed_round (bft_dag b)"
  let ?rs = "step_by2 (rev [u64_add ?last 2..<Suc (cert_round lc - 2)])"
  have sr: "search_ready b" and wf: "dag_wf (bft_dag b)"
    using rdy by (simp_all add: commit_ready_def search_ready_def bft_wf_def)
  have lc: "cert_round lc = r" using vertex_round_author [OF wf v] by simp
  have add: "u64_add ?last 2 = ?last + 2" using above r by (intro u64_add_exact) simp
  have rs: "?last + 2 \<le> q \<and> q \<le> r - 2" if "q \<in> set ?rs" for q
    using step_by2_rev_upt [OF that] add lc by simp
  have dec: "sorted_wrt (>) ?rs"
    by (intro sorted_wrt_step_by2) (simp add: sorted_wrt_rev del: upt_Suc)
  have below: "q < cert_round lc" if "q \<in> set ?rs" for q using rs [OF that] lc by linarith
  have full: "dag_get_certificates_for_round (bft_dag b) q \<noteq> None" if "?last + 2 \<le> q" "q < cert_round lc" for q
    using rdy that lc by (simp add: commit_ready_def)
  have lo: "\<forall>q\<in>set ?rs. ?last + 2 \<le> q" using rs by blast
  have hi: "\<forall>q\<in>set ?rs. q < cert_round lc" using below by blast
  obtain ls b1 where c: "collect_leaders ?rs lc [lc] b = (Inr ([lc] @ ls), b1)"
    and ls: "\<forall>c\<in>set ls. \<exists>q\<in>set ?rs. \<exists>a. vertex (bft_dag b) q a = Some c"
  proof -
    have "\<exists>ls b1. collect_leaders ?rs lc [lc] b = (Inr ([lc] @ ls), b1) \<and>
        (\<forall>c\<in>set ls. \<exists>q\<in>set ?rs. \<exists>a. vertex (bft_dag b) q a = Some c)"
      by (rule collect_leaders_total [OF wf lo full dec hi])
    then show ?thesis using that by (elim exE conjE)
  qed
  have ch: "bft_dag b1 = bft_dag b" "bft_storage b1 = bft_storage b" "anchor_chain (bft_dag b) (lc # ls)"
    using collect_leaders_chain [OF wf dec hi c] by (simp_all add: anchor_chain_def)
  have "\<exists>q a. ?last < q \<and> q \<le> r \<and> vertex (bft_dag b) q a = Some d" if "d \<in> set (lc # ls)" for d
  proof (cases "d = lc")
    case False
    then have "d \<in> set ls" using that by simp
    then obtain q a where q: "q \<in> set ?rs" "vertex (bft_dag b) q a = Some d" using ls by blast
    moreover have "?last < q \<and> q \<le> r" using rs [OF q(1)] by linarith
    ultimately show ?thesis by blast
  qed (use v above in blast)
  then have stored: "get_certificate (bft_storage b) (cert_id d) = Some d \<and> ?last < cert_round d" if "d \<in> set (lc # ls)" for d
    using rdy that vertex_round_author [OF wf] unfolding commit_ready_def by metis
  obtain x b2 where x: "commit_leaders P al sy (rev (lc # ls)) b1 = (x, b2)" by fastforce
  have "x = Inr True \<and> dag_last_committed_round (bft_dag b2) = r \<or> \<not> sy \<and> consensus_stopped P al (set (lc # ls)) x b2"
  proof -
    have "search_ready b1" using sr ch(1,2) by (simp add: search_ready_def bft_wf_def known_certificates_def)
    moreover have "sorted_wrt (\<lambda>c d. cert_round c < cert_round d) (rev (lc # ls))"
      using ch(3) unfolding anchor_chain_def sorted_wrt_rev by (rule sorted_wrt_mono_rel [rotated]) simp
    moreover have "\<forall>d\<in>set (rev (lc # ls)). get_certificate (bft_storage b1) (cert_id d) = Some d"
      "\<forall>d\<in>set (rev (lc # ls)). dag_last_committed_round (bft_dag b1) < cert_round d"
      unfolding set_rev ch(1,2) using stored by blast+
    ultimately show ?thesis
      using commit_leaders_outcome [OF _ _ _ _ x] lc by simp
  qed
  then show ?thesis
  proof
    assume ok: "x = Inr True \<and> dag_last_committed_round (bft_dag b2) = r"
    then show ?thesis using res x c by (auto simp: commit_leader_certificate_def)
  next
    assume stop: "\<not> sy \<and> consensus_stopped P al (set (lc # ls)) x b2"
    then have "x \<noteq> Inr True" by (simp add: consensus_stopped_def)
    then have "b' = b2 \<and> res = map_sum id (\<lambda>_. ()) x"
      using res x c by (cases x) (auto simp: commit_leader_certificate_def)
    then show ?thesis using stop by blast
  qed
qed

section \<open>Property\<close>

text \<open>An even round above the last committed one whose leader certificate is in the DAG is committed
  as soon as a certificate of the next round gives the leader the availability threshold. The last committed round is then the
  leader's round, and the call succeeds. The only other outcome, outside of syncing, is that consensus
  refuses the sub-DAG of one of the anchors, and the call ends in the state that consensus left.\<close>

theorem available_leader_is_committed:
  assumes "cert_round c = r + 1" "r + 1 < 2 ^ 64" "even r" "2 \<le> r" "dag_last_committed_round (bft_dag b) < r"
    and "b0 = b\<lparr>bft_dag := dag_insert c (bft_dag b)\<rparr>" "commit_ready b0 r"
    and "get_committee_lookback_for_round (env_network (bp_env P)) (bft_ledger b) (r + 1) = Inr com"
    and "dag_get_certificate_for_round_with_author (bft_dag b0) r (fst (elect_leader r b0)) = Some lc"
    and "dag_get_certificates_for_round (bft_dag b0) (r + 1) = Some m"
    and "com_availability_reached com
      (cert_author ` set (filter (\<lambda>x. cert_id lc \<in> set (cert_previous_ids x)) (map snd m)))"
    and "update_dag P al sy c b = (res, b')"
  shows "res = Inr () \<and> dag_last_committed_round (bft_dag b') = r \<or>
    \<not> sy \<and> (\<exists>x A. consensus_stopped P al A x b' \<and> res = map_sum id (\<lambda>_. ()) x)"
proof -
  obtain a b1 where el: "elect_leader r b0 = (a, b1)" by fastforce
  note fr = elect_leader_pair [OF el]
  have com: "get_committee_lookback_for_round (env_network (bp_env P)) (bft_ledger b0) r = Inr com"
    "get_committee_lookback_for_round (env_network (bp_env P)) (bft_ledger b1) (r + 1) = Inr com"
    using assms(3,6,8) fr committee_lookback_round_pair [of r "env_network (bp_env P)"]
    by (simp_all add: get_committee_lookback_for_round_def get_committee_for_round_def)
  have "commit_leader_certificate P al sy lc b1 = (res, b')"
    using assms(1,3,4,5,9-12) com el fr insert_frame(2) [of c "bft_dag b"]
    by (simp add: update_dag_def Let_def assms(6) flip: even_iff_mod_2_eq_zero)
  then show ?thesis
    using commit_leader_outcome [of b1 r a lc P al sy res b'] assms(2,5,6,7,9) fr el commit_ready_cong [of b1 b0 r] by simp
qed

definition sample_bft4 :: "memory_service bft" where
  "sample_bft4 = sample_bft\<lparr>bft_dag := dag_insert (sample_cert 3 1 [] [21]) (bft_dag sample_bft)\<rparr>"

abbreviation sample_bft5 :: "memory_service bft" where
  "sample_bft5 \<equiv> sample_bft4\<lparr>bft_dag := dag_insert (sample_cert 3 2 [] [21]) (bft_dag sample_bft4)\<rparr>"

lemma sample_graph4:
  "dag_graph (dag_insert (sample_cert 3 2 [] [21]) (bft_dag sample_bft4)) =
     [(1, [(1, sample_cert 1 1 [] []), (2, sample_cert 1 2 [] []), (3, sample_cert 1 3 [] [])]),
      (2, [(1, sample_c2)]), (3, [(1, sample_cert 3 1 [] [21]), (2, sample_cert 3 2 [] [21])])]"
  "dag_last_committed_round (bft_dag sample_bft4) = 0"
  by (simp_all add: sample_bft4_def sample_graph dag_insert_def is_recently_committed_def btree_or_default_def
      sample_cert_def sample_header_def)

lemma sample_bft4_fields [simp]:
  "bft_storage sample_bft4 = sample_s2" "bft_ledger sample_bft4 = sample_core" "bft_address sample_bft4 = 1"
  by (simp_all add: sample_bft4_def sample_bft_def bft_new_def)

lemma sample_commit_ready: "commit_ready sample_bft5 2"
proof -
  let ?A = "{sample_cert 1 1 [] [], sample_cert 1 2 [] [], sample_cert 1 3 [] [], sample_c2,
    sample_cert 3 1 [] [21], sample_cert 3 2 [] [21]}"
  have wf: "bft_wf sample_bft5"
    using sample_bft_wf by (simp add: bft_wf_def sample_bft4_def dag_wf_insert)
  have sub: "known_certificates sample_bft5 \<subseteq> ?A"
    by (auto simp: known_certificates_def vertex_iff sample_graph4 sample_certs ran_def split: if_splits)
  have "ids_identify ?A" by (simp add: ids_identify_def sample_c2_def sample_cert_def)
  then have ids: "ids_identify (known_certificates sample_bft5)"
    using sub unfolding ids_identify_def by blast
  have "\<forall>c\<in>?A. (cert_round c \<le> 1 \<longrightarrow> cert_previous_ids c = []) \<and> cert_round c + 1 < 2 ^ 64"
    by (simp add: sample_c2_def sample_cert_def sample_header_def)
  then have "\<forall>c\<in>known_certificates sample_bft5. (cert_round c \<le> 1 \<longrightarrow> cert_previous_ids c = []) \<and>
      cert_round c + 1 < 2 ^ 64"
    using sub by blast
  then have "search_ready sample_bft5"
    using wf ids by (simp add: search_ready_def sample_certs)
  moreover have "get_certificate sample_s2 (cert_id c) = Some c"
    if "q \<le> 2" "vertex (bft_dag sample_bft5) q a = Some c" for q a c
  proof -
    have "c \<in> {sample_cert 1 1 [] [], sample_cert 1 2 [] [], sample_cert 1 3 [] [], sample_c2}"
      using that by (auto simp: vertex_iff sample_graph4 split: if_splits)
    then show ?thesis by (auto simp: get_certificate_def sample_certs sample_c2_def sample_cert_def)
  qed
  ultimately show ?thesis by (simp add: commit_ready_def sample_graph4)
qed

theorem available_leader_is_committed_witness:
  "\<exists>b'. update_dag sample_params True True (sample_cert 3 2 [] [21]) sample_bft4 = (Inr (), b') \<and>
     dag_last_committed_round (bft_dag b') = 2"
proof -
  obtain res b' where u: "update_dag sample_params True True (sample_cert 3 2 [] [21]) sample_bft4 = (res, b')"
    by fastforce
  have lc: "vertex (bft_dag sample_bft5) 2 (fst (elect_leader 2 sample_bft5)) = Some sample_c2"
    by (simp add: elect_leader_def latest_leader_def sample_core_def core_ledger_new_def
        dag_get_certificate_for_round_with_author_def sample_graph4)
  have m: "dag_get_certificates_for_round (bft_dag sample_bft5) (2 + 1) =
      Some [(1, sample_cert 3 1 [] [21]), (2, sample_cert 3 2 [] [21])]"
    by (simp add: dag_get_certificates_for_round_def sample_graph4)
  have com: "get_committee_lookback_for_round (env_network (bp_env sample_params)) (bft_ledger sample_bft4) (2 + 1) =
      Inr sample_committee"
    by (simp add: get_committee_lookback_for_round_def get_committee_for_round_def sample_core_def core_ledger_new_def
        sample_ledger_def)
  have "res = Inr () \<and> dag_last_committed_round (bft_dag b') = 2 \<or>
      \<not> True \<and> (\<exists>x A. consensus_stopped sample_params True A x b' \<and> res = map_sum id (\<lambda>_. ()) x)"
    by (rule available_leader_is_committed [OF _ _ _ _ _ refl sample_commit_ready com lc m _ u])
      (simp_all add: sample_graph4 sample_c2_def sample_cert_def sample_header_def sample_committee_def)
  then show ?thesis using u by blast
qed

end
