(* ===== verification/BlockProps.thy ===== *)
theory BlockProps
  imports CommitLive Validator NodeProps
begin

text \<open>
  From commits to blocks. The BFT hands each anchor's sub-DAG to consensus, which prepares a block
  from it and appends the block to the ledger. The lemmas follow one call of \<open>update_dag\<close> through both components: the
  anchors that it commits and the blocks that it appends are the same, in the same order.
\<close>

section \<open>Blocks of anchors\<close>

text \<open>A ledger grows by one block per anchor round: each block is prepared from a sub-DAG of that round and
  appended to the ledger left by the block before it.\<close>

inductive ledger_grows :: "'ts consensus_params \<Rightarrow> nat list \<Rightarrow> snark_ledger \<Rightarrow> snark_ledger \<Rightarrow> bool" for C where
  no_block: "ledger_grows C [] l l"
| block: "cn_prepare C l sd ts = Some blk \<Longrightarrow> cn_advance C l blk = Some l1 \<Longrightarrow>
    bp_anchor_round (pp_bft (cn_primary C)) sd = r \<Longrightarrow> ledger_grows C rs l1 l' \<Longrightarrow> ledger_grows C (r # rs) l l'"

inductive_simps ledger_grows_Nil [simp]: "ledger_grows C [] l l'"
inductive_cases ledger_grows_ConsE: "ledger_grows C (r # rs) l l'"

lemma try_advance_ok:
  "try_advance_to_next_block C sd ts b = (Inr (), b') \<Longrightarrow>
    \<exists>blk. cn_prepare C (cl_ledger (bft_ledger b)) sd ts = Some blk \<and>
      cn_advance C (cl_ledger (bft_ledger b)) blk = Some (cl_ledger (bft_ledger b'))"
  by (auto simp: try_advance_to_next_block_def advance_to_next_block_def Let_def
      split: option.splits sum.splits if_splits)

lemma process_subdag_ledger:
  assumes "process_bft_subdag C b sd ts = (reply, L, p, q)"
  shows "if reply = Advanced
    then \<exists>blk. cn_prepare C (cl_ledger (bft_ledger b)) sd ts = Some blk \<and>
      cn_advance C (cl_ledger (bft_ledger b)) blk = Some (cl_ledger L)
    else L = bft_ledger b"
  using assms try_advance_ok [of C sd ts b] try_advance_failed [of C sd ts b]
  by (auto simp: process_bft_subdag_def reinsert_transmissions_ledger Let_def split: prod.splits sum.splits)

text \<open>Handing over one sub-DAG with an open channel: the BFT goes on exactly if a block was appended.\<close>

lemma trigger_block:
  assumes "trigger_consensus (pp_bft (node_params C)) lr sd b = (x, b')" "bft_consensus_sender b"
  shows "bft_consensus_sender b' \<and>
    (if x = Inr True then ledger_grows C [lr] (cl_ledger (bft_ledger b)) (cl_ledger (bft_ledger b'))
     else cl_ledger (bft_ledger b') = cl_ledger (bft_ledger b))"
proof -
  let ?P = "pp_bft (node_params C)"
  obtain y s where c: "collect_transmissions (bp_env ?P) (bft_ledger b)
      (concat (map cert_transmission_ids (subdag_certificates sd))) co_empty (bft_storage b) = (y, s)" by fastforce
  let ?b = "b\<lparr>bft_storage := s\<rparr>"
  show ?thesis
  proof (cases "\<exists>acc. y = Inr acc \<and> bp_subdag_from ?P sd \<and> bp_anchor_round ?P sd = lr")
    case False
    then have "x \<noteq> Inr True \<and> b' = ?b"
      using assms(1) c by (cases y) (auto simp: trigger_consensus_def Let_def split: if_splits)
    then show ?thesis using assms(2) by simp
  next
    case True
    then obtain acc where acc: "y = Inr acc" "bp_subdag_from ?P sd" "bp_anchor_round ?P sd = lr" by blast
    obtain reply L p q where pr: "process_bft_subdag C ?b sd (co_transmissions acc) = (reply, L, p, q)"
      by (metis prod_cases4)
    have res: "x = Inr True \<longleftrightarrow> reply = Advanced" "b' = ?b\<lparr>bft_ledger := L, bft_primary := p, bft_inbound := q\<rparr>"
      using assms c acc pr by (auto simp: trigger_consensus_def node_params_def Let_def split: consensus_reply.splits)
    have "bp_anchor_round (pp_bft (cn_primary C)) sd = lr" using acc(3) by (simp add: node_params_def)
    then show ?thesis
      using process_subdag_ledger [OF pr] res assms(2) acc(3)
      by (auto intro: ledger_grows.block [OF _ _ _ no_block] split: if_splits)
  qed
qed

lemma commit_leaders_blocks:
  assumes "search_ready b" "bft_consensus_sender b" "\<forall>c\<in>set ls. get_certificate (bft_storage b) (cert_id c) = Some c"
    and "sorted_wrt (\<lambda>c d. cert_round c < cert_round d) ls"
    and "\<forall>c\<in>set ls. dag_last_committed_round (bft_dag b) < cert_round c"
    and "commit_leaders (pp_bft (node_params C)) al False ls b = (x, b')"
  shows "\<exists>n\<le>length ls. ledger_grows C (map cert_round (take n ls)) (cl_ledger (bft_ledger b)) (cl_ledger (bft_ledger b')) \<and>
    dag_last_committed_round (bft_dag b') = last (dag_last_committed_round (bft_dag b) # map cert_round (take n ls)) \<and>
    (n = length ls \<longleftrightarrow> x = Inr True)"
  using assms
proof (induction ls arbitrary: b)
  case (Cons lc ls)
  have rdy: "order_ready b lc" using Cons.prems(1,3) by (simp add: search_ready_order)
  obtain sd where sd: "order_dag_with_dfs al b lc = Inr sd" using order_dag_total [OF rdy] by blast
  obtain y b1 where t: "trigger_consensus (pp_bft (node_params C)) (cert_round lc) sd b = (y, b1)" by fastforce
  have same: "bft_dag b1 = bft_dag b" "same_certificates (bft_storage b) (bft_storage b1)"
    using trigger_consensus_frame [OF t] by blast+
  note tb = trigger_block [OF t Cons.prems(2)]
  show ?case
  proof (cases "y = Inr True")
    case True
    let ?b = "commit_subdag sd b1"
    have above: "dag_last_committed_round (bft_dag b) < cert_round lc" using Cons.prems(5) by simp
    note last = commit_subdag_last [OF rdy sd above same(1)]
    have "search_ready ?b" using commit_subdag_ready [OF Cons.prems(1) same] last above by simp
    moreover have "\<forall>c\<in>set ls. get_certificate (bft_storage ?b) (cert_id c) = Some c"
      using Cons.prems(3) same(2) by (simp add: commit_subdag_def get_certificate_def same_certificates_def)
    moreover have "commit_leaders (pp_bft (node_params C)) al False ls ?b = (x, b')" using Cons.prems(6) sd t True by simp
    moreover have "bft_consensus_sender ?b" "bft_ledger ?b = bft_ledger b1" using tb by (simp_all add: commit_subdag_def)
    ultimately obtain n where n: "n \<le> length ls"
      "ledger_grows C (map cert_round (take n ls)) (cl_ledger (bft_ledger b1)) (cl_ledger (bft_ledger b'))"
      "dag_last_committed_round (bft_dag b') = last (cert_round lc # map cert_round (take n ls))"
      "n = length ls \<longleftrightarrow> x = Inr True"
      using Cons.IH [of ?b] Cons.prems(4) last by auto
    have "ledger_grows C (cert_round lc # map cert_round (take n ls)) (cl_ledger (bft_ledger b)) (cl_ledger (bft_ledger b'))"
      using tb True n(2) by (auto elim!: ledger_grows_ConsE intro: ledger_grows.intros)
    then show ?thesis using n by (intro exI [of _ "Suc n"]) simp
  next
    case False
    then have "x = y" "b' = b1" using Cons.prems(6) sd t by (auto split: sum.splits bool.splits)
    then show ?thesis using False tb same(1) by (intro exI [of _ 0]) simp
  qed
qed simp

section \<open>The anchors of one call\<close>

lemma collect_leaders_frame:
  "collect_leaders rounds cur acc b = (x, b') \<Longrightarrow>
     bft_consensus_sender b' = bft_consensus_sender b \<and> cl_ledger (bft_ledger b') = cl_ledger (bft_ledger b) \<and>
     bft_dag b' = bft_dag b \<and> bft_storage b' = bft_storage b"
proof (induction rounds arbitrary: cur acc b)
  case (Cons round rounds)
  obtain a b1 where e: "elect_leader round b = (a, b1)" by fastforce
  have "bft_consensus_sender b1 = bft_consensus_sender b"
    using e by (auto simp: elect_leader_def split: option.splits if_splits)
  then show ?case
    using Cons.prems Cons.IH [of _ _ b1] elect_leader_pair [OF e]
    by (auto simp: e split: option.splits sum.splits bool.splits)
qed simp

lemma collect_leaders_vertices:
  "collect_leaders rounds cur acc b = (Inr ls, b') \<Longrightarrow>
     c \<in> set ls \<Longrightarrow> c \<in> set acc \<or> (\<exists>r\<in>set rounds. \<exists>a. vertex (bft_dag b) r a = Some c)"
proof (induction rounds arbitrary: cur acc b)
  case (Cons round rounds)
  obtain a b1 where e: "elect_leader round b = (a, b1)" by fastforce
  show ?case
    using Cons.prems Cons.IH [of _ _ b1] elect_leader_pair [OF e]
    by (fastforce simp: e split: option.splits sum.splits bool.splits)
qed simp

lemma leaders_ready:
  assumes rdy: "search_ready b" "dag_stored b" and v: "vertex (bft_dag b) r a = Some lc" and r: "even r"
    and above: "dag_last_committed_round (bft_dag b) < r"
    and c: "collect_leaders (step_by2 (rev [u64_add (dag_last_committed_round (bft_dag b)) 2..<Suc (cert_round lc - 2)]))
      lc [lc] b = (Inr ls, b1)"
  shows "sorted_wrt (\<lambda>c d. cert_round c < cert_round d) (rev ls)"
    and "d \<in> set ls \<Longrightarrow> get_certificate (bft_storage b) (cert_id d) = Some d \<and>
      dag_last_committed_round (bft_dag b) < cert_round d \<and> cert_round d \<le> r \<and> even (cert_round d)"
    and "\<exists>ls'. ls = lc # ls'"
proof -
  let ?last = "dag_last_committed_round (bft_dag b)"
  let ?rs = "step_by2 (rev [u64_add ?last 2..<Suc (cert_round lc - 2)])"
  have wf: "dag_wf (bft_dag b)" using rdy(1) by (simp add: search_ready_def bft_wf_def)
  have lc: "cert_round lc = r" using vertex_round_author [OF wf v] by simp
  have "lc \<in> known_certificates b" using v by (auto simp: known_certificates_def)
  then have "cert_round lc + st_max_gc_rounds (bft_storage b) < 2 ^ 64" using rdy(1) unfolding search_ready_def by blast
  then have "r < 2 ^ 64" using lc by linarith
  moreover have "r \<noteq> 2 ^ 64 - 1" using r by fastforce
  ultimately have add: "u64_add ?last 2 = ?last + 2" using above by (intro u64_add_exact) simp
  have rs: "?last + 2 \<le> q \<and> q \<le> r - 2 \<and> even (r - 2 - q)" if "q \<in> set ?rs" for q
    using step_by2_rev_upt [OF that] add lc by simp
  have dec: "sorted_wrt (>) ?rs"
    by (intro sorted_wrt_step_by2) (simp add: sorted_wrt_rev del: upt_Suc)
  have below: "\<forall>q\<in>set ?rs. q < cert_round lc"
  proof
    fix q assume "q \<in> set ?rs"
    then show "q < cert_round lc" using rs [of q] lc by linarith
  qed
  have ch: "anchor_chain (bft_dag b) ls" "\<exists>ls'. ls = [lc] @ ls'"
    using collect_leaders_chain [OF wf dec below c] by (auto simp: anchor_chain_def)
  show "sorted_wrt (\<lambda>c d. cert_round c < cert_round d) (rev ls)"
    using ch(1) unfolding anchor_chain_def sorted_wrt_rev by (rule sorted_wrt_mono_rel [rotated]) simp
  show "\<exists>ls'. ls = lc # ls'" using ch(2) by simp
  have gc: "st_gc_round (bft_storage b) \<le> ?last" using rdy(1) unfolding search_ready_def by linarith
  have "\<exists>q a. ?last < q \<and> q \<le> r \<and> even q \<and> vertex (bft_dag b) q a = Some d" if d: "d \<in> set ls"
  proof (cases "d = lc")
    case False
    then obtain q a where q: "q \<in> set ?rs" "vertex (bft_dag b) q a = Some d"
      using collect_leaders_vertices [OF c d] by auto
    have "even (r - 2)" "q \<le> r - 2" "even (r - 2 - q)" using rs [OF q(1)] r by simp_all
    then have "even q" by (metis dvd_diffD1 even_diff_nat)
    moreover have "?last < q \<and> q \<le> r" using rs [OF q(1)] by linarith
    ultimately show ?thesis using q(2) by blast
  qed (use v r above in blast)
  then show "get_certificate (bft_storage b) (cert_id d) = Some d \<and> ?last < cert_round d \<and> cert_round d \<le> r \<and>
      even (cert_round d)" if "d \<in> set ls"
    using that rdy(2) gc vertex_round_author [OF wf] unfolding dag_stored_def by (metis le_less_trans)
qed

lemma map_rounds_take:
  "sorted_wrt (\<lambda>c d. cert_round c < cert_round d) ls \<Longrightarrow> sorted_wrt (<) (map cert_round (take n ls))"
  by (simp add: sorted_wrt_map sorted_wrt_take)

text \<open>One call of the commit, in terms of the anchors collected for it.\<close>

lemma commit_leader_blocks:
  assumes "search_ready b" "dag_stored b" "vertex (bft_dag b) r a = Some lc" "even r" "bft_consensus_sender b"
    and "dag_last_committed_round (bft_dag b) < r"
    and "commit_leader_certificate (pp_bft (node_params C)) al False lc b = (x, b')"
  shows "\<exists>rs. ledger_grows C rs (cl_ledger (bft_ledger b)) (cl_ledger (bft_ledger b')) \<and> sorted_wrt (<) rs \<and>
    (\<forall>q\<in>set rs. dag_last_committed_round (bft_dag b) < q \<and> q \<le> r \<and> even q) \<and>
    dag_last_committed_round (bft_dag b') = last (dag_last_committed_round (bft_dag b) # rs)"
proof -
  let ?rs = "step_by2 (rev [u64_add (dag_last_committed_round (bft_dag b)) 2..<Suc (cert_round lc - 2)])"
  obtain y b1 where c: "collect_leaders ?rs lc [lc] b = (y, b1)" by fastforce
  note fr = collect_leaders_frame [OF c]
  show ?thesis
  proof (cases y)
    case (Inl e)
    then have "b' = b1" using assms(7) c by (simp add: commit_leader_certificate_def)
    then show ?thesis using fr by (intro exI [of _ "[]"]) simp
  next
    case (Inr ls)
    note L = leaders_ready [OF assms(1-4,6) c [unfolded Inr]]
    obtain z b2 where x: "commit_leaders (pp_bft (node_params C)) al False (rev ls) b1 = (z, b2)" by fastforce
    have "b' = b2 \<or> (\<exists>s. b' = b2\<lparr>bft_storage := s\<rparr>)"
      using assms(7) c x Inr by (auto simp: commit_leader_certificate_def split: sum.splits bool.splits)
    then have b': "bft_dag b' = bft_dag b2" "bft_ledger b' = bft_ledger b2" by auto
    have "search_ready b1" using assms(1) fr by (simp add: search_ready_def bft_wf_def known_certificates_def)
    moreover have "\<forall>d\<in>set (rev ls). get_certificate (bft_storage b1) (cert_id d) = Some d"
      "\<forall>d\<in>set (rev ls). dag_last_committed_round (bft_dag b1) < cert_round d"
      using L(2) fr by simp_all
    ultimately obtain n where n:
      "ledger_grows C (map cert_round (take n (rev ls))) (cl_ledger (bft_ledger b1)) (cl_ledger (bft_ledger b2))"
      "dag_last_committed_round (bft_dag b2) =
         last (dag_last_committed_round (bft_dag b1) # map cert_round (take n (rev ls)))"
      using commit_leaders_blocks [OF _ _ _ L(1) _ x] assms(5) fr by auto
    have "\<forall>q\<in>set (map cert_round (take n (rev ls))). dag_last_committed_round (bft_dag b) < q \<and> q \<le> r \<and> even q"
      using L(2) by (auto dest: in_set_takeD)
    then show ?thesis using n b' fr map_rounds_take [OF L(1), of n] by (intro exI [of _ "map cert_round (take n (rev ls))"]) simp
  qed
qed

text \<open>The whole of \<open>update_dag\<close>: the early returns append nothing and leave the last committed round.\<close>

lemma update_dag_blocks:
  assumes "b0 = b\<lparr>bft_dag := dag_insert c (bft_dag b)\<rparr>" "search_ready b0" "dag_stored b0" "bft_consensus_sender b"
    and "update_dag (pp_bft (node_params C)) al False c b = (x, b')"
  shows "\<exists>rs. ledger_grows C rs (cl_ledger (bft_ledger b)) (cl_ledger (bft_ledger b')) \<and> sorted_wrt (<) rs \<and>
    (\<forall>r\<in>set rs. dag_last_committed_round (bft_dag b) < r \<and> r < cert_round c \<and> even r) \<and>
    dag_last_committed_round (bft_dag b') = last (dag_last_committed_round (bft_dag b) # rs)"
proof -
  let ?r = "cert_round c - 1" and ?P = "pp_bft (node_params C)"
  obtain a b1 where el: "elect_leader ?r b0 = (a, b1)" by fastforce
  note fr = elect_leader_pair [OF el]
  have sender: "bft_consensus_sender b1"
    using el assms(1,4) by (auto simp: elect_leader_def split: option.splits if_splits)
  have last0: "dag_last_committed_round (bft_dag b0) = dag_last_committed_round (bft_dag b)"
    "cl_ledger (bft_ledger b0) = cl_ledger (bft_ledger b)" by (simp_all add: assms(1))
  consider (stay) "b' = b0 \<or> b' = b1"
    | (commit) lc where "even ?r" "2 \<le> ?r" "dag_last_committed_round (bft_dag b) < ?r"
      "vertex (bft_dag b1) ?r a = Some lc" "commit_leader_certificate ?P al False lc b1 = (x, b')"
  proof (cases "odd ?r \<or> ?r < 2 \<or> ?r \<le> dag_last_committed_round (bft_dag b)")
    case True
    then have "b' = b0"
      using assms(5) last0(1)
      by (auto simp: update_dag_def assms(1) [symmetric] Let_def odd_iff_mod_2_eq_one simp del: One_nat_def split: if_splits)
    then show ?thesis using stay by blast
  next
    case False
    then have r: "even ?r" "2 \<le> ?r" "dag_last_committed_round (bft_dag b) < ?r" by auto
    have "b' = b0 \<or> b' = b1 \<or> (\<exists>lc. vertex (bft_dag b1) ?r a = Some lc \<and>
        commit_leader_certificate ?P al False lc b1 = (x, b'))"
      using assms(5) last0(1) r el
      by (auto simp: update_dag_def assms(1) [symmetric] Let_def even_iff_mod_2_eq_zero simp del: One_nat_def
          split: if_splits sum.splits option.splits)
    then show ?thesis using stay commit r by blast
  qed
  then show ?thesis
  proof cases
    case stay
    then show ?thesis using fr last0 by (intro exI [of _ "[]"]) auto
  next
    case commit
    have rdy: "search_ready b1" "dag_stored b1"
      using assms(2,3) fr by (simp_all add: search_ready_def bft_wf_def known_certificates_def dag_stored_def)
    have above: "dag_last_committed_round (bft_dag b1) < ?r" using commit(3) fr last0 by simp
    obtain rs where rs: "ledger_grows C rs (cl_ledger (bft_ledger b1)) (cl_ledger (bft_ledger b'))" "sorted_wrt (<) rs"
      "\<forall>q\<in>set rs. dag_last_committed_round (bft_dag b1) < q \<and> q \<le> ?r \<and> even q"
      "dag_last_committed_round (bft_dag b') = last (dag_last_committed_round (bft_dag b1) # rs)"
      using commit_leader_blocks [OF rdy commit(4,1) sender above commit(5)] by blast
    moreover have "q < cert_round c" if "q \<le> ?r" for q using that commit(2) by linarith
    ultimately show ?thesis using fr last0 by (intro exI [of _ rs]) auto
  qed
qed

section \<open>A concrete commit\<close>

text \<open>The sample BFT with an open consensus channel receives a certificate of round 3 that cites the leader of
  round 2.\<close>

definition sample_s4 :: "memory_service storage" where
  "sample_s4 = insert_certificate_atomic sample_env
     (insert_certificate_atomic sample_env sample_s2 (sample_cert 3 1 [] [21]) [] []) (sample_cert 3 2 [] [21]) [] []"

definition sample_open :: "memory_service bft" where
  "sample_open = sample_bft4\<lparr>bft_consensus_sender := True, bft_storage := sample_s4\<rparr>"

definition sample_elected :: "memory_service bft" where
  "sample_elected = sample_open\<lparr>bft_dag := dag_insert (sample_cert 3 2 [] [21]) (bft_dag sample_bft4),
     bft_ledger := update_latest_leader sample_core 2 1\<rparr>"

abbreviation sample_subdag :: subdag where
  "sample_subdag \<equiv> [(1, [sample_cert 1 1 [] [], sample_cert 1 2 [] [], sample_cert 1 3 [] []]), (2, [sample_c2])]"

lemma sample_cert_sel:
  "cert_round (sample_cert r a ts ps) = r" "cert_author (sample_cert r a ts ps) = a"
  "cert_id (sample_cert r a ts ps) = 10 * r + a" "cert_transmission_ids (sample_cert r a ts ps) = ts"
  "cert_previous_ids (sample_cert r a ts ps) = ps"
  "sample_cert r a ts ps = sample_cert r' a' ts' ps' \<longleftrightarrow> r = r' \<and> a = a' \<and> ts = ts' \<and> ps = ps'"
  by (auto simp: sample_cert_def sample_header_def)

lemma sample_c2_sel:
  "cert_round sample_c2 = 2" "cert_author sample_c2 = 1" "cert_id sample_c2 = 21"
  "cert_transmission_ids sample_c2 = [sample_t]" "cert_previous_ids sample_c2 = [11, 12, 13]"
  by (simp_all add: sample_c2_def sample_cert_sel)

lemma sample_s4_certs:
  "st_certificates sample_s4 = [(11, sample_cert 1 1 [] []), (12, sample_cert 1 2 [] []), (13, sample_cert 1 3 [] []),
     (21, sample_c2), (31, sample_cert 3 1 [] [21]), (32, sample_cert 3 2 [] [21])]"
  "st_max_gc_rounds sample_s4 = 1" "st_gc_round sample_s4 = 0"
  by (simp_all add: sample_s4_def insert_certificate_atomic_def sample_certs sample_cert_sel)

lemma sample_s4_inv: "storage_inv sample_s4"
proof -
  let ?c = "sample_cert 3 1 [] [21]" and ?d = "sample_cert 3 2 [] [21]"
  let ?s = "insert_certificate_atomic sample_env sample_s2 ?c [] []"
  have s2: "storage_wf sample_s2" "causally_closed sample_s2" using sample_inv(2) by (simp_all add: storage_inv_def)
  have new: "\<not> contains_certificate_in_round_from sample_s2 3 1" "\<not> contains_certificate_in_round_from ?s 3 2"
    by (simp_all add: contains_certificate_in_round_from_def sample_store_defs insert_certificate_atomic_def iset_insert_def
        imap_or_default_def)
  have s3: "storage_wf ?s" "causally_closed ?s"
    using s2 new(1) by (auto intro!: insert_atomic_wf insert_atomic_causally_closed
        simp: sample_certs sample_cert_sel sample_c2_sel)
  show ?thesis
    using s3 new(2) by (auto intro!: insert_atomic_wf insert_atomic_causally_closed
        simp: storage_inv_def sample_s4_def sample_certs sample_cert_sel sample_c2_sel)
qed

lemma sample_none_committed: "is_recently_committed (bft_dag sample_bft4) r i = False"
  by (simp add: sample_bft4_def is_recently_committed_def sample_graph)

lemma sample_open_sel:
  "bft_dag sample_open = bft_dag sample_bft4" "bft_storage sample_open = sample_s4" "bft_ledger sample_open = sample_core"
  "bft_consensus_sender sample_open"
  by (simp_all add: sample_open_def)

lemma sample_elected_sel:
  "bft_dag sample_elected = dag_insert (sample_cert 3 2 [] [21]) (bft_dag sample_bft4)"
  "bft_storage sample_elected = sample_s4" "bft_ledger sample_elected = update_latest_leader sample_core 2 1"
  "bft_consensus_sender sample_elected"
  by (simp_all add: sample_elected_def sample_open_def)

lemma sample_order: "order_dag_with_dfs True sample_elected sample_c2 = Inr sample_subdag"
  by (simp add: order_dag_with_dfs_def order_fuel_def sample_elected_sel sample_s4_certs sample_graph4 sample_c2_sel
      sample_cert_sel btree_or_default_def iset_insert_def u64_add_def Let_def skip_previous_def sample_none_committed
      find_previous_def get_certificate_def dag_get_certificate_for_round_with_id_def ledger_contains_certificate_def
      unwrap_or_def sample_core_def core_ledger_new_def sample_ledger_def update_latest_leader_def retain_def)

lemma sample_collected:
  "collect_transmissions sample_env (update_latest_leader sample_core 2 1) [sample_t] co_empty sample_s4 =
     (Inr \<lparr>co_transmissions = sample_given, co_seen_solution_ids = [], co_seen_transaction_ids = [5]\<rparr>, sample_s4)"
  by (simp add: co_empty_def sample_t_def unwrap_or_def get_transmission_def mem_get_transmission_def
      sample_s4_def sample_s2_def sample_env_def memory_vtable_def insert_certificate_atomic_def mem_insert_transmissions_def
      sample_s1_def sample_s1b_def sample_s1a_def sample_s0_def mem_new_def sample_given_def sample_c2_def
      sample_cert_def sample_header_def sample_core_def core_ledger_new_def sample_ledger_def iset_insert_def
      update_latest_leader_def)

lemma sample_node_bft:
  "bp_env (pp_bft (node_params sample_cp)) = sample_env" "bp_subdag_from (pp_bft (node_params sample_cp)) sd"
  "bp_anchor_round (pp_bft (node_params sample_cp)) sd = last (map fst sd)"
  "bp_consensus (pp_bft (node_params sample_cp)) = process_bft_subdag sample_cp"
  by (simp_all add: node_params_def sample_cp_def sample_pp_def)

lemma sample_processed:
  "\<exists>L p q. process_bft_subdag sample_cp sample_elected sd ts = (Advanced, L, p, q) \<and> sl_latest_height (cl_ledger L) = 1"
  by (simp add: process_bft_subdag_def sample_elected_sel try_advance_to_next_block_def sample_cp_def
      advance_to_next_block_def sample_advance_def sample_core_def core_ledger_new_def sample_ledger_def
      update_latest_leader_def sample_block_def Let_def)

lemma sample_triggered:
  "\<exists>L p q. trigger_consensus (pp_bft (node_params sample_cp)) 2 sample_subdag sample_elected =
     (Inr True, sample_elected\<lparr>bft_ledger := L, bft_primary := p, bft_inbound := q\<rparr>) \<and> sl_latest_height (cl_ledger L) = 1"
proof -
  have same: "sample_elected\<lparr>bft_storage := sample_s4\<rparr> = sample_elected"
    using sample_elected_sel(2) by (metis bft.surjective bft.update_convs(2))
  have ids: "concat (map cert_transmission_ids (subdag_certificates sample_subdag)) = [sample_t]"
    by (simp add: subdag_certificates_def sample_cert_sel sample_c2_sel)
  obtain L p q where "process_bft_subdag sample_cp sample_elected sample_subdag sample_given = (Advanced, L, p, q)"
    "sl_latest_height (cl_ledger L) = 1" using sample_processed by blast
  then show ?thesis
    unfolding trigger_consensus_def sample_node_bft ids sample_elected_sel sample_collected
    by (simp add: sample_elected_sel same sample_node_bft) blast
qed

lemma sample_elects: "elect_leader 2 (sample_open\<lparr>bft_dag := dag_insert (sample_cert 3 2 [] [21]) (bft_dag sample_bft4)\<rparr>) =
    (1, sample_elected)"
  by (simp add: elect_leader_def latest_leader_def sample_elected_def sample_open_def sample_core_def core_ledger_new_def)

lemma sample_lookback:
  "get_committee_lookback_for_round N sample_core r = Inr sample_committee"
  "get_committee_lookback_for_round N (update_latest_leader sample_core q a) r = Inr sample_committee"
  by (simp_all add: get_committee_lookback_for_round_def get_committee_for_round_def sample_core_def core_ledger_new_def
      sample_ledger_def update_latest_leader_def)

lemma sample_rounds:
  "vertex (dag_insert (sample_cert 3 2 [] [21]) (bft_dag sample_bft4)) 2 (Suc 0) = Some sample_c2"
  "dag_get_certificates_for_round (dag_insert (sample_cert 3 2 [] [21]) (bft_dag sample_bft4)) 3 =
     Some [(1, sample_cert 3 1 [] [21]), (2, sample_cert 3 2 [] [21])]"
  by (simp_all add: dag_get_certificate_for_round_with_author_def dag_get_certificates_for_round_def sample_graph4)

lemma sample_block_appended:
  "sl_latest_height (cl_ledger (bft_ledger (snd (update_dag (pp_bft (node_params sample_cp)) True False
     (sample_cert 3 2 [] [21]) sample_open)))) = 1"
proof -
  let ?P = "pp_bft (node_params sample_cp)"
  obtain L p q where t: "trigger_consensus ?P 2 sample_subdag sample_elected =
      (Inr True, sample_elected\<lparr>bft_ledger := L, bft_primary := p, bft_inbound := q\<rparr>)"
    "sl_latest_height (cl_ledger L) = 1" using sample_triggered by blast
  have "bft_ledger (snd (commit_leader_certificate ?P True False sample_c2 sample_elected)) = L"
    using t(1)
    by (simp add: commit_leader_certificate_def sample_order sample_c2_sel sample_elected_sel sample_graph4 u64_add_def
        commit_subdag_def)
  then show ?thesis
    using t(2)
    by (simp add: update_dag_def sample_cert_sel sample_open_sel sample_elects sample_node_bft sample_elected_sel
        sample_graph4 sample_rounds sample_lookback sample_committee_def Let_def sample_c2_sel)
qed

section \<open>Properties\<close>

text \<open>C9: commits and blocks coincide: whatever branch a call of \<open>update_dag\<close> takes outside of syncing, the blocks
  that it appends to the ledger are those of its anchors, at even and increasing rounds above the last
  committed one and below the new certificate, and the last committed round ends at the anchor of the last of these blocks.
  Without a block it does not move.\<close>

theorem commits_are_blocks:
  assumes "b0 = b\<lparr>bft_dag := dag_insert c (bft_dag b)\<rparr>" "search_ready b0" "dag_stored b0" "bft_consensus_sender b"
    and "update_dag (pp_bft (node_params C)) al False c b = (x, b')"
  shows "\<exists>rs. ledger_grows C rs (cl_ledger (bft_ledger b)) (cl_ledger (bft_ledger b')) \<and> sorted_wrt (<) rs \<and>
    (\<forall>r\<in>set rs. dag_last_committed_round (bft_dag b) < r \<and> r < cert_round c \<and> even r) \<and>
    dag_last_committed_round (bft_dag b') = last (dag_last_committed_round (bft_dag b) # rs)"
  by (rule update_dag_blocks [OF assms])

lemma sample_open_ready:
  "search_ready (sample_open\<lparr>bft_dag := dag_insert (sample_cert 3 2 [] [21]) (bft_dag sample_open)\<rparr>)"
  "dag_stored (sample_open\<lparr>bft_dag := dag_insert (sample_cert 3 2 [] [21]) (bft_dag sample_open)\<rparr>)"
proof -
  let ?b = "sample_open\<lparr>bft_dag := dag_insert (sample_cert 3 2 [] [21]) (bft_dag sample_open)\<rparr>"
  let ?A = "{sample_cert 1 1 [] [], sample_cert 1 2 [] [], sample_cert 1 3 [] [], sample_c2,
    sample_cert 3 1 [] [21], sample_cert 3 2 [] [21]}"
  have wf: "bft_wf ?b"
    using sample_bft_wf sample_s4_inv by (simp add: bft_wf_def sample_open_sel sample_bft4_def dag_wf_insert)
  have v: "c \<in> ?A" if "vertex (bft_dag ?b) r a = Some c" for r a c
    using that by (auto simp: vertex_iff sample_open_sel sample_graph4 split: if_splits)
  have "c \<in> ?A" if "c \<in> ran (certs sample_s4)" for c
    using that by (auto simp: sample_s4_certs ran_def split: if_splits)
  then have sub: "known_certificates ?b \<subseteq> ?A"
    using v by (auto simp: known_certificates_def sample_open_sel)
  have "ids_identify ?A" by (simp add: ids_identify_def sample_cert_sel sample_c2_sel)
  then have ids: "ids_identify (known_certificates ?b)"
    using sub unfolding ids_identify_def by blast
  have "\<forall>c\<in>?A. (cert_round c \<le> 1 \<longrightarrow> cert_previous_ids c = []) \<and> cert_round c + 1 < 2 ^ 64"
    by (simp add: sample_cert_sel sample_c2_sel)
  then have "\<forall>c\<in>known_certificates ?b. (cert_round c \<le> 1 \<longrightarrow> cert_previous_ids c = []) \<and> cert_round c + 1 < 2 ^ 64"
    using sub by blast
  then show "search_ready ?b"
    using wf ids by (simp add: search_ready_def sample_open_sel sample_s4_certs)
  have "\<forall>c\<in>?A. get_certificate sample_s4 (cert_id c) = Some c"
    by (simp add: get_certificate_def sample_s4_certs sample_cert_sel sample_c2_sel)
  then show "dag_stored ?b"
    using v unfolding dag_stored_def by (simp add: sample_open_sel) blast
qed

theorem commits_are_blocks_witness:
  "\<exists>x b'. update_dag (pp_bft (node_params sample_cp)) True False (sample_cert 3 2 [] [21]) sample_open = (x, b') \<and>
     ledger_grows sample_cp [2] sample_ledger (cl_ledger (bft_ledger b')) \<and> dag_last_committed_round (bft_dag b') = 2"
proof -
  let ?u = "update_dag (pp_bft (node_params sample_cp)) True False (sample_cert 3 2 [] [21]) sample_open"
  have led: "cl_ledger (bft_ledger sample_open) = sample_ledger" "dag_last_committed_round (bft_dag sample_open) = 0"
    by (simp_all add: sample_open_sel sample_core_def core_ledger_new_def sample_graph4)
  obtain rs where rs: "ledger_grows sample_cp rs sample_ledger (cl_ledger (bft_ledger (snd ?u)))" "sorted_wrt (<) rs"
    "\<forall>r\<in>set rs. 0 < r \<and> r < 3 \<and> even r" "dag_last_committed_round (bft_dag (snd ?u)) = last (0 # rs)"
    using commits_are_blocks [OF refl sample_open_ready sample_open_sel(4) surjective_pairing, of sample_cp True]
    unfolding led sample_cert_sel by blast
  have two: "r = 2" if "r \<in> set rs" for r
  proof -
    have "0 < r" "r < 3" "even r" using rs(3) that by auto
    then show ?thesis by presburger
  qed
  have "rs \<noteq> []"
    using rs(1) sample_block_appended by (auto simp: sample_ledger_def)
  then obtain q qs where q: "rs = q # qs" by (cases rs) auto
  have "qs = []" using rs(2) two q by (cases qs) auto
  then have "rs = [2]" using q two by simp
  then show ?thesis using rs by (metis last_ConsL last_ConsR list.distinct(1) surjective_pairing)
qed



end
