(* ===== verification/Metrics.thy ===== *)
theory Metrics
  imports Consensus LedgerFiles
begin

text \<open>
  The metrics (\<open>node/metrics/src\<close>) and the places of consensus and of the ledger service that
  report them, in a build with the \<open>metrics\<close> feature. The recorder is a library, so what the node does to it is the
  list of calls it makes. The one state of the component is the map from a queued transmission
  to the time it came in, which consensus fills and empties; the lemmas say which entries a block removes, and
  which entries stay. Numbers handed over as \<open>f64\<close> are exact here.
\<close>

section \<open>Names\<close>

datatype metric =
    BftCommitRoundsLatency | BftConnected | BftConnecting | BftLastStoredRound | BftLeadersElected
  | BftProposalRound | BftCertifiedBatches | BftHeight | BftLastCommittedRound | BftIsSynced
  | BlocksTransactions | BlocksSolutions | BlocksAcceptedDeploy | BlocksAcceptedExecute | BlocksRejectedDeploy
  | BlocksRejectedExecute | BlocksAbortedTransactions | BlocksAbortedSolutions | BlocksProofTarget
  | BlocksCoinbaseTarget | BlocksCumulativeProofTarget
  | ConsensusCertificateCommitLatency | ConsensusCommittedCertificates | ConsensusBlockLatency
  | ConsensusUnconfirmedTransactions | ConsensusUnconfirmedSolutions | ConsensusTransmissionLatency
  | ConsensusStaleUnconfirmedTransmissions
  | RouterConnected | RouterCandidate | RouterRestricted | TcpTasks

fun metric_name :: "metric \<Rightarrow> string" where
  "metric_name BftCommitRoundsLatency = ''amareleo_bft_commit_rounds_latency_secs''"
| "metric_name BftConnected = ''amareleo_bft_connected_total''"
| "metric_name BftConnecting = ''amareleo_bft_connecting_total''"
| "metric_name BftLastStoredRound = ''amareleo_bft_last_stored_round''"
| "metric_name BftLeadersElected = ''amareleo_bft_leaders_elected_total''"
| "metric_name BftProposalRound = ''amareleo_bft_primary_proposal_round''"
| "metric_name BftCertifiedBatches = ''amareleo_bft_primary_certified_batches''"
| "metric_name BftHeight = ''amareleo_bft_height_total''"
| "metric_name BftLastCommittedRound = ''amareleo_bft_last_committed_round''"
| "metric_name BftIsSynced = ''amareleo_bft_is_synced''"
| "metric_name BlocksTransactions = ''amareleo_blocks_transactions_total''"
| "metric_name BlocksSolutions = ''amareleo_blocks_solutions_total''"
| "metric_name BlocksAcceptedDeploy = ''amareleo_blocks_accepted_deploy''"
| "metric_name BlocksAcceptedExecute = ''amareleo_blocks_accepted_execute''"
| "metric_name BlocksRejectedDeploy = ''amareleo_blocks_rejected_deploy''"
| "metric_name BlocksRejectedExecute = ''amareleo_blocks_rejected_execute''"
| "metric_name BlocksAbortedTransactions = ''amareleo_blocks_aborted_transactions''"
| "metric_name BlocksAbortedSolutions = ''amareleo_blocks_aborted_solutions''"
| "metric_name BlocksProofTarget = ''amareleo_blocks_proof_target''"
| "metric_name BlocksCoinbaseTarget = ''amareleo_blocks_coinbase_target''"
| "metric_name BlocksCumulativeProofTarget = ''amareleo_blocks_cumulative_proof_target''"
| "metric_name ConsensusCertificateCommitLatency = ''amareleo_consensus_certificate_commit_latency_secs''"
| "metric_name ConsensusCommittedCertificates = ''amareleo_consensus_committed_certificates_total''"
| "metric_name ConsensusBlockLatency = ''amareleo_consensus_block_latency_secs''"
| "metric_name ConsensusUnconfirmedTransactions = ''amareleo_consensus_unconfirmed_transactions_total''"
| "metric_name ConsensusUnconfirmedSolutions = ''amareleo_consensus_unconfirmed_solutions_total''"
| "metric_name ConsensusTransmissionLatency = ''amareleo_consensus_transmission_latency''"
| "metric_name ConsensusStaleUnconfirmedTransmissions = ''amareleo_consensus_stale_unconfirmed_transmissions''"
| "metric_name RouterConnected = ''amareleo_router_connected_total''"
| "metric_name RouterCandidate = ''amareleo_router_candidate_total''"
| "metric_name RouterRestricted = ''amareleo_router_restricted_total''"
| "metric_name TcpTasks = ''amareleo_tcp_tasks_total''"

definition COUNTER_NAMES :: "metric list" where
  "COUNTER_NAMES = [BftLeadersElected, ConsensusStaleUnconfirmedTransmissions]"

definition GAUGE_NAMES :: "metric list" where
  "GAUGE_NAMES =
     [BftConnected, BftConnecting, BftLastStoredRound, BftProposalRound, BftCertifiedBatches, BftHeight,
      BftLastCommittedRound, BftIsSynced, BlocksSolutions, BlocksTransactions, BlocksAcceptedDeploy,
      BlocksAcceptedExecute, BlocksRejectedDeploy, BlocksRejectedExecute, BlocksAbortedTransactions,
      BlocksAbortedSolutions, BlocksProofTarget, BlocksCoinbaseTarget, BlocksCumulativeProofTarget,
      ConsensusCommittedCertificates, ConsensusUnconfirmedSolutions, ConsensusUnconfirmedTransactions,
      RouterConnected, RouterCandidate, RouterRestricted, TcpTasks]"

definition HISTOGRAM_NAMES :: "metric list" where
  "HISTOGRAM_NAMES = [BftCommitRoundsLatency, ConsensusCertificateCommitLatency, ConsensusBlockLatency]"

section \<open>Calls to the recorder\<close>

datatype metric_call =
    InstallExporter "socket_addr option"
  | RegisterSnarkvmMetrics
  | RegisterGauge metric
  | RegisterCounter metric
  | RegisterHistogram metric
  | Gauge metric nat
  | IncrementGauge metric nat
  | IncrementCounter metric
  | Histogram metric int
  | HistogramLabel metric string string nat

text \<open>\<open>installs\<close> says whether the exporter can be set up at an address; the code panics if not, which
  is \<open>None\<close>.\<close>

definition initialize_metrics :: "(socket_addr option \<Rightarrow> bool) \<Rightarrow> socket_addr option \<Rightarrow> metric_call list option" where
  "initialize_metrics installs ip =
     (if \<not> installs ip then None
      else Some ([InstallExporter ip, RegisterSnarkvmMetrics] @ map RegisterGauge GAUGE_NAMES @
        map RegisterCounter COUNTER_NAMES @ map RegisterHistogram HISTOGRAM_NAMES))"

section \<open>Blocks\<close>

datatype confirmed = AcceptedDeploy | AcceptedExecute | RejectedDeploy | RejectedExecute

text \<open>What the metrics read of a block and of a sub-DAG beyond the rest of the node.\<close>

record block_reader =
  br_confirmed :: "block \<Rightarrow> confirmed list"
  br_transaction_ids :: "block \<Rightarrow> transaction_id list"
  br_timestamp :: "block \<Rightarrow> int"
  br_proof_target :: "block \<Rightarrow> nat"
  br_coinbase_target :: "block \<Rightarrow> nat"
  br_cumulative_proof_target :: "block \<Rightarrow> nat"
  br_leader_timestamp :: "subdag \<Rightarrow> int"

record transaction_counts =
  accepted_deploy :: nat
  accepted_execute :: nat
  rejected_deploy :: nat
  rejected_execute :: nat

text \<open>\<open>fetch_add\<close> wraps around at the width of \<open>usize\<close>.\<close>

fun count_transaction :: "confirmed \<Rightarrow> transaction_counts \<Rightarrow> transaction_counts" where
  "count_transaction AcceptedDeploy n = n\<lparr>accepted_deploy := u64_add (accepted_deploy n) 1\<rparr>"
| "count_transaction AcceptedExecute n = n\<lparr>accepted_execute := u64_add (accepted_execute n) 1\<rparr>"
| "count_transaction RejectedDeploy n = n\<lparr>rejected_deploy := u64_add (rejected_deploy n) 1\<rparr>"
| "count_transaction RejectedExecute n = n\<lparr>rejected_execute := u64_add (rejected_execute n) 1\<rparr>"

definition no_transactions :: transaction_counts where
  "no_transactions = \<lparr>accepted_deploy = 0, accepted_execute = 0, rejected_deploy = 0, rejected_execute = 0\<rparr>"

definition update_block_metrics :: "block_reader \<Rightarrow> block \<Rightarrow> metric_call list" where
  "update_block_metrics K blk =
     (let n = fold count_transaction (br_confirmed K blk) no_transactions in
      [IncrementGauge BlocksAcceptedDeploy (accepted_deploy n),
       IncrementGauge BlocksAcceptedExecute (accepted_execute n),
       IncrementGauge BlocksRejectedDeploy (rejected_deploy n),
       IncrementGauge BlocksRejectedExecute (rejected_execute n),
       IncrementGauge BlocksAbortedTransactions (length (blk_aborted_transaction_ids blk)),
       IncrementGauge BlocksAbortedSolutions (length (blk_aborted_solution_ids blk))])"

text \<open>What the ledger service reports when it has advanced.\<close>

definition ledger_calls :: "block_reader \<Rightarrow> block \<Rightarrow> metric_call list" where
  "ledger_calls K blk =
     [Gauge BftHeight (blk_height blk), Gauge BftLastCommittedRound (blk_round blk),
      IncrementGauge BlocksSolutions (length (blk_solutions blk)),
      IncrementGauge BlocksTransactions (length (br_confirmed K blk))] @ update_block_metrics K blk"

section \<open>Latency of transmissions\<close>

definition AGE_THRESHOLD_SECONDS :: nat where
  "AGE_THRESHOLD_SECONDS = 30 * 60"

text \<open>\<open>(now - timestamp) as u64\<close>: a negative difference becomes a huge one.\<close>

definition elapsed_secs :: "int \<Rightarrow> int \<Rightarrow> nat" where
  "elapsed_secs now ts = nat (i64_wrap (now - ts) mod 2 ^ 64)"

fun transmission_type :: "solution_id set \<Rightarrow> transaction_id set \<Rightarrow> transmission_id \<Rightarrow> string option" where
  "transmission_type solution_ids transaction_ids (SolutionID i _) =
     (if i \<in> solution_ids then Some ''solution'' else None)"
| "transmission_type solution_ids transaction_ids (TransactionID i _) =
     (if i \<in> transaction_ids then Some ''transaction'' else None)"
| "transmission_type solution_ids transaction_ids RatificationID = None"

definition latency_call ::
  "solution_id set \<Rightarrow> transaction_id set \<Rightarrow> int \<Rightarrow> transmission_id \<times> int \<Rightarrow> (transmission_id \<times> metric_call) option" where
  "latency_call solution_ids transaction_ids now p =
     (let (key, timestamp) = p; elapsed = elapsed_secs now timestamp in
      if elapsed > AGE_THRESHOLD_SECONDS
      then Some (key, IncrementCounter ConsensusStaleUnconfirmedTransmissions)
      else (case transmission_type solution_ids transaction_ids key of
              None \<Rightarrow> None
            | Some ty \<Rightarrow> Some (key, HistogramLabel ConsensusTransmissionLatency ''transmission_type'' ty elapsed)))"

definition block_solution_ids :: "block \<Rightarrow> solution_id set" where
  "block_solution_ids blk = set (imap_keys (blk_solutions blk) @ blk_aborted_solution_ids blk)"

definition block_transaction_ids :: "block_reader \<Rightarrow> block \<Rightarrow> transaction_id set" where
  "block_transaction_ids K blk = set (br_transaction_ids K blk @ blk_aborted_transaction_ids blk)"

text \<open>The keys of the entries that are reported are collected first and removed then.\<close>

definition add_transmission_latency_metric ::
  "block_reader \<Rightarrow> int \<Rightarrow> block \<Rightarrow> (transmission_id, int) imap \<Rightarrow> (transmission_id, int) imap \<times> metric_call list" where
  "add_transmission_latency_metric K now blk queue =
     (let reported = List.map_filter (latency_call (block_solution_ids blk) (block_transaction_ids K blk) now) queue
      in (fold imap_shift_remove (map fst reported) queue, map snd reported))"

section \<open>Consensus with metrics\<close>

text \<open>The fields of consensus that exist with the feature only, and the calls made so far. A node without the
  feature is the field \<open>md_node\<close>.\<close>

record 'ts metered =
  md_node :: "'ts bft"
  md_timestamps :: "(transmission_id, int) imap"
  md_calls :: "metric_call list"

text \<open>The time of arrival is noted after the checksum and before every check.\<close>

definition note_arrival :: "metric \<Rightarrow> transmission_id \<Rightarrow> int \<Rightarrow> 'ts metered \<Rightarrow> 'ts metered" where
  "note_arrival k t now m =
     m\<lparr>md_timestamps := imap_insert t now (md_timestamps m), md_calls := md_calls m @ [IncrementGauge k 1]\<rparr>"

definition metered_add_solution ::
  "'ts consensus_params \<Rightarrow> int \<Rightarrow> solution \<Rightarrow> 'ts metered \<Rightarrow> (consensus_error, unit) result \<times> 'ts metered" where
  "metered_add_solution C now x m =
     (let m1 = (case Option.bind (cn_solution_bytes C x) (\<lambda>bs. cr_solution_checksum (cn_crypto C) (Buffer bs)) of
                  None \<Rightarrow> m
                | Some ck \<Rightarrow> note_arrival ConsensusUnconfirmedSolutions (SolutionID (sol_id x) ck) now m);
          (r, b) = add_unconfirmed_solution C x (md_node m)
      in (r, m1\<lparr>md_node := b\<rparr>))"

definition metered_add_transaction ::
  "'ts consensus_params \<Rightarrow> int \<Rightarrow> transaction \<Rightarrow> 'ts metered \<Rightarrow> (consensus_error, unit) result \<times> 'ts metered" where
  "metered_add_transaction C now x m =
     (let m1 = (case Option.bind (cn_transaction_bytes C x) (\<lambda>bs. cr_transaction_checksum (cn_crypto C) (Buffer bs)) of
                  None \<Rightarrow> m
                | Some ck \<Rightarrow> note_arrival ConsensusUnconfirmedTransactions (TransactionID (tx_id x) ck) now m);
          (r, b) = add_unconfirmed_transaction C x (md_node m)
      in (r, m1\<lparr>md_node := b\<rparr>))"

text \<open>The report of an accepted block: first the ledger service, then the latencies, then the values of
  the block. \<open>previous\<close> is the latest block before.\<close>

definition metered_try_advance ::
  "'ts consensus_params \<Rightarrow> block_reader \<Rightarrow> int \<Rightarrow> subdag \<Rightarrow> transmissions \<Rightarrow> 'ts metered \<Rightarrow>
   (consensus_error, unit) result \<times> 'ts metered" where
  "metered_try_advance C K now sd ts m =
     (let ledger = cl_ledger (bft_ledger (md_node m)); previous = latest_block (bft_ledger (md_node m));
          (r, b) = try_advance_to_next_block C sd ts (md_node m); m1 = m\<lparr>md_node := b\<rparr>
      in case (r, cn_prepare C ledger sd ts) of
           (Inr _, Some blk) \<Rightarrow>
             (let (queue, latencies) = add_transmission_latency_metric K now blk (md_timestamps m)
              in (r, m1\<lparr>md_timestamps := queue, md_calls := md_calls m @ ledger_calls K blk @ latencies @
                   [Gauge ConsensusCommittedCertificates (length (subdag_certificates sd)),
                    Histogram ConsensusCertificateCommitLatency (int (elapsed_secs now (br_leader_timestamp K sd))),
                    Histogram ConsensusBlockLatency (i64_wrap (br_timestamp K blk - br_timestamp K previous)),
                    Gauge BlocksProofTarget (br_proof_target K blk),
                    Gauge BlocksCoinbaseTarget (br_coinbase_target K blk),
                    Gauge BlocksCumulativeProofTarget (br_cumulative_proof_target K blk)]\<rparr>))
         | _ \<Rightarrow> (r, m1))"

section \<open>What the queue keeps\<close>

lemma elapsed_exact: "in_i64 (now - ts) \<Longrightarrow> elapsed_secs now ts = nat ((now - ts) mod 2 ^ 64)"
  by (simp add: elapsed_secs_def i64_wrap_id)

text \<open>An entry counts as stale if it is older than the threshold, or if it comes from the future.\<close>

lemma stale_iff:
  assumes "in_i64 (now - ts)"
  shows "elapsed_secs now ts \<le> AGE_THRESHOLD_SECONDS \<longleftrightarrow> 0 \<le> now - ts \<and> now - ts \<le> 1800"
proof (cases "0 \<le> now - ts")
  case True
  then have "(now - ts) mod 2 ^ 64 = now - ts" using assms by (simp add: in_i64_def)
  then show ?thesis using True by (simp add: elapsed_exact [OF assms] AGE_THRESHOLD_SECONDS_def nat_le_iff)
next
  case False
  have "(now - ts) mod 2 ^ 64 = (now - ts + 2 ^ 64) mod 2 ^ 64" by simp
  also have "\<dots> = now - ts + 2 ^ 64" using False assms by (intro mod_pos_pos_trivial) (simp_all add: in_i64_def)
  finally have "(now - ts) mod 2 ^ 64 \<ge> 2 ^ 63" using assms by (simp add: in_i64_def)
  then show ?thesis using False by (simp add: elapsed_exact [OF assms] AGE_THRESHOLD_SECONDS_def nat_le_iff)
qed

fun in_block :: "block_reader \<Rightarrow> block \<Rightarrow> transmission_id \<Rightarrow> bool" where
  "in_block K blk (SolutionID i _) \<longleftrightarrow> i \<in> fst ` set (blk_solutions blk) \<or> i \<in> set (blk_aborted_solution_ids blk)"
| "in_block K blk (TransactionID i _) \<longleftrightarrow> i \<in> set (br_transaction_ids K blk) \<or> i \<in> set (blk_aborted_transaction_ids blk)"
| "in_block K blk RatificationID \<longleftrightarrow> False"

lemma transmission_type_None:
  "transmission_type (block_solution_ids blk) (block_transaction_ids K blk) t = None \<longleftrightarrow> \<not> in_block K blk t"
  by (cases t) (auto simp: block_solution_ids_def block_transaction_ids_def)

lemma latency_call_key: "latency_call S T now p = Some (k, c) \<Longrightarrow> k = fst p"
  by (auto simp: latency_call_def Let_def split: prod.splits if_splits option.splits)

lemma latency_call_None:
  "latency_call (block_solution_ids blk) (block_transaction_ids K blk) now (t, ts) = None \<longleftrightarrow>
     elapsed_secs now ts \<le> AGE_THRESHOLD_SECONDS \<and> \<not> in_block K blk t"
  by (auto simp: latency_call_def Let_def transmission_type_None [symmetric] split: option.splits)

lemma remove_all: "fold imap_shift_remove ks m = filter (\<lambda>p. fst p \<notin> set ks) m"
proof (induction ks arbitrary: m)
  case (Cons k ks)
  have "AList.delete k m = filter (\<lambda>p. fst p \<noteq> k) m"
    by (induction m) auto
  then show ?case using Cons by (auto intro: filter_cong)
qed simp

lemma reported_keys:
  "map fst (List.map_filter (latency_call S T now) q) = map fst (filter (\<lambda>p. latency_call S T now p \<noteq> None) q)"
proof (induction q)
  case (Cons p q)
  show ?case
    using Cons latency_call_key [of S T now p]
    by (cases "latency_call S T now p") (auto simp: List.map_filter_simps)
qed (simp add: List.map_filter_simps)

lemma queue_after_block:
  assumes "imap_wf q"
  shows "fst (add_transmission_latency_metric K now blk q) =
    filter (\<lambda>p. elapsed_secs now (snd p) \<le> AGE_THRESHOLD_SECONDS \<and> \<not> in_block K blk (fst p)) q"
proof -
  let ?f = "latency_call (block_solution_ids blk) (block_transaction_ids K blk) now"
  have "fst p \<notin> set (map fst (List.map_filter ?f q)) \<longleftrightarrow> ?f p = None" if "p \<in> set q" for p
  proof -
    obtain t ts where p: "p = (t, ts)" by (cases p)
    have "(t, ts') \<in> set q \<longleftrightarrow> ts' = ts" for ts' using that assms eq_key_imp_eq_value [of q t] p by auto
    then show ?thesis unfolding reported_keys by (cases "?f (t, ts)") (auto simp: p image_iff)
  qed
  moreover have "?f p = None \<longleftrightarrow> elapsed_secs now (snd p) \<le> AGE_THRESHOLD_SECONDS \<and> \<not> in_block K blk (fst p)" for p
    using latency_call_None [of blk K now "fst p" "snd p"] by simp
  ultimately show ?thesis
    by (simp add: add_transmission_latency_metric_def remove_all cong: filter_cong)
qed

lemma calls_after_block:
  "length (snd (add_transmission_latency_metric K now blk q)) =
     length (filter (\<lambda>p. \<not> (elapsed_secs now (snd p) \<le> AGE_THRESHOLD_SECONDS \<and> \<not> in_block K blk (fst p))) q)"
proof -
  let ?f = "latency_call (block_solution_ids blk) (block_transaction_ids K blk) now"
  have "?f p \<noteq> None \<longleftrightarrow> \<not> (elapsed_secs now (snd p) \<le> AGE_THRESHOLD_SECONDS \<and> \<not> in_block K blk (fst p))" for p
    using latency_call_None [of blk K now "fst p" "snd p"] by simp
  moreover have "length (List.map_filter ?f q) = length (filter (\<lambda>p. ?f p \<noteq> None) q)"
    using arg_cong [OF reported_keys, of length] by simp
  ultimately show ?thesis by (simp add: add_transmission_latency_metric_def Let_def)
qed

lemma stale_call_iff:
  "map_option snd (latency_call S T now p) = Some (IncrementCounter ConsensusStaleUnconfirmedTransmissions) \<longleftrightarrow>
     AGE_THRESHOLD_SECONDS < elapsed_secs now (snd p)"
  by (auto simp: latency_call_def Let_def split: prod.splits option.splits)

lemma stale_calls:
  "length (filter (\<lambda>c. c = IncrementCounter ConsensusStaleUnconfirmedTransmissions)
      (map snd (List.map_filter (latency_call S T now) q))) =
   length (filter (\<lambda>p. AGE_THRESHOLD_SECONDS < elapsed_secs now (snd p)) q)"
proof (induction q)
  case (Cons p q)
  show ?case
    using Cons stale_call_iff [of S T now p]
    by (cases "latency_call S T now p") (auto simp: List.map_filter_simps)
qed (simp add: List.map_filter_simps)

lemma add_fee:
  assumes "tx_is_fee x"
    and "Option.bind (cn_transaction_bytes C x) (\<lambda>bs. cr_transaction_checksum (cn_crypto C) (Buffer bs)) = Some ck"
  shows "metered_add_transaction C now x m = (Inl FeeRejected,
    note_arrival ConsensusUnconfirmedTransactions (TransactionID (tx_id x) ck) now m)"
  using assms by (simp add: metered_add_transaction_def add_unconfirmed_transaction_def note_arrival_def)

lemma metered_wf:
  "imap_wf (md_timestamps m) \<Longrightarrow> imap_wf (md_timestamps (snd (metered_add_solution C now x m)))"
  "imap_wf (md_timestamps m) \<Longrightarrow> imap_wf (md_timestamps (snd (metered_add_transaction C now y m)))"
  "imap_wf (md_timestamps m) \<Longrightarrow> imap_wf (md_timestamps (snd (metered_try_advance C K now sd ts m)))"
  using queue_after_block [of "md_timestamps m" K now]
  by (auto simp: metered_add_solution_def metered_add_transaction_def metered_try_advance_def note_arrival_def Let_def
      split_beta distinct_map_filter split: option.splits sum.splits)

end
