(* ===== verification/MetricsProps.thy ===== *)
theory MetricsProps
  imports Metrics NodeProps "HOL-Library.Multiset"
begin

text \<open>
  Properties of the metrics: what the queue of arrival times keeps and loses, that refused transactions stay
  in it, that a block is counted in any order, and which metrics a start registers.
\<close>

section \<open>Properties\<close>

text \<open>After a block, the queue of arrival times holds exactly the entries of the last 1800 seconds whose transmission is not in
  the block, in their order; every entry that goes is reported once, as stale or with its latency. An
  entry from the future, after the clock went back, is dropped as stale.\<close>

theorem latency_queue_exact:
  assumes "imap_wf q" "\<forall>(t, ts)\<in>set q. in_i64 (now - ts)" "add_transmission_latency_metric K now blk q = (q', calls)"
  shows "q' = filter (\<lambda>(t, ts). 0 \<le> now - ts \<and> now - ts \<le> 1800 \<and> \<not> in_block K blk t) q \<and>
    length q' + length calls = length q \<and>
    length (filter (\<lambda>c. c = IncrementCounter ConsensusStaleUnconfirmedTransmissions) calls) =
      length (filter (\<lambda>(t, ts). now - ts < 0 \<or> 1800 < now - ts) q)"
proof -
  let ?P = "\<lambda>p. elapsed_secs now (snd p) \<le> AGE_THRESHOLD_SECONDS \<and> \<not> in_block K blk (fst p)"
  have age: "elapsed_secs now (snd p) \<le> AGE_THRESHOLD_SECONDS \<longleftrightarrow> 0 \<le> now - snd p \<and> now - snd p \<le> 1800"
    if "p \<in> set q" for p
    using assms(2) that stale_iff [of now "snd p"] by auto
  have q': "q' = filter ?P q" using queue_after_block [OF assms(1), of K now blk] assms(3) by simp
  have "length (filter ?P q) + length (filter (\<lambda>p. \<not> ?P p) q) = length q" by (rule sum_length_filter_compl)
  then have len: "length q' + length calls = length q"
    using calls_after_block [of K now blk q] assms(3) by (simp add: q')
  have "length (filter (\<lambda>c. c = IncrementCounter ConsensusStaleUnconfirmedTransmissions) calls) =
      length (filter (\<lambda>p. AGE_THRESHOLD_SECONDS < elapsed_secs now (snd p)) q)"
    using assms(3) stale_calls by (auto simp: add_transmission_latency_metric_def Let_def)
  also have "filter (\<lambda>p. AGE_THRESHOLD_SECONDS < elapsed_secs now (snd p)) q =
      filter (\<lambda>(t, ts). now - ts < 0 \<or> 1800 < now - ts) q"
    using age by (intro filter_cong) (auto simp: not_le [symmetric])
  finally show ?thesis
    using len age by (auto simp: q' case_prod_beta intro!: filter_cong)
qed


text \<open>The queue changes with the node: an accepted block leaves the fresh entries that are not in it, a failed
  attempt leaves the queue and reports nothing.\<close>

theorem queue_follows_block:
  assumes "imap_wf (md_timestamps m)" "\<forall>(t, ts)\<in>set (md_timestamps m). in_i64 (now - ts)"
    and "metered_try_advance C K now sd tm m = (r, m')"
  shows "case r of
      Inl _ \<Rightarrow> md_timestamps m' = md_timestamps m \<and> md_calls m' = md_calls m
    | Inr _ \<Rightarrow> \<exists>blk. cn_prepare C (cl_ledger (bft_ledger (md_node m))) sd tm = Some blk \<and>
        md_timestamps m' =
          filter (\<lambda>(t, ts). 0 \<le> now - ts \<and> now - ts \<le> 1800 \<and> \<not> in_block K blk t) (md_timestamps m)"
proof -
  have age: "elapsed_secs now (snd p) \<le> AGE_THRESHOLD_SECONDS \<longleftrightarrow> 0 \<le> now - snd p \<and> now - snd p \<le> 1800"
    if "p \<in> set (md_timestamps m)" for p
    using assms(2) that stale_iff [of now "snd p"] by auto
  have q: "fst (add_transmission_latency_metric K now blk (md_timestamps m)) =
      filter (\<lambda>(t, ts). 0 \<le> now - ts \<and> now - ts \<le> 1800 \<and> \<not> in_block K blk t) (md_timestamps m)" for blk
    unfolding queue_after_block [OF assms(1)] using age by (intro filter_cong) auto
  obtain x b where t: "try_advance_to_next_block C sd tm (md_node m) = (x, b)" by fastforce
  show ?thesis
  proof (cases x)
    case (Inl e)
    then show ?thesis using assms(3) t by (auto simp: metered_try_advance_def)
  next
    case (Inr u)
    then obtain blk where "cn_prepare C (cl_ledger (bft_ledger (md_node m))) sd tm = Some blk"
      using t by (auto simp: try_advance_to_next_block_def split: option.splits)
    then show ?thesis
      using assms(3) t Inr q [of blk] by (auto simp: metered_try_advance_def Let_def split_beta)
  qed
qed

text \<open>The transactions of a block are counted exactly, in whatever order a parallel iterator visits them.\<close>

lemma count_exact:
  "accepted_deploy n + length ts < 2 ^ 64 \<Longrightarrow> accepted_execute n + length ts < 2 ^ 64 \<Longrightarrow>
   rejected_deploy n + length ts < 2 ^ 64 \<Longrightarrow> rejected_execute n + length ts < 2 ^ 64 \<Longrightarrow>
   fold count_transaction ts n =
     \<lparr>accepted_deploy = accepted_deploy n + count_list ts AcceptedDeploy,
      accepted_execute = accepted_execute n + count_list ts AcceptedExecute,
      rejected_deploy = rejected_deploy n + count_list ts RejectedDeploy,
      rejected_execute = rejected_execute n + count_list ts RejectedExecute\<rparr>"
proof (induction ts arbitrary: n)
  case (Cons t ts)
  then show ?case by (cases t) simp_all
qed simp

theorem block_counts_order_free:
  assumes "mset ts = mset ts'" "length ts < 2 ^ 64"
  shows "fold count_transaction ts no_transactions = fold count_transaction ts' no_transactions \<and>
    accepted_deploy (fold count_transaction ts no_transactions) + accepted_execute (fold count_transaction ts no_transactions) +
    rejected_deploy (fold count_transaction ts no_transactions) + rejected_execute (fold count_transaction ts no_transactions) =
      length ts"
proof -
  have len: "length ts' = length ts" using assms(1) by (metis size_mset)
  have cnt: "count_list ts k = count_list ts' k" for k using assms(1) by (metis count_mset)
  have sum: "count_list ts AcceptedDeploy + count_list ts AcceptedExecute + count_list ts RejectedDeploy +
      count_list ts RejectedExecute = length ts" for ts
  proof (induction ts)
    case (Cons t ts)
    then show ?case by (cases t) simp_all
  qed simp
  show ?thesis
    using count_exact [of no_transactions ts] count_exact [of no_transactions ts'] assms(2) len cnt sum [of ts]
    by (simp add: no_transactions_def)
qed

text \<open>No two metrics have one name. All the metrics of the start are registered, but of the metrics that the
  node reports, the latency of transmissions is not among them.\<close>

theorem transmission_latency_unregistered:
  "distinct (map metric_name (GAUGE_NAMES @ COUNTER_NAMES @ HISTOGRAM_NAMES @ [ConsensusTransmissionLatency])) \<and>
   (\<forall>calls. initialize_metrics installs ip = Some calls \<longrightarrow>
      RegisterHistogram ConsensusTransmissionLatency \<notin> set calls)"
  by (auto simp: initialize_metrics_def GAUGE_NAMES_def COUNTER_NAMES_def HISTOGRAM_NAMES_def)

section \<open>Concrete runs\<close>

definition sample_reader :: block_reader where
  "sample_reader =
     \<lparr>br_confirmed = (\<lambda>_. [AcceptedExecute]), br_transaction_ids = (\<lambda>_. [5]), br_timestamp = (\<lambda>b. int (blk_height b)),
      br_proof_target = (\<lambda>_. 1), br_coinbase_target = (\<lambda>_. 1), br_cumulative_proof_target = (\<lambda>_. 1),
      br_leader_timestamp = (\<lambda>_. 0)\<rparr>"

definition sample_arrivals :: "(transmission_id, int) imap" where
  "sample_arrivals = [(TransactionID 5 1, 1990), (TransactionID 6 1, 100), (SolutionID 7 1, 1995), (SolutionID 8 1, 2001)]"

theorem latency_queue_exact_witness:
  "fst (add_transmission_latency_metric sample_reader 2000 (sample_block 1) sample_arrivals) = [(SolutionID 7 1, 1995)]"
proof -
  obtain q calls where a: "add_transmission_latency_metric sample_reader 2000 (sample_block 1) sample_arrivals = (q, calls)"
    by fastforce
  have "imap_wf sample_arrivals" "\<forall>(t, ts)\<in>set sample_arrivals. in_i64 (2000 - ts)"
    by (simp_all add: sample_arrivals_def in_i64_def)
  from latency_queue_exact [OF this a] show ?thesis
    using a by (simp add: sample_arrivals_def sample_reader_def sample_block_def)
qed

definition sample_fee :: "nat \<Rightarrow> transaction" where
  "sample_fee i = \<lparr>tx_id = i, tx_kind = Fee, tx_body = 0\<rparr>"

definition sample_metered :: "memory_service metered" where
  "sample_metered = \<lparr>md_node = sample_started, md_timestamps = [], md_calls = []\<rparr>"


end
