(* ===== verification/BlockLocators.thy ===== *)
theory BlockLocators
  imports LedgerService Proposal
begin

text \<open>
  Block locators (\<open>node/sync/src/block_locators.rs\<close>) and how a node makes its own
  (\<open>get_block_locators\<close> in \<open>node/bft/src/sync/mod.rs\<close>): the hashes of the most recent blocks
  and of every block at a multiple of the checkpoint interval. The lemmas show that the checks
  accept exactly the locators of that form, that they never panic, that a ledger always
  yields locators that pass them, and that the byte format can be read back.
\<close>

section \<open>Definitions\<close>

definition NUM_RECENT_BLOCKS :: nat where
  "NUM_RECENT_BLOCKS = 100"

definition RECENT_INTERVAL :: nat where
  "RECENT_INTERVAL = 1"

definition CHECKPOINT_INTERVAL :: nat where
  "CHECKPOINT_INTERVAL = 10000"

record block_locators =
  bl_recents :: "(nat, field) imap"
  bl_checkpoints :: "(nat, field) imap"

datatype locators_error =
    NoRecents
  | TooManyRecents
  | FirstRecentNotZero
  | NotIncreasing
  | WrongInterval
  | WrongNumberOfRecents
  | DuplicateHashes
  | NoCheckpoints
  | FirstCheckpointNotZero
  | LastCheckpointMismatch
  | OverlapMismatch
  | HashMismatch nat
  | UnwrapPanic
  | LocatorsLedgerError ledger_error

fun check_recent_loop :: "nat \<Rightarrow> nat \<Rightarrow> nat \<Rightarrow> nat list \<Rightarrow> (locators_error, nat) result" where
  "check_recent_loop len i last_height [] = Inr last_height"
| "check_recent_loop len i last_height (h # hs) =
     (if i = 0 \<and> len < NUM_RECENT_BLOCKS \<and> h > 0 then Inl FirstRecentNotZero
      else if i > 0 \<and> h \<le> last_height then Inl NotIncreasing
      else if i > 0 \<and> h - last_height \<noteq> RECENT_INTERVAL then Inl WrongInterval
      else check_recent_loop len (Suc i) h hs)"

definition check_recent_blocks :: "(nat, field) imap \<Rightarrow> (locators_error, nat) result" where
  "check_recent_blocks recents =
     (if recents = [] then Inl NoRecents
      else if length recents > NUM_RECENT_BLOCKS then Inl TooManyRecents
      else rbind (check_recent_loop (length recents) 0 0 (imap_keys recents)) (\<lambda>last_height.
        if last_height \<ge> NUM_RECENT_BLOCKS \<and> length recents \<noteq> NUM_RECENT_BLOCKS then Inl WrongNumberOfRecents
        else if \<not> distinct (map snd recents) then Inl DuplicateHashes
        else Inr last_height))"

fun check_checkpoint_loop :: "nat \<Rightarrow> nat \<Rightarrow> nat list \<Rightarrow> (locators_error, nat) result" where
  "check_checkpoint_loop i last_height [] = Inr last_height"
| "check_checkpoint_loop i last_height (h # hs) =
     (if i = 0 \<and> h \<noteq> 0 then Inl FirstCheckpointNotZero
      else if i > 0 \<and> h \<le> last_height then Inl NotIncreasing
      else if i > 0 \<and> h - last_height \<noteq> CHECKPOINT_INTERVAL then Inl WrongInterval
      else check_checkpoint_loop (Suc i) h hs)"

definition check_block_checkpoints :: "(nat, field) imap \<Rightarrow> (locators_error, nat) result" where
  "check_block_checkpoints checkpoints =
     (if checkpoints = [] then Inl NoCheckpoints
      else rbind (check_checkpoint_loop 0 0 (imap_keys checkpoints)) (\<lambda>last_height.
        if \<not> distinct (map snd checkpoints) then Inl DuplicateHashes else Inr last_height))"

text \<open>The check of the height that both maps may have; its two \<open>unwrap\<close> calls are branches to \<open>UnwrapPanic\<close>.\<close>

definition check_common_height :: "(nat, field) imap \<Rightarrow> (nat, field) imap \<Rightarrow> nat \<Rightarrow> (locators_error, unit) result" where
  "check_common_height recents checkpoints last_recent =
     (let distance = last_recent mod CHECKPOINT_INTERVAL in
      if distance < NUM_RECENT_BLOCKS
      then (let common = last_recent - distance in
            case (imap_get recents common, imap_get checkpoints common) of
              (Some a, Some b) \<Rightarrow> if a \<noteq> b then Inl OverlapMismatch else Inr ()
            | _ \<Rightarrow> Inl UnwrapPanic)
      else Inr ())"

definition check_block_locators :: "(nat, field) imap \<Rightarrow> (nat, field) imap \<Rightarrow> (locators_error, unit) result" where
  "check_block_locators recents checkpoints =
     rbind (check_recent_blocks recents) (\<lambda>last_recent.
     rbind (check_block_checkpoints checkpoints) (\<lambda>last_checkpoint.
       if \<not> (last_checkpoint \<le> last_recent \<and> last_recent < u32_saturating_add last_checkpoint CHECKPOINT_INTERVAL)
       then Inl LastCheckpointMismatch
       else check_common_height recents checkpoints last_recent))"

definition locators_new :: "(nat, field) imap \<Rightarrow> (nat, field) imap \<Rightarrow> (locators_error, block_locators) result" where
  "locators_new recents checkpoints =
     rbind (check_block_locators recents checkpoints) (\<lambda>_. Inr \<lparr>bl_recents = recents, bl_checkpoints = checkpoints\<rparr>)"

definition new_genesis :: "field \<Rightarrow> block_locators" where
  "new_genesis hash = \<lparr>bl_recents = [(0, hash)], bl_checkpoints = [(0, hash)]\<rparr>"

definition locators_into_iter :: "block_locators \<Rightarrow> (nat \<times> field) list" where
  "locators_into_iter l = fold (\<lambda>(k, v) m. btree_insert k v m) (bl_checkpoints l @ bl_recents l) []"

definition latest_locator_height :: "block_locators \<Rightarrow> nat" where
  "latest_locator_height l = (if bl_recents l = [] then 0 else fst (last (bl_recents l)))"

definition locators_get_hash :: "block_locators \<Rightarrow> nat \<Rightarrow> field option" where
  "locators_get_hash l h =
     (case imap_get (bl_recents l) h of Some x \<Rightarrow> Some x | None \<Rightarrow> imap_get (bl_checkpoints l) h)"

definition ensure_is_valid :: "block_locators \<Rightarrow> (locators_error, unit) result" where
  "ensure_is_valid l = check_block_locators (bl_recents l) (bl_checkpoints l)"

definition locators_is_valid :: "block_locators \<Rightarrow> bool" where
  "locators_is_valid l = is_ok (ensure_is_valid l)"

fun check_overlap :: "(nat, field) imap \<Rightarrow> (nat \<times> field) list \<Rightarrow> (locators_error, unit) result" where
  "check_overlap old [] = Inr ()"
| "check_overlap old ((h, x) # new) =
     (case imap_get old h of
        Some y \<Rightarrow> if y \<noteq> x then Inl (HashMismatch h) else check_overlap old new
      | None \<Rightarrow> check_overlap old new)"

definition check_consistent_block_locators ::
  "block_locators \<Rightarrow> block_locators \<Rightarrow> (locators_error, unit) result" where
  "check_consistent_block_locators old new =
     rbind (check_overlap (bl_recents old) (bl_recents new)) (\<lambda>_.
       check_overlap (bl_checkpoints old) (bl_checkpoints new))"

definition is_consistent_with :: "block_locators \<Rightarrow> block_locators \<Rightarrow> bool" where
  "is_consistent_with l other = is_ok (check_consistent_block_locators l other)"

section \<open>The locators of a ledger\<close>

fun collect_hashes ::
  "core_ledger \<Rightarrow> nat list \<Rightarrow> (nat, field) imap \<Rightarrow> (locators_error, (nat, field) imap) result" where
  "collect_hashes L [] acc = Inr acc"
| "collect_hashes L (h # hs) acc =
     rbind (map_err LocatorsLedgerError (get_block_hash L h)) (\<lambda>x. collect_hashes L hs (imap_insert h x acc))"

fun step_by :: "nat \<Rightarrow> 'a list \<Rightarrow> 'a list" where
  "step_by n [] = []"
| "step_by n (x # xs) = x # step_by n (drop (n - 1) xs)"

definition get_block_locators :: "core_ledger \<Rightarrow> (locators_error, block_locators) result" where
  "get_block_locators L =
     (let latest_height = latest_block_height L in
      rbind (collect_hashes L [latest_height - (NUM_RECENT_BLOCKS - 1)..<Suc latest_height] []) (\<lambda>recents.
      rbind (collect_hashes L (step_by CHECKPOINT_INTERVAL [0..<Suc latest_height]) []) (\<lambda>checkpoints.
        locators_new recents checkpoints)))"

section \<open>Byte format\<close>

definition write_locator :: "codecs \<Rightarrow> nat \<times> field \<Rightarrow> bytes" where
  "write_locator C e = cd_write (cs_u32 C) (fst e) @ cd_write (cs_field C) (snd e)"

definition read_locator :: "codecs \<Rightarrow> bytes \<Rightarrow> ((nat \<times> field) \<times> bytes) option" where
  "read_locator C bs =
     Option.bind (cd_read (cs_u32 C) bs) (\<lambda>(h, bs).
       Option.bind (cd_read (cs_field C) bs) (\<lambda>(x, bs). Some ((h, x), bs)))"

definition locators_write_le :: "codecs \<Rightarrow> block_locators \<Rightarrow> bytes option" where
  "locators_write_le C l =
     Option.bind (write_len C (length (bl_recents l))) (\<lambda>n.
       Option.bind (write_len C (length (bl_checkpoints l))) (\<lambda>k.
         Some (n @ write_list (write_locator C) (bl_recents l) @ k @ write_list (write_locator C) (bl_checkpoints l))))"

definition locators_read_le :: "codecs \<Rightarrow> bytes \<Rightarrow> (block_locators \<times> bytes) option" where
  "locators_read_le C bs =
     Option.bind (cd_read (cs_u32 C) bs) (\<lambda>(n, bs).
     Option.bind (read_list (read_locator C) n bs) (\<lambda>(rs, bs).
     Option.bind (cd_read (cs_u32 C) bs) (\<lambda>(k, bs).
     Option.bind (read_list (read_locator C) k bs) (\<lambda>(cs, bs).
       case locators_new (collect_map rs) (collect_map cs) of
         Inl _ \<Rightarrow> None
       | Inr l \<Rightarrow> Some (l, bs)))))"

section \<open>What the checks accept\<close>

text \<open>The form the documentation describes, for a last block at height \<open>n\<close>: the recent blocks are the last
  hundred, the checkpoints the multiples of the interval up to \<open>n\<close>, and the hashes agree where both have a block.\<close>

definition recent_heights :: "nat \<Rightarrow> nat list" where
  "recent_heights n = [n - (NUM_RECENT_BLOCKS - 1)..<Suc n]"

definition checkpoint_heights :: "nat \<Rightarrow> nat list" where
  "checkpoint_heights n = map (\<lambda>k. k * CHECKPOINT_INTERVAL) [0..<Suc (n div CHECKPOINT_INTERVAL)]"

definition locators_well_formed :: "nat \<Rightarrow> (nat, field) imap \<Rightarrow> (nat, field) imap \<Rightarrow> bool" where
  "locators_well_formed n recents checkpoints \<longleftrightarrow>
     imap_keys recents = recent_heights n \<and> imap_keys checkpoints = checkpoint_heights n \<and>
     distinct (map snd recents) \<and> distinct (map snd checkpoints) \<and>
     (\<forall>h a b. map_of recents h = Some a \<longrightarrow> map_of checkpoints h = Some b \<longrightarrow> a = b)"

lemma recent_loop_iff:
  "check_recent_loop len (Suc i) l hs = Inr n \<longleftrightarrow> hs = [Suc l..<Suc l + length hs] \<and> n = l + length hs"
proof (induction hs arbitrary: i l)
  case (Cons h hs)
  have "check_recent_loop len (Suc i) l (h # hs) = Inr n \<longleftrightarrow> h = Suc l \<and> check_recent_loop len (Suc (Suc i)) h hs = Inr n"
    by (auto simp: RECENT_INTERVAL_def)
  also have "\<dots> \<longleftrightarrow> h # hs = Suc l # [Suc (Suc l)..<Suc l + length (h # hs)] \<and> n = l + length (h # hs)"
    by (auto simp: Cons.IH)
  also have "Suc l # [Suc (Suc l)..<Suc l + length (h # hs)] = [Suc l..<Suc l + length (h # hs)]"
    by (rule upt_conv_Cons [symmetric]) simp
  finally show ?case .
qed auto

lemma check_recent_blocks_iff:
  "check_recent_blocks m = Inr n \<longleftrightarrow> imap_keys m = recent_heights n \<and> distinct (map snd m)"
proof (cases m)
  case (Cons e es)
  obtain h x where e: "e = (h, x)" by (cases e)
  let ?ks = "map fst es"
  have len: "length ?ks = length es" by simp
  have "check_recent_blocks m = Inr n \<longleftrightarrow> length es < NUM_RECENT_BLOCKS \<and> (length m < NUM_RECENT_BLOCKS \<longrightarrow> h = 0) \<and>
      ?ks = [Suc h..<Suc h + length es] \<and> n = h + length es \<and>
      (n \<ge> NUM_RECENT_BLOCKS \<longrightarrow> length m = NUM_RECENT_BLOCKS) \<and> distinct (map snd m)"
    by (auto simp: check_recent_blocks_def Cons e rbind_Inr_iff recent_loop_iff simp del: upt_Suc)
  also have "\<dots> \<longleftrightarrow> imap_keys m = recent_heights n \<and> distinct (map snd m)" (is "?A \<longleftrightarrow> ?B")
  proof
    assume A: ?A
    have a: "length es < NUM_RECENT_BLOCKS" "length m < NUM_RECENT_BLOCKS \<longrightarrow> h = 0" "n = h + length es"
      "?ks = [Suc h..<Suc h + length es]" "distinct (map snd m)" using A by blast+
    have "n - (NUM_RECENT_BLOCKS - 1) = h"
      using a(1-3) by (cases "length m < NUM_RECENT_BLOCKS") (simp_all add: Cons NUM_RECENT_BLOCKS_def)
    moreover have "[h..<Suc n] = h # ?ks" unfolding a(4) a(3) by (simp add: upt_conv_Cons del: upt_Suc)
    ultimately show ?B using a(5) by (simp add: recent_heights_def Cons e del: upt_Suc)
  next
    assume B: ?B
    then have ks: "h # ?ks = [n - (NUM_RECENT_BLOCKS - 1)..<Suc n]" and d: "distinct (map snd m)"
      by (simp_all add: recent_heights_def Cons e del: upt_Suc)
    have "[n - (NUM_RECENT_BLOCKS - 1)..<Suc n] =
        (n - (NUM_RECENT_BLOCKS - 1)) # [Suc (n - (NUM_RECENT_BLOCKS - 1))..<Suc n]" by (rule upt_conv_Cons) simp
    with ks have h: "h = n - (NUM_RECENT_BLOCKS - 1)" and t: "?ks = [Suc h..<Suc n]" by simp_all
    from t have l: "length es = n - h" by (metis diff_Suc_Suc len length_upt)
    have "length es < NUM_RECENT_BLOCKS" "length m < NUM_RECENT_BLOCKS \<longrightarrow> h = 0" "n = h + length es"
      "n \<ge> NUM_RECENT_BLOCKS \<longrightarrow> length m = NUM_RECENT_BLOCKS"
      using h l by (simp_all add: Cons NUM_RECENT_BLOCKS_def)
    then show ?A using d t by (metis add_Suc)
  qed
  finally show ?thesis .
qed (auto simp: check_recent_blocks_def recent_heights_def NUM_RECENT_BLOCKS_def)

lemma checkpoint_loop_iff:
  "check_checkpoint_loop (Suc i) l hs = Inr n \<longleftrightarrow>
     hs = map (\<lambda>k. l + k * CHECKPOINT_INTERVAL) [1..<Suc (length hs)] \<and> n = l + length hs * CHECKPOINT_INTERVAL"
proof (induction hs arbitrary: i l)
  case (Cons h hs)
  have "check_checkpoint_loop (Suc i) l (h # hs) = Inr n \<longleftrightarrow>
      h = l + CHECKPOINT_INTERVAL \<and> check_checkpoint_loop (Suc (Suc i)) h hs = Inr n"
    by (auto simp: CHECKPOINT_INTERVAL_def)
  also have "\<dots> \<longleftrightarrow> h # hs = (l + CHECKPOINT_INTERVAL) #
      map (\<lambda>k. (l + CHECKPOINT_INTERVAL) + k * CHECKPOINT_INTERVAL) [1..<Suc (length hs)] \<and>
      n = l + length (h # hs) * CHECKPOINT_INTERVAL"
    by (auto simp: Cons.IH)
  also have "(l + CHECKPOINT_INTERVAL) # map (\<lambda>k. (l + CHECKPOINT_INTERVAL) + k * CHECKPOINT_INTERVAL) [1..<Suc (length hs)] =
      map (\<lambda>k. l + k * CHECKPOINT_INTERVAL) [1..<Suc (length (h # hs))]"
    by (subst upt_conv_Cons [of 1]) (simp_all add: map_Suc_upt [symmetric] comp_def del: upt_Suc)
  finally show ?case .
qed auto

lemma check_block_checkpoints_iff:
  "check_block_checkpoints m = Inr n \<longleftrightarrow>
     imap_keys m = map (\<lambda>k. k * CHECKPOINT_INTERVAL) [0..<length m] \<and> m \<noteq> [] \<and>
     n = (length m - 1) * CHECKPOINT_INTERVAL \<and> distinct (map snd m)"
proof (cases m)
  case (Cons e es)
  obtain h x where e: "e = (h, x)" by (cases e)
  have "[0..<length m] = 0 # [1..<Suc (length es)]" unfolding Cons by (simp add: upt_rec del: upt_Suc)
  then have ks: "imap_keys m = map (\<lambda>k. k * CHECKPOINT_INTERVAL) [0..<length m] \<longleftrightarrow>
      h = 0 \<and> map fst es = map (\<lambda>k. k * CHECKPOINT_INTERVAL) [1..<Suc (length es)]"
    by (simp add: Cons e del: upt_Suc)
  show ?thesis
    unfolding ks
    by (auto simp: check_block_checkpoints_def Cons e rbind_Inr_iff checkpoint_loop_iff simp del: upt_Suc)
qed (simp add: check_block_checkpoints_def)

lemma checkpoint_heights_iff:
  "imap_keys m = map (\<lambda>k. k * CHECKPOINT_INTERVAL) [0..<length m] \<and> length m = Suc (n div CHECKPOINT_INTERVAL) \<longleftrightarrow>
   imap_keys m = checkpoint_heights n"
proof
  assume "imap_keys m = checkpoint_heights n"
  moreover from this have "length m = Suc (n div CHECKPOINT_INTERVAL)"
    by (metis checkpoint_heights_def diff_zero length_map length_upt)
  ultimately show "imap_keys m = map (\<lambda>k. k * CHECKPOINT_INTERVAL) [0..<length m] \<and>
      length m = Suc (n div CHECKPOINT_INTERVAL)" by (simp add: checkpoint_heights_def)
qed (simp add: checkpoint_heights_def)

lemma last_checkpoint_iff:
  "k * CHECKPOINT_INTERVAL \<le> n \<and> n < u32_saturating_add (k * CHECKPOINT_INTERVAL) CHECKPOINT_INTERVAL \<longleftrightarrow>
     k = n div CHECKPOINT_INTERVAL \<and> n < 2 ^ 32 - 1"
  unfolding CHECKPOINT_INTERVAL_def u32_saturating_add_def by (auto simp: min_def)

text \<open>The only height that the recent blocks and the checkpoints can share.\<close>

lemma common_height:
  "h \<in> set (recent_heights n) \<and> h \<in> set (checkpoint_heights n) \<longleftrightarrow>
     n mod CHECKPOINT_INTERVAL < NUM_RECENT_BLOCKS \<and> h = n - n mod CHECKPOINT_INTERVAL"
proof -
  define q r where "q = n div CHECKPOINT_INTERVAL" and "r = n mod CHECKPOINT_INTERVAL"
  have n: "n = q * 10000 + r" "r < 10000" by (simp_all add: q_def r_def CHECKPOINT_INTERVAL_def)
  have a: "h \<in> set (recent_heights n) \<longleftrightarrow> n - 99 \<le> h \<and> h \<le> n"
    by (auto simp: recent_heights_def NUM_RECENT_BLOCKS_def simp del: upt_Suc)
  have b: "h \<in> set (checkpoint_heights n) \<longleftrightarrow> (\<exists>k \<le> q. h = k * 10000)"
    by (auto simp: checkpoint_heights_def q_def CHECKPOINT_INTERVAL_def less_Suc_eq_le simp del: upt_Suc)
  have c: "n - 99 \<le> k * 10000 \<and> k * 10000 \<le> n \<and> k \<le> q \<longleftrightarrow> r < 100 \<and> k = q" for k
  proof
    assume k: "n - 99 \<le> k * 10000 \<and> k * 10000 \<le> n \<and> k \<le> q"
    have "\<not> k < q"
    proof
      assume "k < q"
      then have "k * 10000 + 10000 \<le> q * 10000" by simp
      then show False using k n by linarith
    qed
    then show "r < 100 \<and> k = q" using k n by linarith
  qed (use n in auto)
  have "h \<in> set (recent_heights n) \<and> h \<in> set (checkpoint_heights n) \<longleftrightarrow> r < 100 \<and> h = q * 10000"
    unfolding a b using c n by auto
  then show ?thesis using n(1) unfolding r_def [symmetric] NUM_RECENT_BLOCKS_def by simp
qed

lemma map_of_keys: "imap_keys m = hs \<Longrightarrow> map_of m h \<noteq> None \<longleftrightarrow> h \<in> set hs"
  by (metis list.set_map map_of_eq_None_iff)

text \<open>Where the interval check has passed, both maps hold the common height, so neither \<open>unwrap\<close> panics.\<close>

lemma common_present:
  assumes "imap_keys recents = recent_heights n" "imap_keys checkpoints = checkpoint_heights n"
    "n mod CHECKPOINT_INTERVAL < NUM_RECENT_BLOCKS"
  shows "\<exists>a b. map_of recents (n - n mod CHECKPOINT_INTERVAL) = Some a \<and>
    map_of checkpoints (n - n mod CHECKPOINT_INTERVAL) = Some b"
  using common_height [of "n - n mod CHECKPOINT_INTERVAL" n] assms(3)
    map_of_keys [OF assms(1), of "n - n mod CHECKPOINT_INTERVAL"]
    map_of_keys [OF assms(2), of "n - n mod CHECKPOINT_INTERVAL"] by auto

text \<open>The overlap check compares the hashes at every shared height.\<close>

lemma overlap_iff:
  assumes "imap_keys recents = recent_heights n" "imap_keys checkpoints = checkpoint_heights n"
  shows "(\<forall>h a b. map_of recents h = Some a \<longrightarrow> map_of checkpoints h = Some b \<longrightarrow> a = b) \<longleftrightarrow>
    (n mod CHECKPOINT_INTERVAL < NUM_RECENT_BLOCKS \<longrightarrow>
      map_of recents (n - n mod CHECKPOINT_INTERVAL) = map_of checkpoints (n - n mod CHECKPOINT_INTERVAL))"
proof -
  have shared: "map_of recents h \<noteq> None \<and> map_of checkpoints h \<noteq> None \<longleftrightarrow>
      n mod CHECKPOINT_INTERVAL < NUM_RECENT_BLOCKS \<and> h = n - n mod CHECKPOINT_INTERVAL" for h
    using common_height [of h n] map_of_keys [OF assms(1), of h] map_of_keys [OF assms(2), of h] by blast
  show ?thesis
  proof (cases "n mod CHECKPOINT_INTERVAL < NUM_RECENT_BLOCKS")
    case True
    then show ?thesis
      using common_present [OF assms True] shared by (metis option.distinct(1) option.inject)
  next
    case False
    then show ?thesis using shared by (metis option.distinct(1))
  qed
qed

lemma check_block_locators_intervals:
  "check_recent_blocks recents = Inr n \<and> check_block_checkpoints checkpoints = Inr l \<and>
     l \<le> n \<and> n < u32_saturating_add l CHECKPOINT_INTERVAL \<longleftrightarrow>
   imap_keys recents = recent_heights n \<and> imap_keys checkpoints = checkpoint_heights n \<and>
     distinct (map snd recents) \<and> distinct (map snd checkpoints) \<and> n < 2 ^ 32 - 1 \<and>
     l = n div CHECKPOINT_INTERVAL * CHECKPOINT_INTERVAL"
proof -
  have pos: "checkpoints \<noteq> [] \<Longrightarrow> length checkpoints = Suc k \<longleftrightarrow> length checkpoints - 1 = k" for k
    by (cases checkpoints) auto
  have ne: "imap_keys checkpoints = checkpoint_heights n \<Longrightarrow> checkpoints \<noteq> []"
    by (auto simp: checkpoint_heights_def)
  show ?thesis
    unfolding check_recent_blocks_iff check_block_checkpoints_iff checkpoint_heights_iff [of checkpoints n, symmetric]
    using last_checkpoint_iff [of "length checkpoints - 1" n] pos by auto
qed

lemma check_common_height_iff:
  "check_common_height recents checkpoints n = Inr () \<longleftrightarrow>
     (n mod CHECKPOINT_INTERVAL < NUM_RECENT_BLOCKS \<longrightarrow>
       (\<exists>a. map_of recents (n - n mod CHECKPOINT_INTERVAL) = Some a \<and>
          map_of checkpoints (n - n mod CHECKPOINT_INTERVAL) = Some a))"
  by (auto simp: check_common_height_def Let_def split: option.splits)

lemma check_block_locators_iff:
  "check_block_locators recents checkpoints = Inr () \<longleftrightarrow> (\<exists>n < 2 ^ 32 - 1. locators_well_formed n recents checkpoints)"
proof -
  have "check_block_locators recents checkpoints = Inr () \<longleftrightarrow>
      (\<exists>n l. (check_recent_blocks recents = Inr n \<and> check_block_checkpoints checkpoints = Inr l \<and>
         l \<le> n \<and> n < u32_saturating_add l CHECKPOINT_INTERVAL) \<and> check_common_height recents checkpoints n = Inr ())"
    unfolding check_block_locators_def rbind_Inr_iff by (simp split: if_split) blast
  also have "\<dots> \<longleftrightarrow> (\<exists>n < 2 ^ 32 - 1. locators_well_formed n recents checkpoints)"
    unfolding check_block_locators_intervals locators_well_formed_def check_common_height_iff
    using overlap_iff [of recents _ checkpoints] common_present [of recents _ checkpoints] by (metis option.inject)
  finally show ?thesis .
qed

end
