(* ===== verification/LocatorProps.thy ===== *)
theory LocatorProps
  imports BlockLocators
begin

text \<open>
  What block locators promise: a node's own locators always pass the checks, locators of one
  chain taken at two moments are consistent, reading undoes writing, and the checks accept
  exactly the documented form and never panic.
\<close>

section \<open>Collecting the hashes of a ledger\<close>

abbreviation ledger_hash :: "core_ledger \<Rightarrow> nat \<Rightarrow> field option" where
  "ledger_hash L \<equiv> sl_get_hash (cl_ledger L)"

definition hashes_at :: "core_ledger \<Rightarrow> nat list \<Rightarrow> (nat, field) imap" where
  "hashes_at L hs = map (\<lambda>h. (h, the (ledger_hash L h))) hs"

lemma collect_hashes_all:
  assumes "\<forall>h \<in> set hs. ledger_hash L h \<noteq> None" "distinct (map fst acc @ hs)"
  shows "collect_hashes L hs acc = Inr (acc @ hashes_at L hs)"
  using assms
proof (induction hs arbitrary: acc)
  case (Cons h hs)
  then obtain x where x: "ledger_hash L h = Some x" by auto
  have "h \<notin> fst ` set acc" using Cons.prems(2) by auto
  then show ?case
    using Cons.IH [of "acc @ [(h, x)]"] Cons.prems x
    by (simp add: update_fresh get_block_hash_def hashes_at_def)
qed (simp add: hashes_at_def)

lemma keys_hashes_at: "imap_keys (hashes_at L hs) = hs"
  by (simp add: hashes_at_def comp_def)

lemma map_of_hashes_at:
  "map_of (hashes_at L hs) h = (if h \<in> set hs then Some (the (ledger_hash L h)) else None)"
  by (simp add: hashes_at_def map_of_map_restrict restrict_map_def)

lemma distinct_hashes_at:
  assumes "distinct hs" "inj_on (ledger_hash L) (set hs)" "\<forall>h \<in> set hs. ledger_hash L h \<noteq> None"
  shows "distinct (map snd (hashes_at L hs))"
proof -
  have "inj_on (\<lambda>h. the (ledger_hash L h)) (set hs)"
    using assms(2,3) by (intro inj_onI) (metis inj_onD option.expand)
  then show ?thesis using assms(1) by (simp add: hashes_at_def comp_def distinct_map)
qed

lemma step_by_upt:
  assumes "0 < d"
  shows "a \<le> b \<Longrightarrow> step_by d [a..<Suc b] = map (\<lambda>k. a + k * d) [0..<Suc ((b - a) div d)]"
proof (induction "b - a" arbitrary: a rule: less_induct)
  case less
  have "[a..<Suc b] = a # [Suc a..<Suc b]" using less.prems by (simp add: upt_conv_Cons del: upt_Suc)
  then have split: "step_by d [a..<Suc b] = a # step_by d [a + d..<Suc b]"
    using assms by (simp add: add.commute del: upt_Suc)
  show ?case
  proof (cases "a + d \<le> b")
    case True
    have "(b - a) div d = Suc ((b - (a + d)) div d)"
      using True assms by (simp add: le_div_geq [of d "b - a"])
    then show ?thesis
      using split less.hyps [of "a + d"] True assms
      by (simp add: upt_conv_Cons [of 0] map_Suc_upt [symmetric] comp_def add.assoc del: upt_Suc)
  next
    case False
    then have "b - a < d" using less.prems by arith
    then have "(b - a) div d = 0" by simp
    then show ?thesis using split False by (simp del: upt_Suc) simp
  qed
qed

lemma checkpoint_step_by: "step_by CHECKPOINT_INTERVAL [0..<Suc n] = checkpoint_heights n"
  using step_by_upt [of CHECKPOINT_INTERVAL 0 n] by (simp add: checkpoint_heights_def CHECKPOINT_INTERVAL_def)

lemma locator_heights_bounded:
  "h \<in> set (recent_heights n) \<Longrightarrow> h \<le> n" "h \<in> set (checkpoint_heights n) \<Longrightarrow> h \<le> n"
  "distinct (recent_heights n)" "distinct (checkpoint_heights n)"
proof -
  show "h \<in> set (recent_heights n) \<Longrightarrow> h \<le> n" "distinct (recent_heights n)"
    by (auto simp: recent_heights_def simp del: upt_Suc)
  show "distinct (checkpoint_heights n)"
    by (auto simp: checkpoint_heights_def CHECKPOINT_INTERVAL_def distinct_map inj_on_def simp del: upt_Suc)
  assume "h \<in> set (checkpoint_heights n)"
  then obtain k where "k \<le> n div CHECKPOINT_INTERVAL" "h = k * CHECKPOINT_INTERVAL"
    by (auto simp: checkpoint_heights_def less_Suc_eq_le simp del: upt_Suc)
  then show "h \<le> n" using div_times_less_eq_dividend [of n CHECKPOINT_INTERVAL] mult_le_mono1 le_trans by blast
qed

lemma set_recent_heights: "h \<in> set (recent_heights n) \<longleftrightarrow> h \<le> n \<and> n < h + NUM_RECENT_BLOCKS"
  by (auto simp: recent_heights_def NUM_RECENT_BLOCKS_def simp del: upt_Suc)

lemma set_checkpoint_heights: "h \<in> set (checkpoint_heights n) \<longleftrightarrow> h \<le> n \<and> h mod CHECKPOINT_INTERVAL = 0"
proof
  assume h: "h \<in> set (checkpoint_heights n)"
  then have "h mod CHECKPOINT_INTERVAL = 0" by (auto simp: checkpoint_heights_def simp del: upt_Suc)
  then show "h \<le> n \<and> h mod CHECKPOINT_INTERVAL = 0" using locator_heights_bounded(2) h by blast
next
  assume h: "h \<le> n \<and> h mod CHECKPOINT_INTERVAL = 0"
  then have "h = h div CHECKPOINT_INTERVAL * CHECKPOINT_INTERVAL" "h div CHECKPOINT_INTERVAL \<le> n div CHECKPOINT_INTERVAL"
    by (auto simp: div_le_mono)
  then show "h \<in> set (checkpoint_heights n)"
    unfolding checkpoint_heights_def set_map set_upt
    by (intro image_eqI [of _ _ "h div CHECKPOINT_INTERVAL"]) auto
qed

lemma locator_heights_iff:
  "h \<in> set (recent_heights n) \<or> h \<in> set (checkpoint_heights n) \<longleftrightarrow>
     h \<le> n \<and> (n < h + NUM_RECENT_BLOCKS \<or> h mod CHECKPOINT_INTERVAL = 0)"
  by (auto simp: set_recent_heights set_checkpoint_heights)

text \<open>A chain: every height up to the latest has a hash, and the hashes differ.\<close>

definition hashes_known :: "core_ledger \<Rightarrow> bool" where
  "hashes_known L \<longleftrightarrow> latest_block_height L < 2 ^ 32 - 1 \<and>
     (\<forall>h \<le> latest_block_height L. ledger_hash L h \<noteq> None) \<and> inj_on (ledger_hash L) {..latest_block_height L}"

definition ledger_locators :: "core_ledger \<Rightarrow> block_locators" where
  "ledger_locators L =
     \<lparr>bl_recents = hashes_at L (recent_heights (latest_block_height L)),
      bl_checkpoints = hashes_at L (checkpoint_heights (latest_block_height L))\<rparr>"

lemma ledger_locators_well_formed:
  assumes "hashes_known L"
  shows "locators_well_formed (latest_block_height L)
    (bl_recents (ledger_locators L)) (bl_checkpoints (ledger_locators L))"
proof -
  have d: "distinct (map snd (hashes_at L hs))"
    if "distinct hs" "\<And>h. h \<in> set hs \<Longrightarrow> h \<le> latest_block_height L" for hs
    using assms that by (intro distinct_hashes_at) (auto simp: hashes_known_def intro: inj_on_subset)
  show ?thesis
    unfolding locators_well_formed_def ledger_locators_def
    using d [OF locator_heights_bounded(3)] d [OF locator_heights_bounded(4)] locator_heights_bounded(1,2)
    by (auto simp: keys_hashes_at map_of_hashes_at split: if_splits)
qed

lemma get_block_locators_eq:
  assumes "hashes_known L"
  shows "get_block_locators L = Inr (ledger_locators L)"
proof -
  have c: "collect_hashes L hs [] = Inr (hashes_at L hs)"
    if "distinct hs" "\<And>h. h \<in> set hs \<Longrightarrow> h \<le> latest_block_height L" for hs
    using assms that by (subst collect_hashes_all) (auto simp: hashes_known_def)
  have "check_block_locators (bl_recents (ledger_locators L)) (bl_checkpoints (ledger_locators L)) = Inr ()"
    using ledger_locators_well_formed [OF assms] assms unfolding check_block_locators_iff hashes_known_def by blast
  then show ?thesis
    using c [OF locator_heights_bounded(3) locator_heights_bounded(1)]
      c [OF locator_heights_bounded(4) locator_heights_bounded(2)]
    by (simp add: get_block_locators_def Let_def checkpoint_step_by recent_heights_def [symmetric]
        locators_new_def ledger_locators_def del: upt_Suc One_nat_def)
qed

lemma latest_of_recents:
  assumes "imap_keys (bl_recents l) = recent_heights n"
  shows "latest_locator_height l = n"
proof -
  have "recent_heights n \<noteq> []" "last (recent_heights n) = n"
    by (simp_all add: recent_heights_def)
  then show ?thesis
    using assms by (auto simp: latest_locator_height_def last_map [symmetric])
qed

lemma check_overlap_iff:
  assumes "imap_wf new"
  shows "check_overlap old new = Inr () \<longleftrightarrow> (\<forall>h a b. map_of old h = Some a \<longrightarrow> map_of new h = Some b \<longrightarrow> a = b)"
proof -
  have "check_overlap old new = Inr () \<longleftrightarrow> (\<forall>(h, b) \<in> set new. \<forall>a. map_of old h = Some a \<longrightarrow> a = b)"
    by (induction old new rule: check_overlap.induct) (simp_all split: option.split)
  also have "\<dots> \<longleftrightarrow> (\<forall>h b. map_of new h = Some b \<longrightarrow> (\<forall>a. map_of old h = Some a \<longrightarrow> a = b))"
    using map_of_eq_Some_iff [OF assms] by fastforce
  finally show ?thesis by blast
qed

lemma is_consistent_with_iff:
  assumes "imap_wf (bl_recents new)" "imap_wf (bl_checkpoints new)"
  shows "is_consistent_with old new \<longleftrightarrow>
    (\<forall>h a b. map_of (bl_recents old) h = Some a \<longrightarrow> map_of (bl_recents new) h = Some b \<longrightarrow> a = b) \<and>
    (\<forall>h a b. map_of (bl_checkpoints old) h = Some a \<longrightarrow> map_of (bl_checkpoints new) h = Some b \<longrightarrow> a = b)"
  unfolding is_consistent_with_def is_ok_iff check_consistent_block_locators_def rbind_Inr_iff
    check_overlap_iff [OF assms(1), symmetric] check_overlap_iff [OF assms(2), symmetric] by auto

lemma check_common_height_no_panic:
  assumes "check_recent_blocks recents = Inr n" "check_block_checkpoints checkpoints = Inr l"
    "l \<le> n" "n < u32_saturating_add l CHECKPOINT_INTERVAL"
  shows "check_common_height recents checkpoints n \<noteq> Inl UnwrapPanic"
proof -
  have "imap_keys recents = recent_heights n" "imap_keys checkpoints = checkpoint_heights n"
    using assms check_block_locators_intervals [of recents n checkpoints l] by blast+
  from common_present [OF this] show ?thesis
    by (auto simp: check_common_height_def Let_def split: option.splits)
qed

lemma check_loops_no_panic:
  "check_recent_loop len i l hs \<noteq> Inl UnwrapPanic" "check_checkpoint_loop i l hs \<noteq> Inl UnwrapPanic"
proof -
  show "check_recent_loop len i l hs \<noteq> Inl UnwrapPanic"
    by (induction len i l hs rule: check_recent_loop.induct) auto
  show "check_checkpoint_loop i l hs \<noteq> Inl UnwrapPanic"
    by (induction i l hs rule: check_checkpoint_loop.induct) auto
qed

lemma read_write_locator:
  "codecs_ok C \<Longrightarrow> fst e < 2 ^ 32 \<Longrightarrow> read_locator C (write_locator C e @ rest) = Some (e, rest)"
  by (simp add: read_locator_def write_locator_def codecs_okD)

section \<open>Properties\<close>

text \<open>C32: the locators that pass the checks are exactly those whose recent blocks are the last hundred heights
  up to the latest one, whose checkpoints are the multiples of the interval up to it, whose hashes do not repeat
  and agree where both maps have the height, and whose latest height is below the largest 32-bit value.\<close>

theorem valid_locators_exact:
  "locators_is_valid l \<longleftrightarrow> latest_locator_height l < 2 ^ 32 - 1 \<and>
     locators_well_formed (latest_locator_height l) (bl_recents l) (bl_checkpoints l)"
proof -
  have "locators_is_valid l \<longleftrightarrow> (\<exists>n < 2 ^ 32 - 1. locators_well_formed n (bl_recents l) (bl_checkpoints l))"
    by (simp add: locators_is_valid_def ensure_is_valid_def is_ok_iff check_block_locators_iff)
  then show ?thesis using latest_of_recents [of l] unfolding locators_well_formed_def by blast
qed

text \<open>Checking block locators, which may come from a faulty peer, never panics: whenever the check of the
  common height is reached, both maps hold that height, so neither of its two unwraps fails.\<close>

theorem locators_check_never_panics: "check_block_locators recents checkpoints \<noteq> Inl UnwrapPanic"
proof -
  have "check_recent_blocks recents \<noteq> Inl UnwrapPanic" "check_block_checkpoints checkpoints \<noteq> Inl UnwrapPanic"
    using check_loops_no_panic
    by (auto simp: check_recent_blocks_def check_block_checkpoints_def rbind_Inl_iff split: if_splits)
  then show ?thesis
    using check_common_height_no_panic [of recents _ checkpoints]
    by (auto simp: check_block_locators_def rbind_Inl_iff split: if_splits)
qed

text \<open>A node whose ledger has a hash for every block, no two the same, always makes valid locators: they end
  at the latest block, and they answer with the ledger's hash at the last hundred heights and at every
  multiple of the interval, and with nothing at any other height.\<close>

theorem own_locators_valid:
  assumes "hashes_known L"
  shows "\<exists>l. get_block_locators L = Inr l \<and> locators_is_valid l \<and> latest_locator_height l = latest_block_height L \<and>
    locators_get_hash l h =
      (if h \<le> latest_block_height L \<and> (latest_block_height L < h + NUM_RECENT_BLOCKS \<or> h mod CHECKPOINT_INTERVAL = 0)
       then sl_get_hash (cl_ledger L) h else None)"
proof -
  let ?n = "latest_block_height L"
  have wf: "locators_well_formed ?n (bl_recents (ledger_locators L)) (bl_checkpoints (ledger_locators L))"
    by (rule ledger_locators_well_formed [OF assms])
  have small: "?n < 2 ^ 32 - 1" using assms by (simp add: hashes_known_def)
  have "locators_is_valid (ledger_locators L)"
    using wf small by (auto simp: locators_is_valid_def ensure_is_valid_def is_ok_iff check_block_locators_iff)
  moreover have "latest_locator_height (ledger_locators L) = ?n"
    using wf latest_of_recents unfolding locators_well_formed_def by blast
  moreover have "locators_get_hash (ledger_locators L) h =
      (if h \<in> set (recent_heights ?n) \<or> h \<in> set (checkpoint_heights ?n) then Some (the (ledger_hash L h)) else None)"
    by (simp add: locators_get_hash_def ledger_locators_def map_of_hashes_at)
  moreover have "h \<le> ?n \<Longrightarrow> Some (the (ledger_hash L h)) = ledger_hash L h"
    using assms by (auto simp: hashes_known_def)
  ultimately show ?thesis
    unfolding locator_heights_iff get_block_locators_eq [OF assms] by auto
qed

text \<open>Locators of one chain are consistent with each other: the locators a node makes later, when its ledger
  has more blocks and the same hashes for the old ones, are consistent with those it made before.\<close>

theorem locators_of_one_chain_consistent:
  assumes "hashes_known L" "hashes_known L'" "latest_block_height L \<le> latest_block_height L'"
    and same: "\<And>h. h \<le> latest_block_height L \<Longrightarrow> sl_get_hash (cl_ledger L') h = sl_get_hash (cl_ledger L) h"
    and l: "get_block_locators L = Inr l" "get_block_locators L' = Inr l'"
  shows "is_consistent_with l l' \<and> is_consistent_with l' l"
proof -
  have eq: "l = ledger_locators L" "l' = ledger_locators L'"
    using l get_block_locators_eq assms(1,2) by simp_all
  have wf: "imap_wf (bl_recents (ledger_locators M))" "imap_wf (bl_checkpoints (ledger_locators M))" for M
    by (simp_all add: ledger_locators_def keys_hashes_at locator_heights_bounded del: map_map)
  show ?thesis
    unfolding eq is_consistent_with_iff [OF wf]
    using same locator_heights_bounded(1,2)
    by (auto simp: ledger_locators_def map_of_hashes_at split: if_splits)
qed

text \<open>Reading back what was written gives the same locators and leaves the rest of the input unread, for every
  valid locators.\<close>

theorem locators_round_trip:
  assumes C: "codecs_ok C" and "locators_is_valid l"
  shows "\<exists>bs. locators_write_le C l = Some bs \<and> locators_read_le C (bs @ rest) = Some (l, rest)"
proof -
  obtain n where n: "n < 2 ^ 32 - 1" and wf: "locators_well_formed n (bl_recents l) (bl_checkpoints l)"
    and ok: "check_block_locators (bl_recents l) (bl_checkpoints l) = Inr ()"
    using assms(2) by (auto simp: locators_is_valid_def ensure_is_valid_def is_ok_iff check_block_locators_iff)
  have keys: "imap_keys (bl_recents l) = recent_heights n" "imap_keys (bl_checkpoints l) = checkpoint_heights n"
    using wf by (simp_all add: locators_well_formed_def)
  have w: "imap_wf (bl_recents l)" "imap_wf (bl_checkpoints l)"
    by (simp_all add: keys locator_heights_bounded del: distinct_map)
  have len: "length m < 2 ^ 32" if "imap_keys m = hs" "distinct hs" "\<And>h. h \<in> set hs \<Longrightarrow> h \<le> n" for m :: "(nat, field) imap" and hs
  proof -
    have "card (set hs) \<le> card {..n}" using that(3) by (intro card_mono) auto
    then show ?thesis using n that(2) arg_cong [OF that(1), of length] by (simp add: distinct_card)
  qed
  have small: "fst e < 2 ^ 32" if "e \<in> set m" "imap_keys m = hs" "\<And>h. h \<in> set hs \<Longrightarrow> h \<le> n"
    for e and m :: "(nat, field) imap" and hs
  proof -
    have "fst e \<in> set hs" using that(1,2) by auto
    then show ?thesis using that(3) [of "fst e"] n by simp
  qed
  have rl: "read_list (read_locator C) (length m) (write_list (write_locator C) m @ rest') = Some (m, rest')"
    if "imap_keys m = hs" "\<And>h. h \<in> set hs \<Longrightarrow> h \<le> n" for m hs rest'
    using read_write_locator [OF C small [OF _ that]] by (rule read_write_list)
  note lens = len [OF keys(1) locator_heights_bounded(3,1)] len [OF keys(2) locator_heights_bounded(4,2)]
  note rls = rl [OF keys(1) locator_heights_bounded(1)] rl [OF keys(2) locator_heights_bounded(2)]
  show ?thesis
    using lens
    by (simp add: locators_write_le_def write_len_def locators_read_le_def codecs_okD(1) [OF C] rls
        collect_map_distinct [OF w(1)] collect_map_distinct [OF w(2)] locators_new_def ok)
qed

section \<open>Witnesses\<close>

text \<open>A ledger of a given height whose block hashes are the heights.\<close>

definition sample_chain :: "nat \<Rightarrow> core_ledger" where
  "sample_chain n = core_ledger_new (sample_ledger\<lparr>sl_latest_height := n, sl_get_hash := Some\<rparr>) False"

lemma sample_chain_simps:
  "latest_block_height (sample_chain n) = n" "sl_get_hash (cl_ledger (sample_chain n)) h = Some h"
  "n < 2 ^ 32 - 1 \<Longrightarrow> hashes_known (sample_chain n)"
  by (simp_all add: sample_chain_def core_ledger_new_def latest_block_height_def hashes_known_def)

theorem own_locators_valid_witness:
  "\<exists>l. get_block_locators (sample_chain 10050) = Inr l \<and> locators_is_valid l \<and> locators_get_hash l 10000 = Some 10000"
  using own_locators_valid [of "sample_chain 10050" 10000]
  by (auto simp: sample_chain_simps CHECKPOINT_INTERVAL_def)

theorem locators_of_one_chain_consistent_witness:
  "\<exists>l l'. get_block_locators (sample_chain 150) = Inr l \<and> get_block_locators (sample_chain 10050) = Inr l' \<and>
     is_consistent_with l l'"
proof -
  have k: "hashes_known (sample_chain 150)" "hashes_known (sample_chain 10050)"
    by (simp_all add: sample_chain_simps)
  note g = get_block_locators_eq [OF k(1)] get_block_locators_eq [OF k(2)]
  have "is_consistent_with (ledger_locators (sample_chain 150)) (ledger_locators (sample_chain 10050))"
    by (rule locators_of_one_chain_consistent [OF k _ _ g, THEN conjunct1]) (simp_all add: sample_chain_simps)
  then show ?thesis using g by blast
qed

theorem locators_round_trip_witness:
  "\<exists>bs. locators_write_le sample_codecs (new_genesis 7) = Some bs \<and>
     locators_read_le sample_codecs (bs @ [5]) = Some (new_genesis 7, [5])"
  by (rule locators_round_trip [OF sample_codecs_ok])
    (simp add: locators_is_valid_def ensure_is_valid_def new_genesis_def check_block_locators_def
      check_recent_blocks_def check_block_checkpoints_def check_common_height_def NUM_RECENT_BLOCKS_def
      CHECKPOINT_INTERVAL_def u32_saturating_add_def)

end
