(* ===== verification/SampleLocators.thy ===== *)
theory SampleLocators
  imports LocatorProps
begin

text \<open>
  The simulated block locators of \<open>node/sync/src/block_locators.rs\<close> (module \<open>test_helpers\<close>, part of the
  library under its \<open>test\<close> feature). The field operations \<open>from_u32\<close> and negation are not under \<open>src/\<close>:
  they are the arguments \<open>fld\<close> and \<open>neg\<close>. The documentation says that both functions return well-formed
  locators; the lemmas give the exact inputs at which they do.
\<close>

section \<open>Definitions\<close>

datatype sample_panic =
    ForkAboveHeight
  | ForkNotRecent
  | LocatorsUnwrap locators_error

definition sample_range :: "nat \<Rightarrow> nat list" where
  "sample_range height =
     (if height < NUM_RECENT_BLOCKS then [0..<Suc height]
      else [height - NUM_RECENT_BLOCKS + 1..<Suc height])"

fun sample_loop :: "(nat \<Rightarrow> field) \<Rightarrow> nat list \<Rightarrow> (nat, field) imap \<Rightarrow> (nat, field) imap" where
  "sample_loop value_at [] m = m"
| "sample_loop value_at (i # is) m = sample_loop value_at is (imap_insert i (value_at i) m)"

definition sample_block_locators :: "(nat \<Rightarrow> field) \<Rightarrow> nat \<Rightarrow> (sample_panic, block_locators) result" where
  "sample_block_locators fld height =
     (let recents = sample_loop fld (sample_range height) [];
          checkpoints = sample_loop fld (step_by CHECKPOINT_INTERVAL [0..<Suc height]) []
      in map_err LocatorsUnwrap (locators_new recents checkpoints))"

definition sample_block_locators_with_fork ::
  "(nat \<Rightarrow> field) \<Rightarrow> (field \<Rightarrow> field) \<Rightarrow> nat \<Rightarrow> nat \<Rightarrow> (sample_panic, block_locators) result" where
  "sample_block_locators_with_fork fld neg height fork_height =
     (if \<not> fork_height \<le> height then Inl ForkAboveHeight
      else if \<not> height - fork_height < NUM_RECENT_BLOCKS then Inl ForkNotRecent
      else
        let recents = sample_loop (\<lambda>i. if i \<ge> fork_height then neg (fld i) else fld i) (sample_range height) [];
            checkpoints = sample_loop fld (step_by CHECKPOINT_INTERVAL [0..<Suc height]) []
        in map_err LocatorsUnwrap (locators_new recents checkpoints))"

section \<open>The maps that the loops build\<close>

lemma sample_range_recent: "sample_range height = recent_heights height"
proof (cases "height < NUM_RECENT_BLOCKS")
  case True
  then have "height - (NUM_RECENT_BLOCKS - 1) = 0" by simp
  then show ?thesis using True by (simp add: sample_range_def recent_heights_def del: upt_Suc)
next
  case False
  then have "height - (NUM_RECENT_BLOCKS - 1) = height - NUM_RECENT_BLOCKS + 1"
    by (simp add: NUM_RECENT_BLOCKS_def)
  then show ?thesis using False by (simp add: sample_range_def recent_heights_def del: upt_Suc)
qed

lemma sample_loop_eq:
  "distinct (map fst m @ is) \<Longrightarrow> sample_loop v is m = m @ map (\<lambda>i. (i, v i)) is"
proof (induction v "is" m rule: sample_loop.induct)
  case (2 v i "is" m)
  then have "i \<notin> fst ` set m" by auto
  then show ?case using 2 by (simp add: update_fresh)
qed simp

lemma map_of_samples: "map_of (map (\<lambda>i. (i, v i)) is) h = (if h \<in> set is then Some (v h) else None)"
  by (simp add: map_of_map_restrict restrict_map_def)

text \<open>Locators filled from two functions pass the check exactly when neither repeats a hash and they agree at
  the heights that the two maps share.\<close>

lemma filled_locators_accepted:
  defines "recents v n \<equiv> sample_loop v (sample_range n) []"
    and "checkpoints w n \<equiv> sample_loop w (step_by CHECKPOINT_INTERVAL [0..<Suc n]) []"
  shows "locators_new (recents v n) (checkpoints w n) = Inr l \<longleftrightarrow>
    l = \<lparr>bl_recents = map (\<lambda>i. (i, v i)) (recent_heights n),
         bl_checkpoints = map (\<lambda>i. (i, w i)) (checkpoint_heights n)\<rparr> \<and> n < 2 ^ 32 - 1 \<and>
    inj_on v (set (recent_heights n)) \<and> inj_on w (set (checkpoint_heights n)) \<and>
    (\<forall>h. h \<in> set (recent_heights n) \<and> h \<in> set (checkpoint_heights n) \<longrightarrow> v h = w h)"
proof -
  let ?r = "map (\<lambda>i. (i, v i)) (recent_heights n)" and ?c = "map (\<lambda>i. (i, w i)) (checkpoint_heights n)"
  have r: "recents v n = ?r" and c: "checkpoints w n = ?c"
    unfolding recents_def checkpoints_def sample_range_recent checkpoint_step_by
    using locator_heights_bounded(3,4) [of n] by (simp_all add: sample_loop_eq)
  have keys: "imap_keys ?r = recent_heights k \<longleftrightarrow> k = n" for k
  proof
    assume k: "imap_keys ?r = recent_heights k"
    have "last (recent_heights j) = j" for j by (simp add: recent_heights_def)
    then show "k = n" using k by (simp add: comp_def) metis
  qed (simp add: comp_def)
  have wf: "locators_well_formed n ?r ?c \<longleftrightarrow> inj_on v (set (recent_heights n)) \<and> inj_on w (set (checkpoint_heights n)) \<and>
      (\<forall>h. h \<in> set (recent_heights n) \<and> h \<in> set (checkpoint_heights n) \<longrightarrow> v h = w h)"
    using locator_heights_bounded(3,4) [of n]
    by (simp add: locators_well_formed_def comp_def distinct_map map_of_samples) blast
  have only: "locators_well_formed k ?r ?c \<Longrightarrow> k = n" for k
    using keys [of k] unfolding locators_well_formed_def by blast
  have "check_block_locators ?r ?c = Inr () \<longleftrightarrow> n < 2 ^ 32 - 1 \<and> locators_well_formed n ?r ?c"
    unfolding check_block_locators_iff using only by blast
  then show ?thesis unfolding r c by (auto simp: locators_new_def rbind_Inr_iff wf)
qed

section \<open>The inputs at which the functions return\<close>

text \<open>The documented behaviour of a prime field whose order exceeds \<open>2 ^ 33\<close>: 32-bit values are distinct
  elements, only zero is its own negation and no other value is the negation of one.\<close>

definition field_laws :: "(nat \<Rightarrow> field) \<Rightarrow> (field \<Rightarrow> field) \<Rightarrow> bool" where
  "field_laws fld neg \<longleftrightarrow> inj_on fld {..<2 ^ 32} \<and> inj_on (\<lambda>i. neg (fld i)) {..<2 ^ 32} \<and>
     (\<forall>i < 2 ^ 32. \<forall>j < 2 ^ 32. neg (fld i) = fld j \<longleftrightarrow> i = 0 \<and> j = 0)"

theorem sample_block_locators_returns:
  assumes "inj_on fld {..<2 ^ 32}" "height < 2 ^ 32"
  shows "(\<exists>l. sample_block_locators fld height = Inr l \<and> latest_locator_height l = height \<and>
      length (bl_checkpoints l) = height div CHECKPOINT_INTERVAL + 1 \<and>
      length (bl_recents l) = min (height + 1) NUM_RECENT_BLOCKS) \<longleftrightarrow> height \<noteq> 2 ^ 32 - 1"
proof -
  have i: "inj_on fld (set (recent_heights height))" "inj_on fld (set (checkpoint_heights height))"
    using assms(2) by (auto intro!: inj_on_subset [OF assms(1)] simp: set_recent_heights set_checkpoint_heights)
  let ?l = "\<lparr>bl_recents = map (\<lambda>i. (i, fld i)) (recent_heights height),
     bl_checkpoints = map (\<lambda>i. (i, fld i)) (checkpoint_heights height)\<rparr>"
  have eq: "sample_block_locators fld height = Inr l \<longleftrightarrow> l = ?l \<and> height < 2 ^ 32 - 1" for l
    unfolding sample_block_locators_def Let_def map_err_Inr_iff filled_locators_accepted using i by blast
  have "latest_locator_height ?l = height" by (rule latest_of_recents) (simp add: comp_def)
  moreover have "length (bl_checkpoints ?l) = height div CHECKPOINT_INTERVAL + 1"
    by (simp add: checkpoint_heights_def)
  moreover have "length (bl_recents ?l) = min (height + 1) NUM_RECENT_BLOCKS"
    by (simp add: recent_heights_def NUM_RECENT_BLOCKS_def min_def del: upt_Suc)
  ultimately show ?thesis using assms(2) by (auto simp: eq)
qed

text \<open>With a fork the function returns only when the fork spares every checkpoint above the genesis block: the
  recent map negates the hash of a checkpoint inside the fork, the checkpoint map does not, and the check
  compares the two.\<close>

theorem sample_fork_returns:
  assumes "field_laws fld neg" "height < 2 ^ 32 - 1"
  shows "(\<exists>l. sample_block_locators_with_fork fld neg height fork_height = Inr l) \<longleftrightarrow>
    fork_height \<le> height \<and> height < fork_height + NUM_RECENT_BLOCKS \<and>
    (\<forall>h. fork_height \<le> h \<and> h \<le> height \<and> h mod CHECKPOINT_INTERVAL = 0 \<longrightarrow> h = 0)"
proof -
  let ?v = "\<lambda>i. if i \<ge> fork_height then neg (fld i) else fld i"
  have f: "inj_on fld {..<2 ^ 32}" and g: "inj_on (\<lambda>i. neg (fld i)) {..<2 ^ 32}"
    and z: "\<And>i j. i < 2 ^ 32 \<Longrightarrow> j < 2 ^ 32 \<Longrightarrow> neg (fld i) = fld j \<longleftrightarrow> i = 0 \<and> j = 0"
    using assms(1) by (simp_all add: field_laws_def)
  have v: "inj_on ?v {..<2 ^ 32}"
  proof (rule inj_onI)
    fix i j assume ij: "i \<in> {..<2 ^ 32}" "j \<in> {..<2 ^ 32}" "?v i = ?v j"
    then have "i < 2 ^ 32" "j < 2 ^ 32" by simp_all
    then show "i = j"
      using ij z [of i j] z [of j i] inj_onD [OF f, of i j] inj_onD [OF g, of i j]
      by (cases "fork_height \<le> i"; cases "fork_height \<le> j") auto
  qed
  have le: "h \<in> set (recent_heights height) \<Longrightarrow> h < 2 ^ 32" "h \<in> set (checkpoint_heights height) \<Longrightarrow> h < 2 ^ 32" for h
    using assms(2) by (simp_all add: set_recent_heights set_checkpoint_heights)
  have i: "inj_on ?v (set (recent_heights height))" "inj_on fld (set (checkpoint_heights height))"
    using le by (auto intro!: inj_on_subset [OF v] inj_on_subset [OF f])
  have shared: "h \<in> set (recent_heights height) \<and> h \<in> set (checkpoint_heights height) \<longleftrightarrow>
      h \<le> height \<and> height < h + NUM_RECENT_BLOCKS \<and> h mod CHECKPOINT_INTERVAL = 0" for h
    unfolding set_recent_heights set_checkpoint_heights by blast
  have agree: "?v h = fld h \<longleftrightarrow> (fork_height \<le> h \<longrightarrow> h = 0)" if "h < 2 ^ 32" for h
    using z [OF that that] by auto
  have returns: "sample_block_locators_with_fork fld neg height fork_height = Inr l \<longleftrightarrow>
      fork_height \<le> height \<and> height - fork_height < NUM_RECENT_BLOCKS \<and>
      locators_new (sample_loop ?v (sample_range height) [])
        (sample_loop fld (step_by CHECKPOINT_INTERVAL [0..<Suc height]) []) = Inr l" for l
    by (simp add: sample_block_locators_with_fork_def Let_def map_err_Inr_iff del: upt_Suc)
  have "(\<exists>l. sample_block_locators_with_fork fld neg height fork_height = Inr l) \<longleftrightarrow>
      fork_height \<le> height \<and> height < fork_height + NUM_RECENT_BLOCKS \<and>
      (\<forall>h. h \<in> set (recent_heights height) \<and> h \<in> set (checkpoint_heights height) \<longrightarrow> ?v h = fld h)"
    unfolding returns filled_locators_accepted using i assms(2) by auto
  also have "\<dots> \<longleftrightarrow> fork_height \<le> height \<and> height < fork_height + NUM_RECENT_BLOCKS \<and>
      (\<forall>h. fork_height \<le> h \<and> h \<le> height \<and> h mod CHECKPOINT_INTERVAL = 0 \<longrightarrow> h = 0)"
    unfolding shared using agree assms(2) by (auto dest: le_less_trans)
  finally show ?thesis .
qed

text \<open>The fork of the last 51 blocks of a chain of height 10050 covers a checkpoint: the sample panics.\<close>

theorem sample_fork_at_checkpoint_panics:
  assumes "field_laws fld neg"
  shows "\<nexists>l. sample_block_locators_with_fork fld neg 10050 10000 = Inr l"
proof
  assume ex: "\<exists>l. sample_block_locators_with_fork fld neg 10050 10000 = Inr l"
  have small: "(10050::nat) < 2 ^ 32 - 1" by simp
  note spared = conjunct2 [OF conjunct2 [OF iffD1 [OF sample_fork_returns [OF assms small] ex]]]
  from spec [OF spared, of 10000] show False by (simp add: CHECKPOINT_INTERVAL_def)
qed

text \<open>A field of this kind exists: the residues of \<open>2 ^ 33\<close> with their additive inverse.\<close>

lemma field_laws_satisfiable: "field_laws id (\<lambda>x. if x = 0 then 0 else 2 ^ 33 - x)"
proof -
  let ?neg = "\<lambda>x :: nat. if x = 0 then 0 else 2 ^ 33 - x"
  have inj: "inj_on (\<lambda>i. ?neg (id i)) {..<2 ^ 32}"
  proof (rule inj_onI)
    fix i j :: nat assume a: "i \<in> {..<2 ^ 32}" "j \<in> {..<2 ^ 32}" "?neg (id i) = ?neg (id j)"
    then have "i < 4294967296" "j < 4294967296" by simp_all
    then show "i = j" using a(3) by (cases "i = 0"; cases "j = 0") simp_all
  qed
  have "?neg (id i) = id j \<longleftrightarrow> i = 0 \<and> j = 0" if "i < 2 ^ 32" "j < 2 ^ 32" for i j
    using that by (cases "i = 0") auto
  then show ?thesis using inj by (simp add: field_laws_def)
qed

end
