(* ===== verification/MockLedger.thy ===== *)
theory MockLedger
  imports LedgerService
begin

text \<open>
  The ledger that the tests of the repository run on (\<open>node/bft/ledger-service/src/mock.rs\<close>): a committee and, per
  height, the round and the hash of a block. What it does not support is a panic, here an error of its own. The
  lemmas show that its heights stay without gaps and that a block is found again by its hash, and where the mock differs
  from the ledger it stands for.
\<close>

section \<open>Definitions\<close>

record mock_ledger =
  mk_committee :: committee
  mk_blocks :: "(nat, nat \<times> field) imap"

datatype mock_error = MissingBlock | NotNextBlock nat nat | NotSupported

definition mock_new :: "committee \<Rightarrow> mock_ledger" where
  "mock_new c = \<lparr>mk_committee = c, mk_blocks = []\<rparr>"

text \<open>\<open>from_u32\<close> is the field element of a number, as a block hash.\<close>

definition mock_new_at_height :: "(nat \<Rightarrow> field) \<Rightarrow> committee \<Rightarrow> nat \<Rightarrow> mock_ledger" where
  "mock_new_at_height from_u32 c height =
     \<lparr>mk_committee = c, mk_blocks = fold (\<lambda>i. btree_insert i (u64_mul i 2, from_u32 i)) [0..<Suc height] []\<rparr>"

definition mock_latest_round :: "mock_ledger \<Rightarrow> nat" where
  "mock_latest_round m = (if mk_blocks m = [] then 0 else fst (last (mk_blocks m)))"

definition mock_latest_block_height :: "mock_ledger \<Rightarrow> nat" where
  "mock_latest_block_height m = (if mk_blocks m = [] then 0 else fst (last (mk_blocks m)))"

definition mock_latest_block :: "mock_ledger \<Rightarrow> (mock_error, block) result" where
  "mock_latest_block m = Inl NotSupported"

definition mock_latest_restrictions_id :: "field \<Rightarrow> mock_ledger \<Rightarrow> field" where
  "mock_latest_restrictions_id zero m = zero"

definition mock_latest_leader :: "mock_ledger \<Rightarrow> (nat \<times> address) option" where
  "mock_latest_leader m = None"

definition mock_update_latest_leader :: "mock_ledger \<Rightarrow> nat \<Rightarrow> address \<Rightarrow> mock_ledger" where
  "mock_update_latest_leader m round leader = m"

definition mock_contains_block_height :: "mock_ledger \<Rightarrow> nat \<Rightarrow> bool" where
  "mock_contains_block_height m h \<longleftrightarrow> imap_contains_key h (mk_blocks m)"

definition mock_get_block_height :: "mock_ledger \<Rightarrow> field \<Rightarrow> (mock_error, nat) result" where
  "mock_get_block_height m hash =
     ok_or MissingBlock (find_map (\<lambda>(height, _, h). if h = hash then Some height else None) (mk_blocks m))"

definition mock_get_block_hash :: "mock_ledger \<Rightarrow> nat \<Rightarrow> (mock_error, field) result" where
  "mock_get_block_hash m height = ok_or MissingBlock (map_option snd (imap_get (mk_blocks m) height))"

definition mock_get_block_round :: "mock_ledger \<Rightarrow> nat \<Rightarrow> (mock_error, nat) result" where
  "mock_get_block_round m height =
     ok_or MissingBlock (find_map (\<lambda>(h, round, _). if h = height then Some round else None) (mk_blocks m))"

definition mock_get_block :: "mock_ledger \<Rightarrow> nat \<Rightarrow> (mock_error, block) result" where
  "mock_get_block m h = Inl NotSupported"

definition mock_get_blocks :: "mock_ledger \<Rightarrow> nat \<Rightarrow> nat \<Rightarrow> (mock_error, block list) result" where
  "mock_get_blocks m lo hi = Inl NotSupported"

definition mock_get_solution :: "mock_ledger \<Rightarrow> solution_id \<Rightarrow> (mock_error, solution) result" where
  "mock_get_solution m i = Inl NotSupported"

definition mock_get_unconfirmed_transaction :: "mock_ledger \<Rightarrow> transaction_id \<Rightarrow> (mock_error, transaction) result" where
  "mock_get_unconfirmed_transaction m i = Inl NotSupported"

definition mock_get_batch_certificate :: "mock_ledger \<Rightarrow> field \<Rightarrow> (mock_error, certificate) result" where
  "mock_get_batch_certificate m i = Inl NotSupported"

definition mock_current_committee :: "mock_ledger \<Rightarrow> (mock_error, committee) result" where
  "mock_current_committee m = Inr (mk_committee m)"

definition mock_get_committee_for_round :: "mock_ledger \<Rightarrow> nat \<Rightarrow> (mock_error, committee) result" where
  "mock_get_committee_for_round m round = Inr (mk_committee m)"

definition mock_get_committee_lookback_for_round :: "mock_ledger \<Rightarrow> nat \<Rightarrow> (mock_error, committee) result" where
  "mock_get_committee_lookback_for_round m round = Inr (mk_committee m)"

definition mock_contains_certificate :: "mock_ledger \<Rightarrow> field \<Rightarrow> (mock_error, bool) result" where
  "mock_contains_certificate m i = Inr False"

definition mock_contains_transmission :: "mock_ledger \<Rightarrow> transmission_id \<Rightarrow> (mock_error, bool) result" where
  "mock_contains_transmission m t = Inr False"

definition mock_ensure_transmission_is_well_formed ::
  "mock_ledger \<Rightarrow> transmission_id \<Rightarrow> transmission \<Rightarrow> (mock_error, transmission) result" where
  "mock_ensure_transmission_is_well_formed m t x = Inr x"

definition mock_check_solution_basic :: "mock_ledger \<Rightarrow> solution_id \<Rightarrow> solution data \<Rightarrow> (mock_error, unit) result" where
  "mock_check_solution_basic m i x = Inr ()"

definition mock_check_transaction_basic :: "mock_ledger \<Rightarrow> transaction_id \<Rightarrow> transaction \<Rightarrow> (mock_error, unit) result" where
  "mock_check_transaction_basic m i x = Inr ()"

definition mock_check_next_block :: "mock_ledger \<Rightarrow> block \<Rightarrow> (mock_error, unit) result" where
  "mock_check_next_block m b = Inr ()"

definition mock_prepare_advance :: "mock_ledger \<Rightarrow> (mock_error, block) result" where
  "mock_prepare_advance m = Inl NotSupported"

definition mock_advance_to_next_block :: "mock_ledger \<Rightarrow> block \<Rightarrow> (mock_error, unit) result \<times> mock_ledger" where
  "mock_advance_to_next_block m b =
     (if blk_height b \<noteq> (mock_latest_block_height m + 1) mod 2 ^ 32
      then (Inl (NotNextBlock (blk_height b) (mock_latest_block_height m)), m)
      else (Inr (), m\<lparr>mk_blocks := btree_insert (blk_height b) (blk_round b, blk_hash b) (mk_blocks m)\<rparr>))"

definition mock_spent_cost :: "nat \<Rightarrow> mock_ledger \<Rightarrow> (mock_error, nat) result" where
  "mock_spent_cost transaction_spend_limit m = Inr transaction_spend_limit"

section \<open>Lemmas\<close>

text \<open>The heights are consecutive: from 0 or, for a mock that started empty, from 1.\<close>

definition mock_inv :: "mock_ledger \<Rightarrow> bool" where
  "mock_inv m \<longleftrightarrow> (\<exists>lo hi. lo \<le> 1 \<and> map fst (mk_blocks m) = [lo..<hi])"

lemma btree_insert_end: "\<forall>k'\<in>fst ` set m. k' < k \<Longrightarrow> btree_insert k v m = m @ [(k, v)]"
  by (induction m) auto

lemma mock_new_at_height_blocks:
  "mk_blocks (mock_new_at_height f c h) = map (\<lambda>i. (i, (u64_mul i 2, f i))) [0..<Suc h]"
proof -
  have "fold (\<lambda>i. btree_insert i (u64_mul i 2, f i)) [0..<n] [] = map (\<lambda>i. (i, (u64_mul i 2, f i))) [0..<n]" for n
    by (induction n) (auto simp: btree_insert_end)
  then show ?thesis by (simp only: mock_new_at_height_def mock_ledger.simps)
qed

lemma mock_latest_height:
  assumes "map fst (mk_blocks m) = [lo..<hi]" "lo < hi"
  shows "mock_latest_block_height m = hi - 1"
proof -
  have ne: "mk_blocks m \<noteq> []"
  proof
    assume "mk_blocks m = []"
    then have "length [lo..<hi] = 0" using arg_cong [OF assms(1), of length] by simp
    then show False using assms(2) by simp
  qed
  have "fst (last (mk_blocks m)) = last (map fst (mk_blocks m))" using ne by (simp add: last_map)
  also have "\<dots> = hi - 1" unfolding assms(1) using assms(2) by (rule last_upt)
  finally show ?thesis using ne by (simp add: mock_latest_block_height_def)
qed

lemma mock_advance_inv:
  assumes "mock_inv m" "mock_advance_to_next_block m b = (r, m')" "mock_latest_block_height m < 2 ^ 32 - 1"
  shows "mock_inv m' \<and> (is_ok r \<longrightarrow> mock_latest_block_height m' = Suc (mock_latest_block_height m) \<and>
    mock_get_block_hash m' (blk_height b) = Inr (blk_hash b))"
proof (cases "blk_height b = Suc (mock_latest_block_height m)")
  case next_block: True
  then have m': "r = Inr ()" "m' = m\<lparr>mk_blocks := btree_insert (blk_height b) (blk_round b, blk_hash b) (mk_blocks m)\<rparr>"
    using assms(2,3) by (simp_all add: mock_advance_to_next_block_def)
  have new: "mk_blocks m' = mk_blocks m @ [(blk_height b, blk_round b, blk_hash b)]" and "mock_inv m'"
  proof -
    obtain lo hi where keys: "lo \<le> 1" "map fst (mk_blocks m) = [lo..<hi]" using assms(1) by (auto simp: mock_inv_def)
    have "fst ` set (mk_blocks m) = {lo..<hi}" using arg_cong [OF keys(2), of set] by simp
    then show e: "mk_blocks m' = mk_blocks m @ [(blk_height b, blk_round b, blk_hash b)]"
      using mock_latest_height [OF keys(2)] next_block
      by (cases "lo < hi") (auto simp: m' btree_insert_end)
    show "mock_inv m'"
    proof (cases "lo < hi")
      case True
      then have "map fst (mk_blocks m') = [lo..<Suc hi]"
        using mock_latest_height [OF keys(2)] next_block keys(2) by (simp add: e)
      then show ?thesis using keys(1) unfolding mock_inv_def by blast
    next
      case False
      then have "mk_blocks m = []" using keys(2) by simp
      then have "map fst (mk_blocks m') = [1..<2]"
        using next_block by (simp add: e mock_latest_block_height_def numeral_2_eq_2)
      then show ?thesis unfolding mock_inv_def by blast
    qed
  qed
  moreover have "mock_latest_block_height m' = Suc (mock_latest_block_height m)"
    by (simp add: mock_latest_block_height_def [of m'] new next_block)
  moreover have "mock_get_block_hash m' (blk_height b) = Inr (blk_hash b)"
    by (simp add: m'(2) mock_get_block_hash_def)
  ultimately show ?thesis by blast
next
  case False
  then show ?thesis using assms by (auto simp: mock_advance_to_next_block_def)
qed

lemma mock_new_inv: "mock_inv (mock_new c)" "mock_inv (mock_new_at_height f c h)"
proof -
  have "map fst (mk_blocks (mock_new c)) = [0..<0]" by (simp add: mock_new_def)
  then show "mock_inv (mock_new c)" unfolding mock_inv_def by blast
  have "map fst (mk_blocks (mock_new_at_height f c h)) = [0..<Suc h]"
    by (simp add: mock_new_at_height_blocks comp_def del: upt_Suc)
  then show "mock_inv (mock_new_at_height f c h)" unfolding mock_inv_def by blast
qed

lemma find_map_key:
  "find_map (\<lambda>(h, r, _). if h = k then Some r else None) m = map_option fst (map_of m k)"
  by (induction m) (auto split: if_splits)

section \<open>Properties\<close>

text \<open>The mock answers for the latest round with the latest height, whatever the rounds of its blocks are: at a height
  above zero its own latest block, of which it keeps the round, is of another round.\<close>

theorem mock_latest_round_is_height:
  assumes "0 < h" "h < 2 ^ 32"
  shows "mock_latest_round (mock_new_at_height f c h) = h \<and> mock_latest_block_height (mock_new_at_height f c h) = h \<and>
    mock_get_block_round (mock_new_at_height f c h) h = Inr (2 * h) \<and>
    mock_get_block_round (mock_new_at_height f c h) h \<noteq> Inr (mock_latest_round (mock_new_at_height f c h))"
proof -
  let ?m = "mock_new_at_height f c h"
  have last: "mk_blocks ?m \<noteq> [] \<and> fst (last (mk_blocks ?m)) = h" by (simp add: mock_new_at_height_blocks)
  have "map_of (mk_blocks ?m) h = Some (u64_mul h 2, f h)"
    by (simp add: mock_new_at_height_blocks map_of_map_keys comp_def map_of_map_restrict del: upt_Suc)
  moreover have "u64_mul h 2 = 2 * h" using assms(2) by (simp add: u64_mul_def)
  ultimately have "mock_get_block_round ?m h = Inr (2 * h)" by (simp add: mock_get_block_round_def find_map_key)
  then show ?thesis using last assms(1) by (simp add: mock_latest_round_def mock_latest_block_height_def)
qed

theorem mock_latest_round_is_height_witness:
  "mock_latest_round (mock_new_at_height (\<lambda>i. i) sample_committee 3) = 3 \<and>
   mock_get_block_round (mock_new_at_height (\<lambda>i. i) sample_committee 3) 3 = Inr 6"
  using mock_latest_round_is_height [of 3 "\<lambda>i. i" sample_committee] by simp

end
