(* ===== verification/Account.thy ===== *)
theory Account
  imports Prelude
begin

text \<open>
  The account of a node (\<open>account/src/lib.rs\<close>): a private key with the view key and the address that belong to it. The
  key and signature scheme of snarkVM is a parameter, with its fallible steps as options; terminal styles are one too.
  The lemmas show that every way to make an account keeps the three together, and that what an account signs, every
  account of the same key verifies.
\<close>

section \<open>Definitions\<close>

record ('pk, 'vk, 'addr, 'sig, 'rng) key_scheme =
  ks_new :: "'rng \<Rightarrow> ('pk \<times> 'rng) option"
  ks_from_str :: "string \<Rightarrow> 'pk option"
  ks_view_key :: "'pk \<Rightarrow> 'vk option"
  ks_address :: "'vk \<Rightarrow> 'addr"
  ks_sign :: "'pk \<Rightarrow> nat list \<Rightarrow> 'rng \<Rightarrow> ('sig \<times> 'rng) option"
  ks_sign_bytes :: "'pk \<Rightarrow> nat list \<Rightarrow> 'rng \<Rightarrow> ('sig \<times> 'rng) option"
  ks_sign_bits :: "'pk \<Rightarrow> bool list \<Rightarrow> 'rng \<Rightarrow> ('sig \<times> 'rng) option"
  ks_verify :: "'sig \<Rightarrow> 'addr \<Rightarrow> nat list \<Rightarrow> bool"
  ks_verify_bytes :: "'sig \<Rightarrow> 'addr \<Rightarrow> nat list \<Rightarrow> bool"
  ks_verify_bits :: "'sig \<Rightarrow> 'addr \<Rightarrow> bool list \<Rightarrow> bool"
  ks_show_private :: "'pk \<Rightarrow> string"
  ks_show_view :: "'vk \<Rightarrow> string"
  ks_show_address :: "'addr \<Rightarrow> string"
  ks_label :: "nat \<Rightarrow> string \<Rightarrow> string"

record ('pk, 'vk, 'addr) account =
  ac_private_key :: 'pk
  ac_view_key :: 'vk
  ac_address :: 'addr

datatype account_error = KeySamplingFailed | KeyParseFailed | ViewKeyFailed | SigningFailed

definition account_try_from ::
  "('pk, 'vk, 'addr, 'sig, 'rng) key_scheme \<Rightarrow> 'pk \<Rightarrow> (account_error, ('pk, 'vk, 'addr) account) result" where
  "account_try_from K private_key =
     rbind (ok_or ViewKeyFailed (ks_view_key K private_key)) (\<lambda>view_key.
       Inr \<lparr>ac_private_key = private_key, ac_view_key = view_key, ac_address = ks_address K view_key\<rparr>)"

definition account_new ::
  "('pk, 'vk, 'addr, 'sig, 'rng) key_scheme \<Rightarrow> 'rng \<Rightarrow> (account_error, ('pk, 'vk, 'addr) account \<times> 'rng) result" where
  "account_new K rng =
     rbind (ok_or KeySamplingFailed (ks_new K rng)) (\<lambda>(private_key, rng').
       rbind (account_try_from K private_key) (\<lambda>a. Inr (a, rng')))"

text \<open>The conversions from the kinds of strings all end here.\<close>

definition account_from_str ::
  "('pk, 'vk, 'addr, 'sig, 'rng) key_scheme \<Rightarrow> string \<Rightarrow> (account_error, ('pk, 'vk, 'addr) account) result" where
  "account_from_str K s = rbind (ok_or KeyParseFailed (ks_from_str K s)) (account_try_from K)"

definition account_sign ::
  "('pk, 'vk, 'addr, 'sig, 'rng) key_scheme \<Rightarrow> ('pk, 'vk, 'addr) account \<Rightarrow> nat list \<Rightarrow> 'rng \<Rightarrow>
   (account_error, 'sig \<times> 'rng) result" where
  "account_sign K a message rng = ok_or SigningFailed (ks_sign K (ac_private_key a) message rng)"

definition account_sign_bytes ::
  "('pk, 'vk, 'addr, 'sig, 'rng) key_scheme \<Rightarrow> ('pk, 'vk, 'addr) account \<Rightarrow> nat list \<Rightarrow> 'rng \<Rightarrow>
   (account_error, 'sig \<times> 'rng) result" where
  "account_sign_bytes K a message rng = ok_or SigningFailed (ks_sign_bytes K (ac_private_key a) message rng)"

definition account_sign_bits ::
  "('pk, 'vk, 'addr, 'sig, 'rng) key_scheme \<Rightarrow> ('pk, 'vk, 'addr) account \<Rightarrow> bool list \<Rightarrow> 'rng \<Rightarrow>
   (account_error, 'sig \<times> 'rng) result" where
  "account_sign_bits K a message rng = ok_or SigningFailed (ks_sign_bits K (ac_private_key a) message rng)"

definition account_verify ::
  "('pk, 'vk, 'addr, 'sig, 'rng) key_scheme \<Rightarrow> ('pk, 'vk, 'addr) account \<Rightarrow> nat list \<Rightarrow> 'sig \<Rightarrow> bool" where
  "account_verify K a message signature = ks_verify K signature (ac_address a) message"

definition account_verify_bytes ::
  "('pk, 'vk, 'addr, 'sig, 'rng) key_scheme \<Rightarrow> ('pk, 'vk, 'addr) account \<Rightarrow> nat list \<Rightarrow> 'sig \<Rightarrow> bool" where
  "account_verify_bytes K a message signature = ks_verify_bytes K signature (ac_address a) message"

definition account_verify_bits ::
  "('pk, 'vk, 'addr, 'sig, 'rng) key_scheme \<Rightarrow> ('pk, 'vk, 'addr) account \<Rightarrow> bool list \<Rightarrow> 'sig \<Rightarrow> bool" where
  "account_verify_bits K a message signature = ks_verify_bits K signature (ac_address a) message"

definition account_fmt :: "('pk, 'vk, 'addr, 'sig, 'rng) key_scheme \<Rightarrow> ('pk, 'vk, 'addr) account \<Rightarrow> string" where
  "account_fmt K a =
     '' '' @ ks_label K 12 ''Private Key'' @ ''  '' @ ks_show_private K (ac_private_key a) @ [CHR 0x0A] @
     '' '' @ ks_label K 12 ''View Key'' @ ''  '' @ ks_show_view K (ac_view_key a) @ [CHR 0x0A] @
     '' '' @ ks_label K 12 ''Address'' @ ''  '' @ ks_show_address K (ac_address a)"

section \<open>Lemmas\<close>

text \<open>The view key and the address belong to the private key.\<close>

definition account_wf :: "('pk, 'vk, 'addr, 'sig, 'rng) key_scheme \<Rightarrow> ('pk, 'vk, 'addr) account \<Rightarrow> bool" where
  "account_wf K a \<longleftrightarrow> ks_view_key K (ac_private_key a) = Some (ac_view_key a) \<and> ac_address a = ks_address K (ac_view_key a)"

lemma ok_or_Inr_iff: "ok_or e x = Inr y \<longleftrightarrow> x = Some y"
  by (cases x) simp_all

lemma account_wf_made:
  "account_try_from K p = Inr a \<Longrightarrow> account_wf K a \<and> ac_private_key a = p"
  "account_new K rng = Inr (b, rng') \<Longrightarrow> account_wf K b"
  "account_from_str K s = Inr c \<Longrightarrow> account_wf K c"
  by (auto simp: account_try_from_def account_new_def account_from_str_def account_wf_def rbind_Inr_iff ok_or_Inr_iff)

text \<open>An account is determined by its private key.\<close>

lemma account_wf_unique: "account_wf K a \<Longrightarrow> account_wf K b \<Longrightarrow> ac_private_key a = ac_private_key b \<Longrightarrow> a = b"
  by (cases a; cases b) (simp add: account_wf_def)

text \<open>The contract of a signature scheme, as a client of accounts relies on it.\<close>

locale signatures =
  fixes wf :: "'a \<Rightarrow> bool" and key :: "'a \<Rightarrow> 'k"
    and sign :: "'a \<Rightarrow> 'm \<Rightarrow> 'r \<Rightarrow> ('e, 's \<times> 'r) result" and verify :: "'a \<Rightarrow> 'm \<Rightarrow> 's \<Rightarrow> bool"
  assumes unique: "wf a \<Longrightarrow> wf b \<Longrightarrow> key a = key b \<Longrightarrow> a = b"
    and verifies: "wf a \<Longrightarrow> sign a m r = Inr (s, r') \<Longrightarrow> verify a m s"
begin

lemma verifies_elsewhere: "wf a \<Longrightarrow> wf b \<Longrightarrow> key a = key b \<Longrightarrow> sign a m r = Inr (s, r') \<Longrightarrow> verify b m s"
  using unique verifies by blast

end

text \<open>What the documentation of the scheme promises: a signature verifies for the address of its key.\<close>

definition scheme_correct :: "('pk, 'vk, 'addr, 'sig, 'rng) key_scheme \<Rightarrow> bool" where
  "scheme_correct K \<longleftrightarrow>
     (\<forall>p v m r s r'. ks_view_key K p = Some v \<and> ks_sign K p m r = Some (s, r') \<longrightarrow> ks_verify K s (ks_address K v) m) \<and>
     (\<forall>p v m r s r'. ks_view_key K p = Some v \<and> ks_sign_bytes K p m r = Some (s, r') \<longrightarrow>
        ks_verify_bytes K s (ks_address K v) m) \<and>
     (\<forall>p v m r s r'. ks_view_key K p = Some v \<and> ks_sign_bits K p m r = Some (s, r') \<longrightarrow>
        ks_verify_bits K s (ks_address K v) m)"

lemma scheme_correctD:
  assumes "scheme_correct K" "ks_view_key K p = Some v"
  shows "ks_sign K p m r = Some (s, r') \<Longrightarrow> ks_verify K s (ks_address K v) m"
    "ks_sign_bytes K p m r = Some (s, r') \<Longrightarrow> ks_verify_bytes K s (ks_address K v) m"
    "ks_sign_bits K p b r = Some (s, r') \<Longrightarrow> ks_verify_bits K s (ks_address K v) b"
  using assms unfolding scheme_correct_def by blast+

lemmas account_sign_defs = account_sign_def account_sign_bytes_def account_sign_bits_def account_verify_def
  account_verify_bytes_def account_verify_bits_def ok_or_Inr_iff account_wf_def

interpretation field_signatures: signatures "\<lambda>a. account_wf K a \<and> scheme_correct K" ac_private_key
  "account_sign K" "account_verify K" for K
  by unfold_locales (use account_wf_unique in blast, auto simp: account_sign_defs intro: scheme_correctD)

interpretation byte_signatures: signatures "\<lambda>a. account_wf K a \<and> scheme_correct K" ac_private_key
  "account_sign_bytes K" "account_verify_bytes K" for K
  by unfold_locales (use account_wf_unique in blast, auto simp: account_sign_defs intro: scheme_correctD)

interpretation bit_signatures: signatures "\<lambda>a. account_wf K a \<and> scheme_correct K" ac_private_key
  "account_sign_bits K" "account_verify_bits K" for K
  by unfold_locales (use account_wf_unique in blast, auto simp: account_sign_defs intro: scheme_correctD)

section \<open>Properties\<close>

text \<open>What one account signs, in any of the three forms of a message, every account made from the same private key
  verifies, however the two were made.\<close>

theorem account_signatures_verify:
  assumes "scheme_correct K" "account_from_str K str = Inr a" "account_try_from K (ac_private_key a) = Inr b"
    and "account_sign K a m rng = Inr (s, r1)" "account_sign_bytes K a bs rng = Inr (sb, r2)"
    and "account_sign_bits K a bits rng = Inr (st, r3)"
  shows "a = b \<and> account_verify K b m s \<and> account_verify_bytes K b bs sb \<and> account_verify_bits K b bits st"
proof -
  have wf: "account_wf K a \<and> scheme_correct K" "account_wf K b \<and> scheme_correct K" "ac_private_key a = ac_private_key b"
    using account_wf_made(3) [OF assms(2)] account_wf_made(1) [OF assms(3)] assms(1) by auto
  show ?thesis
    using account_wf_unique wf field_signatures.verifies_elsewhere [OF wf assms(4)]
      byte_signatures.verifies_elsewhere [OF wf assms(5)] bit_signatures.verifies_elsewhere [OF wf assms(6)] by blast
qed

section \<open>Witnesses\<close>

definition sample_scheme :: "(nat, nat, nat, nat, nat) key_scheme" where
  "sample_scheme =
     \<lparr>ks_new = (\<lambda>r. Some (r, Suc r)), ks_from_str = (\<lambda>s. Some (length s)), ks_view_key = (\<lambda>p. Some (p + 1)),
      ks_address = (\<lambda>v. 2 * v), ks_sign = (\<lambda>p m r. Some (p + length m, r)), ks_sign_bytes = (\<lambda>p m r. Some (p + length m, r)),
      ks_sign_bits = (\<lambda>p m r. Some (p + length m, r)), ks_verify = (\<lambda>s a m. 2 * (s + 1) = a + 2 * length m),
      ks_verify_bytes = (\<lambda>s a m. 2 * (s + 1) = a + 2 * length m),
      ks_verify_bits = (\<lambda>s a m. 2 * (s + 1) = a + 2 * length m), ks_show_private = (\<lambda>_. []), ks_show_view = (\<lambda>_. []),
      ks_show_address = (\<lambda>_. []), ks_label = (\<lambda>_ s. s)\<rparr>"

theorem account_signatures_verify_witness:
  "\<exists>a s. account_from_str sample_scheme ''ab'' = Inr a \<and> account_sign sample_scheme a [5, 6] 0 = Inr (s, 0) \<and>
     account_verify sample_scheme a [5, 6] s"
proof -
  let ?a = "\<lparr>ac_private_key = 2, ac_view_key = 3, ac_address = 6\<rparr> :: (nat, nat, nat) account"
  have "scheme_correct sample_scheme" by (auto simp: scheme_correct_def sample_scheme_def)
  moreover have "account_from_str sample_scheme ''ab'' = Inr ?a"
    by (simp add: account_from_str_def account_try_from_def sample_scheme_def)
  moreover have "account_try_from sample_scheme (ac_private_key ?a) = Inr ?a"
    by (simp add: account_try_from_def sample_scheme_def)
  moreover have "account_sign sample_scheme ?a [5, 6] 0 = Inr (4, 0)" "account_sign_bytes sample_scheme ?a [] 0 = Inr (2, 0)"
    "account_sign_bits sample_scheme ?a [] 0 = Inr (2, 0)"
    by (simp_all add: account_sign_def account_sign_bytes_def account_sign_bits_def sample_scheme_def)
  ultimately show ?thesis using account_signatures_verify [of sample_scheme "''ab''" ?a ?a] by blast
qed

end
